theory Spec2Isabelle
  imports Main "HOL-Library.Word" "HOL-Library.Signed_Division"
begin

unbundle bit_operations_syntax

section \<open>The shadow file system: constants and structures\<close>

text \<open>
  A shallow embedding of the shadow file system API.  Conventions:
  \<^item> \<open>uint32_t\<close>/\<open>ptr_t\<close> is \<open>32 word\<close>, \<open>uint8_t\<close> and the bytes of a block are
    \<open>8 word\<close>; a C \<open>int\<close> is an \<open>int\<close>, a conversion \<open>uint32_t \<rightarrow> int\<close> is \<open>sint\<close>
    and \<open>int \<rightarrow> uint32_t\<close> is \<open>word_of_int\<close>; loop counters that only count upwards
    from a constant are \<open>nat\<close>;
  \<^item> a fixed-size C array is a list; the theorems state the lengths and index
    bounds they rely on, outside of which the C program has no defined behaviour;
  \<^item> a C string is the \<open>string\<close> of its characters before the terminating NUL;
  \<^item> the two global variables \<open>file_system\<close> and \<open>open_file_table\<close>, the emulated
    disk and the enumeration index \<open>gnfni\<close> are the fields of one state record
    that every operation takes and returns;
  \<^item> a result \<open>None\<close> stands for a run that does not return normally: a failed
    \<open>assert\<close>, or the use of a buffer that no successful \<open>read_blocks\<close> has filled.
\<close>

definition NUMBER_OF_BYTES_BLOCK :: nat where [simp]: "NUMBER_OF_BYTES_BLOCK = 1024"
definition NUMBER_OF_BLOCKS :: nat where [simp]: "NUMBER_OF_BLOCKS = 1024"
definition NUMBER_OF_POINTERS :: nat where [simp]: "NUMBER_OF_POINTERS = 14"
definition NODE_SIZE :: nat where [simp]: "NODE_SIZE = (NUMBER_OF_POINTERS + 2) * 4"
definition NUMBER_OF_I_NODES :: nat where [simp]: "NUMBER_OF_I_NODES = 200"
definition MAX_NODE_IN_BLOCK :: nat where
  [simp]: "MAX_NODE_IN_BLOCK = NUMBER_OF_BYTES_BLOCK div NODE_SIZE"
definition BLOCKS_I_NODE_FILE :: nat where
  [simp]: "BLOCKS_I_NODE_FILE = NUMBER_OF_I_NODES div MAX_NODE_IN_BLOCK
             + (if NUMBER_OF_I_NODES mod MAX_NODE_IN_BLOCK \<noteq> 0 then 1 else 0)"
definition MAX_NAME_LENGTH :: nat where [simp]: "MAX_NAME_LENGTH = 20"

text \<open>\<open>sizeof(struct s_dir_entry)\<close>: 21 name bytes, padded to the alignment of the
  \<open>uint32_t\<close> that follows, and the 4 bytes of the i-node number.\<close>
definition SIZEOF_DIR_ENTRY :: nat where
  [simp]: "SIZEOF_DIR_ENTRY = ((MAX_NAME_LENGTH + 1 + 3) div 4) * 4 + 4"
definition MAX_FILES :: nat where [simp]: "MAX_FILES = NUMBER_OF_BYTES_BLOCK div SIZEOF_DIR_ENTRY"
definition MAX_DIRS_INCL_SHAD :: nat where [simp]: "MAX_DIRS_INCL_SHAD = 5"
definition MAX_FD :: nat where [simp]: "MAX_FD = 32"
definition FIRST_DATA_BLOCK :: nat where [simp]: "FIRST_DATA_BLOCK = 1 + BLOCKS_I_NODE_FILE"
definition LAST_DATA_BLOCK :: nat where
  [simp]: "LAST_DATA_BLOCK = NUMBER_OF_BLOCKS - 1 - 2 - MAX_DIRS_INCL_SHAD"
definition POINTERS_IND_BLOCK :: nat where [simp]: "POINTERS_IND_BLOCK = NUMBER_OF_BYTES_BLOCK div 4"

type_synonym ptr_t = "32 word"

record s_node =
  size_n :: int
  pointer :: "ptr_t list"
  ind_pointer :: ptr_t

text \<open>\<open>struct s_bit_map\<close>: the \<open>block_group\<close> bytes, one bit per block.\<close>
type_synonym s_bit_map = "8 word list"

text \<open>\<open>struct s_ind_node_block\<close> and \<open>struct s_data_block\<close>, as held in memory.\<close>
type_synonym s_ind_node_block = "ptr_t list"
type_synonym s_data_block = "8 word list"

record s_dir_entry =
  name :: string
  i_node_number :: "32 word"

type_synonym s_dir = "s_dir_entry list"

text \<open>\<open>struct s_file_system\<close>.  The i-node file is \<open>block[i].i_node[j]\<close>, a list of
  i-node blocks.  The super block is written by the formatter and flushed, and no
  file operation reads it; it is left out.\<close>
record s_file_system =
  i_node_file :: "s_node list list"
  directory :: "s_dir list"
  free_bit_map :: s_bit_map
  write_mask :: s_bit_map

record s_file_pointer =
  block :: ptr_t
  c_ptr :: ptr_t

record s_fd =
  entry :: s_dir_entry
  read_pointer :: s_file_pointer
  write_pointer :: s_file_pointer

type_synonym s_open_file_table = "s_fd list"

section \<open>Bit maps\<close>

definition set_bit_c :: "8 word \<Rightarrow> nat \<Rightarrow> 8 word" where
  "set_bit_c block_group index = block_group OR push_bit index 1"

definition clr_bit :: "8 word \<Rightarrow> nat \<Rightarrow> 8 word" where
  "clr_bit block_group index = block_group AND NOT (push_bit index 1)"

definition get_bit :: "8 word \<Rightarrow> nat \<Rightarrow> int" where
  "get_bit block_group index = uint (drop_bit index block_group AND 1)"

definition set_bit_map :: "s_bit_map \<Rightarrow> nat \<Rightarrow> s_bit_map" where
  "set_bit_map bmap b = bmap[b div 8 := set_bit_c (bmap ! (b div 8)) (b mod 8)]"

definition clr_bit_map :: "s_bit_map \<Rightarrow> nat \<Rightarrow> s_bit_map" where
  "clr_bit_map bmap b = bmap[b div 8 := clr_bit (bmap ! (b div 8)) (b mod 8)]"

definition get_bit_map :: "s_bit_map \<Rightarrow> nat \<Rightarrow> int" where
  "get_bit_map bmap b = get_bit (bmap ! (b div 8)) (b mod 8)"

section \<open>Loops, strings and the block device\<close>

text \<open>A search loop \<open>for(i = lo; i < hi; i++) if(P i) { ...; return/break; }\<close> is
  \<open>first_index P lo hi\<close>: the first index of the range at which the test succeeds, or
  \<open>None\<close> when the loop runs to its end.\<close>
function first_index :: "(nat \<Rightarrow> bool) \<Rightarrow> nat \<Rightarrow> nat \<Rightarrow> nat option" where
  "first_index P i n = (if i < n then (if P i then Some i else first_index P (i + 1) n) else None)"
  by pat_completeness auto
termination
  by (relation "measure (\<lambda>(P, i, n). n - i)") auto

declare first_index.simps [simp del]

text \<open>\<open>strncmp(a, b, n)\<close> on C strings: the difference of the first pair of bytes that
  differ among the first \<open>n\<close>, the end of a string counting as the byte 0.\<close>
fun strncmp :: "string \<Rightarrow> string \<Rightarrow> nat \<Rightarrow> int" where
  "strncmp a b 0 = 0"
| "strncmp [] [] (Suc n) = 0"
| "strncmp [] (y # ys) (Suc n) = - int (of_char y :: nat)"
| "strncmp (x # xs) [] (Suc n) = int (of_char x :: nat)"
| "strncmp (x # xs) (y # ys) (Suc n) =
     (if x = y then strncmp xs ys n else int (of_char x :: nat) - int (of_char y :: nat))"

text \<open>\<open>strncpy(dst, src, n)\<close> into a \<open>char dst[n + 1]\<close> whose last byte is 0, as the
  name of every directory entry and descriptor is: the string that \<open>dst\<close> then holds.\<close>
definition strncpy_c :: "string \<Rightarrow> nat \<Rightarrow> string" where
  "strncpy_c src n = take n src"

text \<open>Modelled from the spec: the block device emulator (\<open>read_blocks\<close>, \<open>write_blocks\<close>,
  \<open>init_fresh_disk\<close>) is not among the sources.  It presents \<open>NUMBER_OF_BLOCKS\<close> blocks
  of \<open>NUMBER_OF_BYTES_BLOCK\<close> bytes, read and written one whole block at a time,
  returning 0 on success and an error for a block outside the device.  A block
  holds the bytes last written to it; a block into which an in-memory metadata
  structure (super block, i-node file, directory, bit map) was flushed is \<open>Metadata\<close>,
  its byte image not being modelled.\<close>
datatype disk_block = Bytes "8 word list" | Metadata

type_synonym disk_t = "nat \<Rightarrow> disk_block"

definition read_blocks :: "disk_t \<Rightarrow> int \<Rightarrow> disk_block option" where
  "read_blocks d start =
     (if 0 \<le> start \<and> start < int NUMBER_OF_BLOCKS then Some (d (nat start)) else None)"

definition write_blocks :: "disk_t \<Rightarrow> int \<Rightarrow> disk_block \<Rightarrow> disk_t" where
  "write_blocks d start b =
     (if 0 \<le> start \<and> start < int NUMBER_OF_BLOCKS then d(nat start := b) else d)"

text \<open>\<open>write_blocks(start, n, &metadata)\<close> of an in-memory metadata structure.\<close>
definition write_meta :: "disk_t \<Rightarrow> nat \<Rightarrow> nat \<Rightarrow> disk_t" where
  "write_meta d start n = (\<lambda>b. if start \<le> b \<and> b < start + n then Metadata else d b)"

definition fresh_disk :: disk_t where
  "fresh_disk = (\<lambda>b. Bytes (replicate NUMBER_OF_BYTES_BLOCK 0))"

text \<open>\<open>read_blocks(start, 1, &data_block)\<close> whose result is not tested by the caller: the
  bytes read, or \<open>None\<close> where the buffer is left unfilled or its bytes are not modelled.\<close>
definition read_data_block :: "disk_t \<Rightarrow> int \<Rightarrow> s_data_block option" where
  "read_data_block d start =
     (case read_blocks d start of Some (Bytes bs) \<Rightarrow> Some bs | _ \<Rightarrow> None)"

text \<open>An indirect block is 256 pointers of 4 bytes, stored little-endian.\<close>
definition ptr_of_bytes :: "8 word list \<Rightarrow> nat \<Rightarrow> ptr_t" where
  "ptr_of_bytes bs i =
     ucast (bs ! (4 * i)) OR push_bit 8 (ucast (bs ! (4 * i + 1)))
       OR push_bit 16 (ucast (bs ! (4 * i + 2))) OR push_bit 24 (ucast (bs ! (4 * i + 3)))"

definition bytes_to_ind :: "8 word list \<Rightarrow> s_ind_node_block" where
  "bytes_to_ind bs = map (ptr_of_bytes bs) [0 ..< POINTERS_IND_BLOCK]"

definition bytes_of_ptr :: "ptr_t \<Rightarrow> 8 word list" where
  "bytes_of_ptr p = [ucast p, ucast (drop_bit 8 p), ucast (drop_bit 16 p), ucast (drop_bit 24 p)]"

definition ind_to_bytes :: "s_ind_node_block \<Rightarrow> 8 word list" where
  "ind_to_bytes ps = concat (map bytes_of_ptr ps)"

definition read_ind_node_block :: "disk_t \<Rightarrow> int \<Rightarrow> s_ind_node_block option" where
  "read_ind_node_block d start = map_option bytes_to_ind (read_data_block d start)"

record state =
  file_system :: s_file_system
  open_file_table :: s_open_file_table
  disk :: disk_t
  gnfni :: nat

section \<open>Formatting\<close>

definition init_node :: s_node where
  "init_node = \<lparr>size_n = -1, pointer = replicate NUMBER_OF_POINTERS 0, ind_pointer = 0\<rparr>"

definition init_node_block :: "s_node list" where
  "init_node_block = replicate MAX_NODE_IN_BLOCK init_node"

definition init_node_file :: "s_node list list" where
  "init_node_file = replicate BLOCKS_I_NODE_FILE init_node_block"

definition init_map :: s_bit_map where
  "init_map = replicate (NUMBER_OF_BLOCKS div 8 + (if NUMBER_OF_BLOCKS mod 8 \<noteq> 0 then 1 else 0)) 0xff"

definition init_ind_node_block :: s_ind_node_block where
  "init_ind_node_block = replicate POINTERS_IND_BLOCK 0"

definition init_dir_entry :: s_dir_entry where
  "init_dir_entry = \<lparr>name = [], i_node_number = 0\<rparr>"

definition init_dir :: s_dir where
  "init_dir = replicate MAX_FILES init_dir_entry"

text \<open>\<open>file_system.i_node_file.block[i_block].i_node[i_node]\<close>, read and written.\<close>
definition get_node :: "s_file_system \<Rightarrow> nat \<Rightarrow> nat \<Rightarrow> s_node" where
  "get_node fs i_block i_node = i_node_file fs ! i_block ! i_node"

definition set_node :: "s_file_system \<Rightarrow> nat \<Rightarrow> nat \<Rightarrow> s_node \<Rightarrow> s_file_system" where
  "set_node fs i_block i_node n =
     fs\<lparr>i_node_file := (i_node_file fs)[i_block := (i_node_file fs ! i_block)[i_node := n]]\<rparr>"

definition clr_both :: "nat \<Rightarrow> s_file_system \<Rightarrow> s_file_system" where
  "clr_both i fs = fs\<lparr>free_bit_map := clr_bit_map (free_bit_map fs) i,
                      write_mask := clr_bit_map (write_mask fs) i\<rparr>"

definition init_file_system :: s_file_system where
  "init_file_system =
     (let fs0 = \<lparr>i_node_file = init_node_file,
                 directory = replicate MAX_DIRS_INCL_SHAD init_dir,
                 free_bit_map = init_map, write_mask = init_map\<rparr>;
          fs1 = fold (\<lambda>i fs. set_node fs 0 i
                   ((get_node fs 0 i)\<lparr>size_n := 0,
                      pointer := (pointer (get_node fs 0 i))[0 := of_nat (NUMBER_OF_BLOCKS - 2 - (i + 1))]\<rparr>))
                 [0 ..< MAX_DIRS_INCL_SHAD] fs0;
          fs2 = fold clr_both [0 ..< BLOCKS_I_NODE_FILE + 1] fs1
      in fold clr_both (rev [NUMBER_OF_BLOCKS - 2 - (MAX_DIRS_INCL_SHAD + 1) ..< NUMBER_OF_BLOCKS]) fs2)"

definition init_file_pointer :: s_file_pointer where
  "init_file_pointer = \<lparr>block = 0, c_ptr = 0\<rparr>"

definition init_fd :: s_fd where
  "init_fd = \<lparr>entry = init_dir_entry, read_pointer = init_file_pointer,
              write_pointer = init_file_pointer\<rparr>"

definition init_open_file_table :: s_open_file_table where
  "init_open_file_table = replicate MAX_FD init_fd"

definition node_number_to_block :: "nat \<Rightarrow> nat" where
  "node_number_to_block inn = inn div MAX_NODE_IN_BLOCK"

definition node_number_to_node_in_block :: "nat \<Rightarrow> nat" where
  "node_number_to_node_in_block inn = inn mod MAX_NODE_IN_BLOCK"

text \<open>The i-node of a file, by its i-node number.\<close>
definition node_of :: "s_file_system \<Rightarrow> nat \<Rightarrow> s_node" where
  "node_of fs inn = get_node fs (node_number_to_block inn) (node_number_to_node_in_block inn)"

definition node_upd :: "s_file_system \<Rightarrow> nat \<Rightarrow> s_node \<Rightarrow> s_file_system" where
  "node_upd fs inn n = set_node fs (node_number_to_block inn) (node_number_to_node_in_block inn) n"

definition dump_file_system_to_disk :: "state \<Rightarrow> state" where
  "dump_file_system_to_disk st =
     (let d1 = write_meta (disk st) 0 1;
          d2 = write_meta d1 (NUMBER_OF_BLOCKS - 1) 1;
          d3 = write_meta d2 (NUMBER_OF_BLOCKS - 2) 1;
          d4 = write_meta d3 1 BLOCKS_I_NODE_FILE
      in st\<lparr>disk := fold (\<lambda>i d. write_meta d (NUMBER_OF_BLOCKS - 2 - (i + 1)) 1)
                       [0 ..< MAX_DIRS_INCL_SHAD] d4\<rparr>)"

text \<open>\<open>mkssfs(1)\<close>, on a device that \<open>init_fresh_disk\<close> has zeroed.\<close>
definition mkssfs_fresh :: state where
  "mkssfs_fresh = dump_file_system_to_disk
     \<lparr>file_system = init_file_system, open_file_table = init_open_file_table,
      disk = fresh_disk, gnfni = 0\<rparr>"

section \<open>The allocators\<close>

definition get_free_block :: "s_file_system \<Rightarrow> s_file_system \<times> int" where
  "get_free_block fs =
     (case first_index (\<lambda>i. get_bit_map (free_bit_map fs) i \<noteq> 0)
             FIRST_DATA_BLOCK (LAST_DATA_BLOCK + 1) of
        Some i \<Rightarrow> (fs\<lparr>free_bit_map := clr_bit_map (free_bit_map fs) i\<rparr>, int i)
      | None \<Rightarrow> (fs, -1))"

text \<open>\<open>get_free_i_node\<close>: the two nested loops visit the i-nodes in the order of their
  numbers \<open>k = i * MAX_NODE_IN_BLOCK + j\<close>.  The result is \<open>(i_block, j)\<close> for the first
  node with \<open>pointer[0] == 0\<close>, or \<open>None\<close> where the function returns -1 and leaves
  \<open>*i_block\<close> as it was.\<close>
definition get_free_i_node :: "s_file_system \<Rightarrow> (nat \<times> nat) option" where
  "get_free_i_node fs =
     (case first_index (\<lambda>k. pointer (node_of fs k) ! 0 = 0) 0 (BLOCKS_I_NODE_FILE * MAX_NODE_IN_BLOCK) of
        Some k \<Rightarrow> Some (node_number_to_block k, node_number_to_node_in_block k)
      | None \<Rightarrow> None)"

text \<open>\<open>add_file_to_dir\<close>: the new state, the returned directory index (or -1) and the
  values left in \<open>*i_block\<close> and \<open>*i_node\<close>, given the values they had before.\<close>
definition add_file_to_dir :: "state \<Rightarrow> string \<Rightarrow> int \<Rightarrow> int \<Rightarrow> state \<times> int \<times> int \<times> int" where
  "add_file_to_dir st nm i_block0 i_node0 =
     (let fs = file_system st in
      case first_index (\<lambda>i. name (directory fs ! 0 ! i) = []) 0 MAX_FILES of
        None \<Rightarrow> (st, -1, i_block0, i_node0)
      | Some i \<Rightarrow>
          (case get_free_i_node fs of
             None \<Rightarrow> (st, -1, -1, -1)
           | Some (i_block, i_node) \<Rightarrow>
               (case get_free_block fs of (fs1, blk) \<Rightarrow>
                  if blk = -1 then (st\<lparr>file_system := fs1\<rparr>, -1, int i_block, int i_node)
                  else
                    let fs2 = set_node fs1 i_block i_node ((get_node fs1 i_block i_node)\<lparr>size_n := 0\<rparr>);
                        e = (directory fs2 ! 0 ! i)
                              \<lparr>name := strncpy_c nm MAX_NAME_LENGTH,
                               i_node_number := word_of_int (int i_node + int i_block * int MAX_NODE_IN_BLOCK)\<rparr>;
                        fs3 = fs2\<lparr>directory := (directory fs2)[0 := (directory fs2 ! 0)[i := e]]\<rparr>;
                        fs4 = set_node fs3 i_block i_node
                                ((get_node fs3 i_block i_node)
                                   \<lparr>pointer := (pointer (get_node fs3 i_block i_node))[0 := word_of_int blk]\<rparr>);
                        d1 = write_meta (disk st) (NUMBER_OF_BLOCKS - 2 - 1) 1;
                        d2 = write_meta d1 (1 + i_block) 1
                    in (st\<lparr>file_system := fs4, disk := d2\<rparr>, int i, int i_block, int i_node))))"

section \<open>Walking the blocks of a file\<close>

text \<open>The loop \<open>for(i ...) { if(!p[i]) return last; last = p[i]; }\<close> over a pointer array:
  the value of \<open>last\<close> and whether the loop returned.\<close>
primrec scan_last :: "ptr_t list \<Rightarrow> int \<Rightarrow> int \<times> bool" where
  "scan_last [] lst = (lst, False)"
| "scan_last (p # ps) lst = (if p = 0 then (lst, True) else scan_last ps (sint p))"

definition get_last_file_block :: "state \<Rightarrow> nat \<Rightarrow> int option" where
  "get_last_file_block st inn =
     (let node = node_of (file_system st) inn in
      case scan_last (pointer node) (-1) of (lst, returned) \<Rightarrow>
        if returned then Some lst
        else if ind_pointer node = 0 then Some lst
        else (case read_ind_node_block (disk st) (sint (ind_pointer node)) of
                None \<Rightarrow> None
              | Some ind_node_block \<Rightarrow> Some (fst (scan_last ind_node_block lst))))"

text \<open>The loop \<open>for(i ...) { if(!p[i]) return num; num++; }\<close>.\<close>
primrec scan_num :: "ptr_t list \<Rightarrow> int \<Rightarrow> int \<times> bool" where
  "scan_num [] num = (num, False)"
| "scan_num (p # ps) num = (if p = 0 then (num, True) else scan_num ps (num + 1))"

definition get_num_file_blocks :: "state \<Rightarrow> nat \<Rightarrow> int option" where
  "get_num_file_blocks st inn =
     (let node = node_of (file_system st) inn in
      case scan_num (pointer node) 0 of (num, returned) \<Rightarrow>
        if returned then Some num
        else if ind_pointer node = 0 then Some num
        else (case read_ind_node_block (disk st) (sint (ind_pointer node)) of
                None \<Rightarrow> None
              | Some ind_node_block \<Rightarrow> Some (fst (scan_num ind_node_block num))))"

definition get_file_size :: "state \<Rightarrow> nat \<Rightarrow> int" where
  "get_file_size st inn = size_n (node_of (file_system st) inn)"

text \<open>\<open>get_end_char\<close>; the C remainder \<open>%\<close> truncates towards zero (\<open>smod\<close>).\<close>
definition get_end_char :: "state \<Rightarrow> nat \<Rightarrow> int option" where
  "get_end_char st inn =
     (let sz = get_file_size st inn; e = sz smod int NUMBER_OF_BYTES_BLOCK in
      if e = 0 then
        (case get_num_file_blocks st inn of
           None \<Rightarrow> None
         | Some num \<Rightarrow> Some (if sz = num * int NUMBER_OF_BYTES_BLOCK then int NUMBER_OF_BYTES_BLOCK else e))
      else Some e)"


section \<open>Opening files\<close>

text \<open>\<open>open_file_table.file[i]\<close>, updated.\<close>
definition fd_upd :: "state \<Rightarrow> nat \<Rightarrow> (s_fd \<Rightarrow> s_fd) \<Rightarrow> state" where
  "fd_upd st i f = st\<lparr>open_file_table := (open_file_table st)[i := f (open_file_table st ! i)]\<rparr>"

definition dir0 :: "state \<Rightarrow> s_dir" where
  "dir0 st = directory (file_system st) ! 0"

definition set_fopen_name :: "state \<Rightarrow> string \<Rightarrow> nat \<Rightarrow> state" where
  "set_fopen_name st nm index_table =
     fd_upd st index_table (\<lambda>f. f\<lparr>entry := (entry f)\<lparr>name := strncpy_c nm MAX_NAME_LENGTH\<rparr>\<rparr>)"

definition set_read_ptr :: "state \<Rightarrow> nat \<Rightarrow> nat \<Rightarrow> state" where
  "set_read_ptr st inn index_table =
     fd_upd st index_table
       (\<lambda>f. f\<lparr>read_pointer := \<lparr>block = pointer (node_of (file_system st) inn) ! 0, c_ptr = 0\<rparr>\<rparr>)"

definition set_write_ptr :: "state \<Rightarrow> nat \<Rightarrow> nat \<Rightarrow> state option" where
  "set_write_ptr st inn index_table =
     (case get_last_file_block st inn of
        None \<Rightarrow> None
      | Some lb \<Rightarrow>
          (case get_end_char st inn of
             None \<Rightarrow> None
           | Some ec \<Rightarrow>
               Some (fd_upd st index_table
                 (\<lambda>f. f\<lparr>write_pointer := \<lparr>block = word_of_int lb, c_ptr = word_of_int ec\<rparr>\<rparr>))))"

definition set_fopen_ptrs :: "state \<Rightarrow> nat \<Rightarrow> nat \<Rightarrow> state option" where
  "set_fopen_ptrs st index_sys index_table =
     (let inn = i_node_number (dir0 st ! index_sys) in
      case set_write_ptr st (unat inn) index_table of
        None \<Rightarrow> None
      | Some st1 \<Rightarrow>
          Some (set_read_ptr
                  (fd_upd st1 index_table (\<lambda>f. f\<lparr>entry := (entry f)\<lparr>i_node_number := inn\<rparr>\<rparr>))
                  (unat inn) index_table))"

text \<open>The first descriptor whose name is empty.\<close>
definition free_fd :: "state \<Rightarrow> nat option" where
  "free_fd st = first_index (\<lambda>i. name (entry (open_file_table st ! i)) = []) 0 MAX_FD"

definition create_open_file_entry :: "state \<Rightarrow> string \<Rightarrow> nat \<Rightarrow> (state \<times> int) option" where
  "create_open_file_entry st nm index =
     (case free_fd st of
        None \<Rightarrow> Some (st, -1)
      | Some i \<Rightarrow>
          (case set_fopen_ptrs st index i of
             None \<Rightarrow> None
           | Some st1 \<Rightarrow> Some (set_fopen_name st1 nm i, int i)))"

definition fopen_existing :: "state \<Rightarrow> string \<Rightarrow> nat \<Rightarrow> (state \<times> int) option" where
  "fopen_existing st nm index =
     (case first_index (\<lambda>i. strncmp nm (name (entry (open_file_table st ! i))) MAX_NAME_LENGTH = 0)
             0 MAX_FD of
        Some i \<Rightarrow> Some (st, -1)
      | None \<Rightarrow> create_open_file_entry st nm index)"

text \<open>\<open>fopen_new\<close>; a failed \<open>assert(i < MAX_FD)\<close> is \<open>None\<close>.\<close>
definition fopen_new :: "state \<Rightarrow> string \<Rightarrow> (state \<times> int) option" where
  "fopen_new st nm =
     (case first_index (\<lambda>i. strncmp (name (entry (open_file_table st ! i))) nm MAX_NAME_LENGTH = 0)
             0 MAX_FD of
        Some i \<Rightarrow> Some (st, int i)
      | None \<Rightarrow>
          (case free_fd st of
             None \<Rightarrow> None
           | Some i \<Rightarrow>
               (case add_file_to_dir st nm (-1) (-1) of (st1, e, i_block, i_node) \<Rightarrow>
                  if e < 0 then Some (st1, -1)
                  else
                    let p0 = pointer (get_node (file_system st1) (nat i_block) (nat i_node)) ! 0 in
                    Some (fd_upd st1 i
                            (\<lambda>f. \<lparr>entry = \<lparr>name = strncpy_c nm MAX_NAME_LENGTH,
                                            i_node_number = i_node_number (dir0 st1 ! nat e)\<rparr>,
                                  read_pointer = \<lparr>block = p0, c_ptr = 0\<rparr>,
                                  write_pointer = \<lparr>block = p0, c_ptr = 0\<rparr>\<rparr>),
                          int i))))"

definition check_fd_full :: "state \<Rightarrow> int" where
  "check_fd_full st = (case free_fd st of Some i \<Rightarrow> 0 | None \<Rightarrow> -1)"

text \<open>\<open>ssfs_fopen\<close>; the argument \<open>None\<close> is the null pointer.\<close>
definition ssfs_fopen :: "state \<Rightarrow> string option \<Rightarrow> (state \<times> int) option" where
  "ssfs_fopen st nm_opt =
     (if check_fd_full st \<noteq> 0 then Some (st, -1)
      else case nm_opt of
        None \<Rightarrow> Some (st, -1)
      | Some nm \<Rightarrow>
          if length nm = 0 then Some (st, -1)
          else (case first_index (\<lambda>i. strncmp (name (dir0 st ! i)) nm MAX_NAME_LENGTH = 0) 0 MAX_FILES of
                  Some i \<Rightarrow> fopen_existing st nm i
                | None \<Rightarrow> fopen_new st nm))"

definition ssfs_fclose :: "state \<Rightarrow> int \<Rightarrow> state \<times> int" where
  "ssfs_fclose st fileID =
     (if fileID < 0 \<or> fileID \<ge> int MAX_FD then (st, -1)
      else if name (entry (open_file_table st ! nat fileID)) = [] then (st, -1)
      else
        let d1 = write_meta (disk st) 0 1;
            d2 = write_meta d1 1 BLOCKS_I_NODE_FILE;
            d3 = write_meta d2 (NUMBER_OF_BLOCKS - 2 - 1) 1;
            d4 = write_meta d3 (NUMBER_OF_BLOCKS - 2) 1;
            d5 = write_meta d4 (NUMBER_OF_BLOCKS - 1) 1
        in (fd_upd (st\<lparr>disk := d5\<rparr>) (nat fileID) (\<lambda>f. init_fd), 0))"

section \<open>Removing files\<close>

definition rm_fd :: "state \<Rightarrow> string \<Rightarrow> state" where
  "rm_fd st file =
     st\<lparr>open_file_table :=
          map (\<lambda>f. if strncmp (name (entry f)) file MAX_NAME_LENGTH = 0 then init_fd else f)
            (open_file_table st)\<rparr>"

definition set_both :: "nat \<Rightarrow> s_file_system \<Rightarrow> s_file_system" where
  "set_both b fs = fs\<lparr>free_bit_map := set_bit_map (free_bit_map fs) b,
                     write_mask := set_bit_map (write_mask fs) b\<rparr>"

text \<open>The loop \<open>for(i ...) { rm_block = p[i]; if(!rm_block) break; set_bit_map(...); }\<close>.\<close>
primrec free_scan :: "ptr_t list \<Rightarrow> s_file_system \<Rightarrow> s_file_system" where
  "free_scan [] fs = fs"
| "free_scan (p # ps) fs = (if p = 0 then fs else free_scan ps (set_both (unat p) fs))"

text \<open>\<open>rm_file_from_disk\<close>: the file system afterwards.  The indirect block is read
  with the result of \<open>read_blocks\<close> tested; where it holds metadata, whose bytes are not
  modelled, the result is \<open>None\<close>.\<close>
definition rm_file_from_disk :: "nat \<Rightarrow> nat \<Rightarrow> state \<Rightarrow> s_file_system option" where
  "rm_file_from_disk shadow_number entry_index st =
     (let fs = file_system st;
          inn = unat (i_node_number (directory fs ! shadow_number ! entry_index));
          node = node_of fs inn;
          fs1 = free_scan (pointer node) fs
      in if ind_pointer node \<noteq> 0 then
           (case read_blocks (disk st) (sint (ind_pointer node)) of
              None \<Rightarrow> Some (node_upd fs1 inn init_node)
            | Some Metadata \<Rightarrow> None
            | Some (Bytes bs) \<Rightarrow>
                Some (node_upd (set_both (unat (ind_pointer node)) (free_scan (bytes_to_ind bs) fs1))
                        inn init_node))
         else Some (node_upd fs1 inn init_node))"

definition clear_entry :: "s_file_system \<Rightarrow> nat \<Rightarrow> nat \<Rightarrow> s_file_system" where
  "clear_entry fs shadow i =
     fs\<lparr>directory := (directory fs)[shadow := (directory fs ! shadow)[i := init_dir_entry]]\<rparr>"

definition rm_file_from_dir :: "state \<Rightarrow> string \<Rightarrow> (state \<times> int) option" where
  "rm_file_from_dir st nm =
     (case first_index (\<lambda>i. strncmp (name (dir0 st ! i)) nm MAX_NAME_LENGTH = 0) 0 MAX_FILES of
        Some i \<Rightarrow>
          (case rm_file_from_disk 0 i st of
             None \<Rightarrow> None
           | Some fs1 \<Rightarrow> Some (dump_file_system_to_disk (st\<lparr>file_system := clear_entry fs1 0 i\<rparr>), 0))
      | None \<Rightarrow> Some (st, -1))"

definition ssfs_remove :: "state \<Rightarrow> string \<Rightarrow> (state \<times> int) option" where
  "ssfs_remove st file = rm_file_from_dir (rm_fd st file) file"

section \<open>Writing, reading and seeking\<close>

text \<open>\<open>p ? p : -1\<close> for a pointer \<open>p\<close>, returned as an \<open>int\<close>.\<close>
definition ptr_or_fail :: "ptr_t \<Rightarrow> int" where
  "ptr_or_fail p = (if p \<noteq> 0 then sint p else -1)"

definition add_block :: "state \<Rightarrow> nat \<Rightarrow> (state \<times> int) option" where
  "add_block st inn =
     (case get_free_block (file_system st) of (fs1, block_ptr) \<Rightarrow>
        if block_ptr < 0 then Some (st\<lparr>file_system := fs1\<rparr>, -1)
        else
          let node = node_of fs1 inn in
          case first_index (\<lambda>i. pointer node ! i = 0) 0 NUMBER_OF_POINTERS of
            Some i \<Rightarrow>
              Some (st\<lparr>file_system :=
                         node_upd fs1 inn (node\<lparr>pointer := (pointer node)[i := word_of_int block_ptr]\<rparr>)\<rparr>,
                    block_ptr)
          | None \<Rightarrow>
              if ind_pointer node = 0 then
                (case get_free_block fs1 of (fs2, ind_block_ptr) \<Rightarrow>
                   if ind_block_ptr < 0 then Some (st\<lparr>file_system := set_both (nat block_ptr) fs2\<rparr>, -1)
                   else
                     Some (st\<lparr>file_system := node_upd fs2 inn (node\<lparr>ind_pointer := word_of_int ind_block_ptr\<rparr>),
                              disk := write_blocks (disk st) ind_block_ptr
                                        (Bytes (ind_to_bytes (init_ind_node_block[0 := word_of_int block_ptr])))\<rparr>,
                           block_ptr))
              else
                (case read_ind_node_block (disk st) (sint (ind_pointer node)) of
                   None \<Rightarrow> None
                 | Some ind_node_block \<Rightarrow>
                     (case first_index (\<lambda>i. ind_node_block ! i = 0) 0 POINTERS_IND_BLOCK of
                        Some i \<Rightarrow>
                          Some (st\<lparr>file_system := fs1,
                                   disk := write_blocks (disk st) (sint (ind_pointer node))
                                             (Bytes (ind_to_bytes (ind_node_block[i := word_of_int block_ptr])))\<rparr>,
                                block_ptr)
                      | None \<Rightarrow> Some (st\<lparr>file_system := fs1\<rparr>, -1))))"

text \<open>\<open>get_next_file_block\<close>; the failed \<open>assert(0)\<close> is \<open>None\<close>.\<close>
definition get_next_file_block :: "state \<Rightarrow> nat \<Rightarrow> int \<Rightarrow> int option" where
  "get_next_file_block st inn blk =
     (let node = node_of (file_system st) inn in
      case first_index (\<lambda>i. pointer node ! i = word_of_int blk) 0 NUMBER_OF_POINTERS of
        Some i \<Rightarrow>
          if i + 1 < NUMBER_OF_POINTERS then Some (ptr_or_fail (pointer node ! (i + 1)))
          else if ind_pointer node = 0 then Some (-1)
          else (case read_ind_node_block (disk st) (sint (ind_pointer node)) of
                  None \<Rightarrow> None
                | Some ind_node_block \<Rightarrow> Some (ptr_or_fail (ind_node_block ! 0)))
      | None \<Rightarrow>
          (case read_ind_node_block (disk st) (sint (ind_pointer node)) of
             None \<Rightarrow> None
           | Some ind_node_block \<Rightarrow>
               (case first_index (\<lambda>i. ind_node_block ! i = word_of_int blk) 0 POINTERS_IND_BLOCK of
                  Some i \<Rightarrow>
                    if i + 1 < POINTERS_IND_BLOCK then Some (ptr_or_fail (ind_node_block ! (i + 1)))
                    else Some (-1)
                | None \<Rightarrow> None)))"

text \<open>The i-node number held by a descriptor.\<close>
definition fd_inn :: "state \<Rightarrow> int \<Rightarrow> nat" where
  "fd_inn st fileID = unat (i_node_number (entry (open_file_table st ! nat fileID)))"

text \<open>\<open>seek_block\<close>; an index beyond the 256 pointers of the indirect block, which the
  source reads out of bounds, is \<open>None\<close>.\<close>
definition seek_block :: "state \<Rightarrow> int \<Rightarrow> int \<Rightarrow> int option" where
  "seek_block st fileID loc =
     (if loc < 0 then Some (-1)
      else
        let block_in_file = loc div int NUMBER_OF_BYTES_BLOCK;
            node = node_of (file_system st) (fd_inn st fileID)
        in if block_in_file < int NUMBER_OF_POINTERS then
             Some (ptr_or_fail (pointer node ! nat block_in_file))
           else
             let ind_block_ptr = sint (ind_pointer node) in
             if ind_block_ptr = 0 then Some (-1)
             else (case read_ind_node_block (disk st) ind_block_ptr of
                     None \<Rightarrow> None
                   | Some ind_node_block \<Rightarrow>
                       let block_in_ind_block = block_in_file - int NUMBER_OF_POINTERS in
                       if int POINTERS_IND_BLOCK \<le> block_in_ind_block then None
                       else Some (ptr_or_fail (ind_node_block ! nat block_in_ind_block))))"

definition seek_char :: "state \<Rightarrow> int \<Rightarrow> int \<Rightarrow> int option" where
  "seek_char st fileID loc =
     (if loc < 0 then Some (-1)
      else
        let char_in_block = loc mod int NUMBER_OF_BYTES_BLOCK;
            inn = fd_inn st fileID
        in case seek_block st fileID loc of
             None \<Rightarrow> None
           | Some blk \<Rightarrow>
               (case get_last_file_block st inn of
                  None \<Rightarrow> None
                | Some lb \<Rightarrow>
                    if blk = lb then
                      (case get_end_char st inn of
                         None \<Rightarrow> None
                       | Some ec \<Rightarrow> Some (if char_in_block \<le> ec then char_in_block else -1))
                    else Some char_in_block))"

definition ssfs_frseek :: "state \<Rightarrow> int \<Rightarrow> int \<Rightarrow> (state \<times> int) option" where
  "ssfs_frseek st fileID loc =
     (case seek_block st fileID loc of
        None \<Rightarrow> None
      | Some blk \<Rightarrow>
          (case seek_char st fileID loc of
             None \<Rightarrow> None
           | Some char_in_block \<Rightarrow>
               if blk < 0 \<or> char_in_block < 0 then Some (st, -1)
               else Some (fd_upd st (nat fileID)
                            (\<lambda>f. f\<lparr>read_pointer := \<lparr>block = word_of_int blk,
                                                    c_ptr = word_of_int char_in_block\<rparr>\<rparr>), 0)))"

definition ssfs_fwseek :: "state \<Rightarrow> int \<Rightarrow> int \<Rightarrow> (state \<times> int) option" where
  "ssfs_fwseek st fileID loc =
     (case seek_block st fileID loc of
        None \<Rightarrow> None
      | Some blk \<Rightarrow>
          (case seek_char st fileID loc of
             None \<Rightarrow> None
           | Some char_in_block \<Rightarrow>
               if blk < 0 \<or> char_in_block < 0 then Some (st, -1)
               else Some (fd_upd st (nat fileID)
                            (\<lambda>f. f\<lparr>write_pointer := \<lparr>block = word_of_int blk,
                                                     c_ptr = word_of_int char_in_block\<rparr>\<rparr>), 0)))"









text \<open>The inner \<open>while\<close> loop of \<open>ssfs_fread\<close>: the bytes stored into \<open>buf\<close> so far, \<open>cc\<close>
  and \<open>buf_pos\<close> when it ends.\<close>
function fread_copy ::
  "int \<Rightarrow> int \<Rightarrow> int \<Rightarrow> int \<Rightarrow> s_data_block \<Rightarrow> 8 word list \<Rightarrow> int \<Rightarrow> int
   \<Rightarrow> 8 word list \<times> int \<times> int" where
  "fread_copy len cb lb lc data_block out cc buf_pos =
     (if cc < int NUMBER_OF_BYTES_BLOCK \<and> buf_pos < len \<and> \<not> (cb = lb \<and> cc \<ge> lc) then
        fread_copy len cb lb lc data_block (out @ [data_block ! nat cc]) (cc + 1) (buf_pos + 1)
      else (out, cc, buf_pos))"
  by pat_completeness auto
termination
  by (relation "measure (\<lambda>(len, cb, lb, lc, data_block, out, cc, buf_pos). nat (len - buf_pos))") auto

declare fread_copy.simps [simp del]

lemma fread_copy_progress:
  "fread_copy len cb lb lc db out cc bp = (out', cc', bp') \<Longrightarrow>
   bp' - bp = cc' - cc \<and> bp \<le> bp' \<and>
   \<not> (cc' < int NUMBER_OF_BYTES_BLOCK \<and> bp' < len \<and> \<not> (cb = lb \<and> cc' \<ge> lc))"
proof (induction len cb lb lc db out cc bp rule: fread_copy.induct)
  case (1 len cb lb lc db out cc bp)
  show ?case
  proof (cases "cc < int NUMBER_OF_BYTES_BLOCK \<and> bp < len \<and> \<not> (cb = lb \<and> cc \<ge> lc)")
    case True
    then show ?thesis
      using "1.IH" [OF True] "1.prems"
      by (subst (asm) fread_copy.simps) simp
  next
    case False
    then show ?thesis using "1.prems" by (subst (asm) fread_copy.simps) auto
  qed
qed

lemma fread_copy_step:
  "(out', cc', bp') = fread_copy len cb lb lc db out cc bp \<Longrightarrow>
   cc < int NUMBER_OF_BYTES_BLOCK \<Longrightarrow> bp' < len \<Longrightarrow> \<not> (cb = lb \<and> cc' \<ge> lc) \<Longrightarrow>
   bp < bp' \<and> bp < len"
  using fread_copy_progress [of len cb lb lc db out cc bp out' cc' bp'] by auto

text \<open>\<open>ssfs_fread\<close> from the label \<open>FILL_BLOCK\<close> to the label \<open>EXIT\<close>.\<close>
function fread_fill ::
  "nat \<Rightarrow> int \<Rightarrow> int \<Rightarrow> int \<Rightarrow> state \<Rightarrow> int \<Rightarrow> int \<Rightarrow> 8 word list \<Rightarrow> int
   \<Rightarrow> (int \<times> int \<times> 8 word list \<times> int) option" where
  "fread_fill inn len lb lc st cb cc out buf_pos =
     (case (if cc \<ge> int NUMBER_OF_BYTES_BLOCK then
              (case get_next_file_block st inn cb of
                 None \<Rightarrow> None
               | Some tb \<Rightarrow> Some (tb < 0, tb, 0))
            else Some (False, cb, cc)) of
        None \<Rightarrow> None
      | Some (to_exit, cb1, cc1) \<Rightarrow>
          if to_exit then Some (cb, cc, out, buf_pos)
          else
            (case read_data_block (disk st) cb1 of
               None \<Rightarrow> None
             | Some data_block \<Rightarrow>
                 (case fread_copy len cb1 lb lc data_block out cc1 buf_pos of
                    (out2, cc2, buf_pos2) \<Rightarrow>
                      if buf_pos2 < len \<and> \<not> (cb1 = lb \<and> cc2 \<ge> lc)
                      then fread_fill inn len lb lc st cb1 cc2 out2 buf_pos2
                      else Some (cb1, cc2, out2, buf_pos2))))"
  by pat_completeness auto
termination
  apply (relation "measure (\<lambda>(inn, len, lb, lc, st, cb, cc, out, buf_pos). nat (len - buf_pos))")
   apply simp
  apply (auto split: if_splits option.splits dest: fread_copy_step)
  done

declare fread_fill.simps [simp del]

text \<open>\<open>ssfs_fread\<close>: the state, the bytes stored into \<open>buf[0 .. ]\<close> and the returned value;
  \<open>buf_given = False\<close> is the null pointer.  A negative \<open>c_ptr\<close> is \<open>None\<close>.\<close>
definition ssfs_fread :: "state \<Rightarrow> int \<Rightarrow> bool \<Rightarrow> int \<Rightarrow> (state \<times> 8 word list \<times> int) option" where
  "ssfs_fread st fileID buf_given len =
     (let f = open_file_table st ! nat fileID in
      if name (entry f) = [] then Some (st, [], -1)
      else if \<not> buf_given \<or> len = 0 then Some (st, [], 0)
      else
        let inn = fd_inn st fileID;
            cb = sint (block (read_pointer f));
            cc = sint (c_ptr (read_pointer f))
        in if cc < 0 then None
           else
             (case get_last_file_block st inn of
                None \<Rightarrow> None
              | Some lb \<Rightarrow>
                  (case get_end_char st inn of
                     None \<Rightarrow> None
                   | Some lc \<Rightarrow>
                       (case fread_fill inn len lb lc st cb cc [] 0 of
                          None \<Rightarrow> None
                        | Some (cb1, cc1, out, buf_pos) \<Rightarrow>
                            Some (fd_upd st (nat fileID)
                                    (\<lambda>f. f\<lparr>read_pointer := \<lparr>block = word_of_int cb1,
                                                            c_ptr = word_of_int cc1\<rparr>\<rparr>),
                                  out, buf_pos)))))"

section \<open>Shadowing\<close>

definition copy_block :: "state \<Rightarrow> int \<Rightarrow> int \<Rightarrow> state option" where
  "copy_block st blk_src blk_dst =
     (case read_data_block (disk st) blk_src of
        None \<Rightarrow> None
      | Some data_block \<Rightarrow> Some (st\<lparr>disk := write_blocks (disk st) blk_dst (Bytes data_block)\<rparr>))"

text \<open>The two copying loops of \<open>copy_file\<close>, over the pairs of a source pointer and the
  pointer found at the same index of the copy:
  \<open>for(...) { if(!src[i]) return 0; blk = get_free_block(); if(blk < 0) return -1;
  copy_block(src[i], dst[i]); }\<close>.  The second component is the value returned from
  inside the loop, if any.\<close>
fun copy_blocks :: "state \<Rightarrow> (ptr_t \<times> ptr_t) list \<Rightarrow> (state \<times> int option) option" where
  "copy_blocks st [] = Some (st, None)"
| "copy_blocks st ((p, q) # rest) =
     (if p = 0 then Some (st, Some 0)
      else case get_free_block (file_system st) of (fs1, blk) \<Rightarrow>
        if blk < 0 then Some (st\<lparr>file_system := fs1\<rparr>, Some (-1))
        else (case copy_block (st\<lparr>file_system := fs1\<rparr>) (sint p) (sint q) of
                None \<Rightarrow> None
              | Some st2 \<Rightarrow> copy_blocks st2 rest))"

definition copy_file :: "state \<Rightarrow> nat \<Rightarrow> nat \<Rightarrow> (state \<times> int) option" where
  "copy_file st inn_orig inn_copy =
     (let fs = file_system st;
          fs1 = node_upd fs inn_copy ((node_of fs inn_copy)\<lparr>size_n := size_n (node_of fs inn_orig)\<rparr>);
          st1 = st\<lparr>file_system := fs1\<rparr>;
          n_orig = node_of fs1 inn_orig;
          n_copy = node_of fs1 inn_copy
      in case copy_block st1 (sint (pointer n_orig ! 0)) (sint (pointer n_copy ! 0)) of
           None \<Rightarrow> None
         | Some st2 \<Rightarrow>
             (case copy_blocks st2 (zip (drop 1 (pointer n_orig)) (drop 1 (pointer n_copy))) of
                None \<Rightarrow> None
              | Some (st3, Some r) \<Rightarrow> Some (st3, r)
              | Some (st3, None) \<Rightarrow>
                  if ind_pointer n_orig = 0 then Some (st3, 0)
                  else
                    (case read_ind_node_block (disk st3) (sint (ind_pointer n_orig)) of
                       None \<Rightarrow> None
                     | Some ind_node_block_orig \<Rightarrow>
                         (case get_free_block (file_system st3) of (fs4, blk) \<Rightarrow>
                            if blk < 0 then Some (st3\<lparr>file_system := fs4\<rparr>, -1)
                            else
                              let st4 = st3\<lparr>file_system :=
                                              node_upd fs4 inn_copy
                                                ((node_of fs4 inn_copy)\<lparr>ind_pointer := word_of_int blk\<rparr>)\<rparr>
                              in (case copy_blocks st4 (zip ind_node_block_orig init_ind_node_block) of
                                    None \<Rightarrow> None
                                  | Some (st5, Some r) \<Rightarrow> Some (st5, r)
                                  | Some (st5, None) \<Rightarrow> Some (st5, 0))))))"

text \<open>The loop of \<open>free_shadow_directory\<close> over the entries \<open>is\<close>.\<close>
fun free_entries :: "nat \<Rightarrow> state \<Rightarrow> nat list \<Rightarrow> state option" where
  "free_entries shadow st [] = Some st"
| "free_entries shadow st (i # is) =
     (if name (directory (file_system st) ! shadow ! i) \<noteq> [] then
        (case rm_file_from_disk shadow i st of
           None \<Rightarrow> None
         | Some fs1 \<Rightarrow> free_entries shadow (st\<lparr>file_system := clear_entry fs1 shadow i\<rparr>) is)
      else free_entries shadow st is)"

definition free_shadow_directory :: "state \<Rightarrow> nat \<Rightarrow> state option" where
  "free_shadow_directory st shadow =
     map_option dump_file_system_to_disk (free_entries shadow st [0 ..< MAX_FILES])"

text \<open>The loop of \<open>restore_shadow_directory\<close> over the entries \<open>is\<close>: the state and
  whether the loop returned -1 through the label \<open>FAILED\<close>.\<close>
fun restore_entries :: "nat \<Rightarrow> state \<Rightarrow> nat list \<Rightarrow> (state \<times> bool) option" where
  "restore_entries shadow st [] = Some (st, False)"
| "restore_entries shadow st (i # is) =
     (let ent = directory (file_system st) ! shadow ! i in
      if name ent \<noteq> [] then
        (case add_file_to_dir st (name ent) 0 0 of (st1, e, i_block_copy, i_node_copy) \<Rightarrow>
           if e < 0 then
             (case rm_file_from_dir st1 (name ent) of
                None \<Rightarrow> None
              | Some (st2, r) \<Rightarrow> Some (st2, True))
           else
             let inn_orig = unat (i_node_number (directory (file_system st1) ! shadow ! i));
                 inn_copy = unat (i_node_number (directory (file_system st1) ! 0 ! nat e))
             in (case copy_file st1 inn_orig inn_copy of
                   None \<Rightarrow> None
                 | Some (st2, err) \<Rightarrow>
                     if err < 0 then
                       (case rm_file_from_dir st2 (name (directory (file_system st2) ! shadow ! i)) of
                          None \<Rightarrow> None
                        | Some (st3, r) \<Rightarrow> Some (st3, True))
                     else restore_entries shadow st2 is))
      else restore_entries shadow st is)"

text \<open>\<open>restore_shadow_directory\<close>: the state and the returned value; the function ends
  without a \<open>return\<close> on success, and the value is then \<open>None\<close>.\<close>
definition restore_shadow_directory :: "state \<Rightarrow> int \<Rightarrow> (state \<times> int option) option" where
  "restore_shadow_directory st shadow =
     (if shadow \<le> 0 \<or> shadow \<ge> int MAX_DIRS_INCL_SHAD then Some (st, Some (-1))
      else case restore_entries (nat shadow) st [0 ..< MAX_FILES] of
             None \<Rightarrow> None
           | Some (st1, True) \<Rightarrow> Some (st1, Some (-1))
           | Some (st1, False) \<Rightarrow> Some (dump_file_system_to_disk st1, None))"

text \<open>The rotation \<open>for(i = MAX_DIRS_INCL_SHAD-1; i > 0; i--) directory[i] = directory[i-1]\<close>.\<close>
definition rotate_dirs :: "s_dir list \<Rightarrow> s_dir list" where
  "rotate_dirs ds = fold (\<lambda>i ds. ds[i := ds ! (i - 1)]) (rev [1 ..< MAX_DIRS_INCL_SHAD]) ds"

definition zero_dir0 :: "state \<Rightarrow> state" where
  "zero_dir0 st = st\<lparr>file_system := (file_system st)\<lparr>directory := (directory (file_system st))[0 := init_dir]\<rparr>\<rparr>"

definition ssfs_commit :: "state \<Rightarrow> (state \<times> int) option" where
  "ssfs_commit st =
     (case free_shadow_directory st (MAX_DIRS_INCL_SHAD - 1) of
        None \<Rightarrow> None
      | Some st1 \<Rightarrow>
          let st2 = st1\<lparr>file_system :=
                         (file_system st1)\<lparr>directory := rotate_dirs (directory (file_system st1))\<rparr>\<rparr>;
              st3 = zero_dir0 st2
          in (case restore_shadow_directory st3 1 of
                None \<Rightarrow> None
              | Some (st4, r) \<Rightarrow> Some (dump_file_system_to_disk st4, 0)))"

text \<open>\<open>ssfs_restore\<close>: the state and the returned value; the function ends without a
  \<open>return\<close> after restoring, and the value is then \<open>None\<close>.\<close>
definition ssfs_restore :: "state \<Rightarrow> int \<Rightarrow> (state \<times> int option) option" where
  "ssfs_restore st cnum =
     (if cnum = 0 then Some (st, Some 0)
      else if cnum < 0 \<or> cnum \<ge> int MAX_DIRS_INCL_SHAD then Some (st, Some (-1))
      else case free_shadow_directory st 0 of
             None \<Rightarrow> None
           | Some st1 \<Rightarrow>
               (case restore_shadow_directory (zero_dir0 st1) cnum of
                  None \<Rightarrow> None
                | Some (st2, r) \<Rightarrow> Some (dump_file_system_to_disk st2, None)))"

section \<open>Directory enumeration and file size\<close>

text \<open>The \<open>while(1)\<close> loop of \<open>ssfs_get_next_file_name\<close> from the index \<open>g\<close>: the name copied
  to \<open>fname\<close>, if any, and the new index.  An index beyond the directory, which the
  loop would read out of bounds, is \<open>None\<close>.\<close>
function gnfn_loop :: "s_dir \<Rightarrow> nat \<Rightarrow> (string option \<times> nat) option" where
  "gnfn_loop dir g =
     (if MAX_FILES \<le> g then None
      else if name (dir ! g) \<noteq> [] then Some (Some (name (dir ! g)), g + 1)
      else if g + 1 = MAX_FILES then Some (None, 0)
      else gnfn_loop dir (g + 1))"
  by pat_completeness auto
termination
  by (relation "measure (\<lambda>(dir, g). MAX_FILES - g)") auto

declare gnfn_loop.simps [simp del]

definition ssfs_get_next_file_name :: "state \<Rightarrow> (state \<times> string option \<times> int) option" where
  "ssfs_get_next_file_name st =
     (if gnfni st = MAX_FILES then Some (st\<lparr>gnfni := 0\<rparr>, None, 0)
      else case gnfn_loop (dir0 st) (gnfni st) of
             None \<Rightarrow> None
           | Some (out, g) \<Rightarrow> Some (st\<lparr>gnfni := g\<rparr>, out, 0))"

definition ssfs_get_file_size :: "state \<Rightarrow> string \<Rightarrow> int" where
  "ssfs_get_file_size st path =
     (case first_index (\<lambda>i. strncmp (name (dir0 st ! i)) path MAX_NAME_LENGTH = 0) 0 MAX_FILES of
        Some i \<Rightarrow> size_n (node_of (file_system st) (unat (i_node_number (dir0 st ! i))))
      | None \<Rightarrow> -1)"

section \<open>Example states\<close>

text \<open>A file system whose free bit map has the single bit 1017 set: the block
  \<open>NUMBER_OF_BLOCKS - 2 - MAX_DIRS_INCL_SHAD\<close> of the last shadow directory.\<close>
definition fs_only_1017 :: s_file_system where
  "fs_only_1017 = init_file_system\<lparr>free_bit_map := (replicate 128 0)[127 := 2]\<rparr>"

text \<open>A freshly formatted system in which descriptor 0 holds the name \<open>a\<close> while the
  live directory has no entry of that name, as when the live directory has been
  replaced by an empty snapshot under an open descriptor.\<close>
definition st_stale_fd :: state where
  "st_stale_fd = mkssfs_fresh\<lparr>open_file_table :=
     init_open_file_table[0 := \<lparr>entry = \<lparr>name = ''a'', i_node_number = 5\<rparr>,
                                read_pointer = \<lparr>block = 14, c_ptr = 0\<rparr>,
                                write_pointer = \<lparr>block = 14, c_ptr = 0\<rparr>\<rparr>]\<rparr>"

text \<open>The state that \<open>ssfs_fopen("a")\<close> followed by \<open>ssfs_fwrite(fd, "hello", 5)\<close> reaches
  from a freshly formatted system: the file \<open>a\<close> has the i-node 5, the block 14 and
  the size 5, and is open at descriptor 0.\<close>
definition st_file_a :: state where
  "st_file_a =
     \<lparr>file_system =
        (set_node (init_file_system\<lparr>free_bit_map := clr_bit_map (free_bit_map init_file_system) 14\<rparr>) 0 5
           \<lparr>size_n = 5, pointer = (replicate 14 0)[0 := 14], ind_pointer = 0\<rparr>)
          \<lparr>directory := (replicate 5 init_dir)[0 := init_dir[0 := \<lparr>name = ''a'', i_node_number = 5\<rparr>]]\<rparr>,
      open_file_table =
        init_open_file_table[0 := \<lparr>entry = \<lparr>name = ''a'', i_node_number = 5\<rparr>,
                                   read_pointer = \<lparr>block = 14, c_ptr = 0\<rparr>,
                                   write_pointer = \<lparr>block = 14, c_ptr = 5\<rparr>\<rparr>],
      disk = (write_meta (disk mkssfs_fresh) 1 13)(14 := Bytes ([104, 101, 108, 108, 111] @ replicate 1019 0)),
      gnfni = 0\<rparr>"

text \<open>The state that \<open>ssfs_fwseek(fd, 2)\<close> reaches from \<open>st_file_a\<close>: the write cursor of
  descriptor 0 is at byte 2 of block 14.\<close>
definition st_file_a_seek :: state where
  "st_file_a_seek = fd_upd st_file_a 0 (\<lambda>f. f\<lparr>write_pointer := \<lparr>block = 14, c_ptr = 2\<rparr>\<rparr>)"

text \<open>The i-node that formatting gives the directory slot \<open>i\<close>.\<close>
definition dir_node :: "nat \<Rightarrow> s_node" where
  "dir_node i = \<lparr>size_n = 0, pointer = (replicate 14 0)[0 := of_nat (1021 - i)], ind_pointer = 0\<rparr>"

text \<open>Two names of more than \<open>MAX_NAME_LENGTH\<close> characters that agree on their first 20.\<close>
definition long_name_1 :: string where "long_name_1 = ''abcdefghijklmnopqrstUVW''"

definition long_name_2 :: string where "long_name_2 = ''abcdefghijklmnopqrstXY''"

text \<open>The state that \<open>ssfs_fopen("a")\<close> followed by one \<open>ssfs_fwrite\<close> of 276480 bytes of
  value 7 reaches from a freshly formatted system: the file \<open>a\<close> fills its 14 direct
  pointers (blocks 14 to 27) and the 256 pointers of its indirect block 29 (blocks
  28 and 30 to 284), the largest file there is.\<close>
definition st_full :: state where
  "st_full =
     \<lparr>file_system =
        (set_node (init_file_system\<lparr>free_bit_map :=
                     fold (\<lambda>i m. clr_bit_map m i) [14 ..< 285] (free_bit_map init_file_system)\<rparr>) 0 5
           \<lparr>size_n = 276480, pointer = map of_nat [14 ..< 28], ind_pointer = 29\<rparr>)
          \<lparr>directory := (replicate 5 init_dir)[0 := init_dir[0 := \<lparr>name = ''a'', i_node_number = 5\<rparr>]]\<rparr>,
      open_file_table =
        init_open_file_table[0 := \<lparr>entry = \<lparr>name = ''a'', i_node_number = 5\<rparr>,
                                   read_pointer = \<lparr>block = 14, c_ptr = 0\<rparr>,
                                   write_pointer = \<lparr>block = 284, c_ptr = 1024\<rparr>\<rparr>],
      disk = (\<lambda>b. if b = 29 then Bytes (ind_to_bytes (map (\<lambda>i. of_nat (if i = 0 then 28 else 29 + i)) [0 ..< 256]))
                  else if 14 \<le> b \<and> b < 285 then Bytes (replicate 1024 7)
                  else write_meta (disk mkssfs_fresh) 1 13 b),
      gnfni = 0\<rparr>"

text \<open>The state that \<open>ssfs_fopen("a")\<close>, one \<open>ssfs_fwrite\<close> of 1034 bytes (1024 of value 7,
  then 10 of value 8) and \<open>ssfs_fclose\<close> reach from a freshly formatted system: the
  file \<open>a\<close> has the i-node 5 and the two blocks 14 and 15.\<close>
definition st_two :: state where
  "st_two =
     \<lparr>file_system =
        (set_node (init_file_system\<lparr>free_bit_map :=
                     fold (\<lambda>i m. clr_bit_map m i) [14 ..< 16] (free_bit_map init_file_system)\<rparr>) 0 5
           \<lparr>size_n = 1034, pointer = [14, 15, 0, 0, 0, 0, 0, 0, 0, 0, 0, 0, 0, 0], ind_pointer = 0\<rparr>)
          \<lparr>directory := (replicate 5 init_dir)[0 := init_dir[0 := \<lparr>name = ''a'', i_node_number = 5\<rparr>]]\<rparr>,
      open_file_table = init_open_file_table,
      disk = (disk mkssfs_fresh)
               (14 := Bytes (replicate 1024 7), 15 := Bytes (replicate 10 8 @ replicate 1014 0)),
      gnfni = 0\<rparr>"

text \<open>The i-node file has its \<open>BLOCKS_I_NODE_FILE\<close> blocks of \<open>MAX_NODE_IN_BLOCK\<close> i-nodes.\<close>
definition inodes_ok :: "s_file_system \<Rightarrow> bool" where
  "inodes_ok fs \<longleftrightarrow> length (i_node_file fs) = BLOCKS_I_NODE_FILE
     \<and> list_all (\<lambda>b. length b = MAX_NODE_IN_BLOCK) (i_node_file fs)"

section \<open>Well-formed files\<close>

text \<open>The blocks of a file in the order of the file, as the walkers of the source find
  them: the direct pointers up to the first 0 and, when all 14 are in use and there
  is an indirect block, the pointers of the indirect block up to the first 0.\<close>
definition chain_of :: "ptr_t list \<Rightarrow> ptr_t \<Rightarrow> s_ind_node_block \<Rightarrow> ptr_t list" where
  "chain_of ps ind ib =
     (let d = takeWhile (\<lambda>p. p \<noteq> 0) ps in
      if length d = length ps \<and> ind \<noteq> 0 then d @ takeWhile (\<lambda>p. p \<noteq> 0) ib else d)"

text \<open>The indirect block of an i-node as it is read from the disk.\<close>
definition ind_block_of :: "state \<Rightarrow> s_node \<Rightarrow> s_ind_node_block" where
  "ind_block_of st node =
     (case read_ind_node_block (disk st) (sint (ind_pointer node)) of Some ib \<Rightarrow> ib | None \<Rightarrow> [])"

definition file_chain :: "state \<Rightarrow> nat \<Rightarrow> ptr_t list" where
  "file_chain st inn =
     (let node = node_of (file_system st) inn
      in chain_of (pointer node) (ind_pointer node) (ind_block_of st node))"

text \<open>A well-formed file: the i-node lies in the i-node file and has a size that is not
  negative, the file has at least one block, no block occurs twice among the blocks
  of the file, the indirect block is none of them, and the indirect block and the
  blocks of the file can be read from the disk as bytes.\<close>
definition file_ok :: "state \<Rightarrow> nat \<Rightarrow> bool" where
  "file_ok st inn \<longleftrightarrow>
     (let node = node_of (file_system st) inn; chain = file_chain st inn in
      inodes_ok (file_system st) \<and> inn < BLOCKS_I_NODE_FILE * MAX_NODE_IN_BLOCK \<and>
      length (pointer node) = NUMBER_OF_POINTERS \<and>
      0 \<le> size_n node \<and>
      chain \<noteq> [] \<and> distinct chain \<and> ind_pointer node \<notin> set chain \<and>
      (list_all (\<lambda>p. p \<noteq> 0) (pointer node) \<and> ind_pointer node \<noteq> 0 \<longrightarrow>
         read_ind_node_block (disk st) (sint (ind_pointer node)) \<noteq> None) \<and>
      list_all (\<lambda>p. read_data_block (disk st) (sint p) \<noteq> None) chain)"

text \<open>The end-of-file position \<open>(last_block, end_byte)\<close> of a file, and a cursor
  \<open>(block, c_ptr)\<close> at the \<open>k\<close>-th block of the file, are counted in bytes from the start
  of the file: \<open>k * NUMBER_OF_BYTES_BLOCK + c_ptr\<close>.\<close>
definition eof_pos :: "state \<Rightarrow> nat \<Rightarrow> int" where
  "eof_pos st inn =
     (int (length (file_chain st inn)) - 1) * int NUMBER_OF_BYTES_BLOCK
       + (case get_end_char st inn of Some lc \<Rightarrow> lc | None \<Rightarrow> 0)"

section \<open>Properties of the search loop and of the bit maps\<close>

lemma all_from_split:
  "(\<forall>j. (i::nat) \<le> j \<and> j < n \<longrightarrow> Q j) \<longleftrightarrow> (i < n \<longrightarrow> Q i) \<and> (\<forall>j. i + 1 \<le> j \<and> j < n \<longrightarrow> Q j)"
proof -
  have "\<And>j::nat. i \<le> j \<longleftrightarrow> j = i \<or> i + 1 \<le> j" by auto
  then show ?thesis by auto
qed

lemma first_index_None: "first_index P i n = None \<longleftrightarrow> (\<forall>j. i \<le> j \<and> j < n \<longrightarrow> \<not> P j)"
proof (induction P i n rule: first_index.induct)
  case (1 P i n)
  show ?case
    apply (subst first_index.simps)
    apply (subst all_from_split)
    using "1.IH" by auto
qed

lemma first_index_Some:
  "first_index P i n = Some k \<longleftrightarrow> i \<le> k \<and> k < n \<and> P k \<and> (\<forall>j. i \<le> j \<and> j < k \<longrightarrow> \<not> P j)"
proof (induction P i n rule: first_index.induct)
  case (1 P i n)
  have ik: "i \<le> k \<longleftrightarrow> k = i \<or> i + 1 \<le> k" by auto
  show ?case
    apply (subst first_index.simps)
    apply (subst all_from_split)
    using "1.IH" ik by auto
qed

lemma first_index_cong:
  assumes "\<And>j. i \<le> j \<Longrightarrow> j < n \<Longrightarrow> P j = Q j"
  shows "first_index P i n = first_index Q i n"
proof (cases "first_index Q i n")
  case None
  then have "first_index P i n = None" using assms by (simp add: first_index_None)
  with None show ?thesis by simp
next
  case (Some k)
  then have "first_index P i n = Some k" using assms by (simp add: first_index_Some)
  with Some show ?thesis by simp
qed


lemma first_index_SomeI:
  "i \<le> k \<Longrightarrow> k < n \<Longrightarrow> P k \<Longrightarrow> (\<And>j. i \<le> j \<Longrightarrow> j < k \<Longrightarrow> \<not> P j) \<Longrightarrow> first_index P i n = Some k"
  by (simp add: first_index_Some)

lemma first_index_exists:
  "i \<le> k \<Longrightarrow> k < n \<Longrightarrow> P k \<Longrightarrow> \<exists>j. first_index P i n = Some j \<and> i \<le> j \<and> j \<le> k \<and> P j \<and> (\<forall>j'. i \<le> j' \<and> j' < j \<longrightarrow> \<not> P j')"
proof (cases "first_index P i n")
  case None
  assume "i \<le> k" "k < n" "P k"
  with None show ?thesis by (auto simp: first_index_None)
next
  case (Some j)
  assume a: "i \<le> k" "k < n" "P k"
  from Some have j: "i \<le> j" "j < n" "P j" "\<forall>j'. i \<le> j' \<and> j' < j \<longrightarrow> \<not> P j'"
    by (simp_all add: first_index_Some)
  have "j \<le> k"
  proof (rule ccontr)
    assume "\<not> j \<le> k"
    then have "k < j" by simp
    with j(4) a show False by blast
  qed
  with Some j show ?thesis by blast
qed

lemma get_bit_eq: "get_bit w i = (if bit w i then 1 else 0)"
  unfolding get_bit_def
  by (simp add: and_one_eq bit_iff_odd_drop_bit mod_2_eq_odd)

lemma get_bit_clr_bit: "j < 8 \<Longrightarrow> get_bit (clr_bit w i) j = (if i = j then 0 else get_bit w j)"
  unfolding get_bit_eq clr_bit_def
  by (auto simp add: bit_simps)

lemma get_bit_set_bit: "j < 8 \<Longrightarrow> get_bit (set_bit_c w i) j = (if i = j then 1 else get_bit w j)"
  unfolding get_bit_eq set_bit_c_def
  by (auto simp add: bit_simps)

lemma div_mod_8_neq: "(b::nat) \<noteq> b' \<Longrightarrow> b div 8 = b' div 8 \<Longrightarrow> b mod 8 \<noteq> b' mod 8"
  by (metis div_mult_mod_eq)

lemma get_bit_map_clr_bit_map:
  "b div 8 < length m \<Longrightarrow>
   get_bit_map (clr_bit_map m b) b' = (if b = b' then 0 else get_bit_map m b')"
  unfolding get_bit_map_def clr_bit_map_def
  by (auto simp: nth_list_update get_bit_clr_bit dest: div_mod_8_neq)

lemma get_bit_map_set_bit_map:
  "b div 8 < length m \<Longrightarrow>
   get_bit_map (set_bit_map m b) b' = (if b = b' then 1 else get_bit_map m b')"
  unfolding get_bit_map_def set_bit_map_def
  by (auto simp: nth_list_update get_bit_set_bit dest: div_mod_8_neq)

lemma get_bit_map_01: "get_bit_map m b = 0 \<or> get_bit_map m b = 1"
  by (simp add: get_bit_map_def get_bit_eq)

lemma length_clr_bit_map [simp]: "length (clr_bit_map m b) = length m"
  by (simp add: clr_bit_map_def)

lemma length_set_bit_map [simp]: "length (set_bit_map m b) = length m"
  by (simp add: set_bit_map_def)


lemma get_bit_map_fold_clr:
  "length m = 128 \<Longrightarrow> \<forall>i \<in> set is. i < 1024 \<Longrightarrow>
   get_bit_map (fold (\<lambda>i m. clr_bit_map m i) is m) b = (if b \<in> set is then 0 else get_bit_map m b)"
proof (induction "is" arbitrary: m)
  case Nil
  then show ?case by simp
next
  case (Cons a "is")
  have a: "a div 8 < length m" using Cons.prems by (auto simp: div_less_iff_less_mult)
  show ?case using Cons.IH [of "clr_bit_map m a"] Cons.prems a
    by (simp add: get_bit_map_clr_bit_map)
qed

lemma free_bit_map_fold_clr_both:
  "free_bit_map (fold clr_both is fs) = fold (\<lambda>i m. clr_bit_map m i) is (free_bit_map fs)"
  by (induction "is" arbitrary: fs) (simp_all add: clr_both_def)

lemma free_bit_map_fold_set_node:
  "free_bit_map (fold (\<lambda>i fs. set_node fs a i (f fs i)) is fs) = free_bit_map fs"
  by (induction "is" arbitrary: fs) (simp_all add: set_node_def)

lemma free_bit_map_init:
  "free_bit_map init_file_system
   = fold (\<lambda>i m. clr_bit_map m i) (rev [1016 ..< 1024]) (fold (\<lambda>i m. clr_bit_map m i) [0 ..< 14] init_map)"
  unfolding init_file_system_def Let_def
  by (simp add: free_bit_map_fold_clr_both free_bit_map_fold_set_node del: upt_rec_numeral)

lemma get_bit_ff: "k < 8 \<Longrightarrow> get_bit 0xff k = 1"
proof -
  assume k: "k < 8"
  have "bit (- 1 :: 8 word) k" using k by (simp add: bit_simps)
  moreover have "(- 1 :: 8 word) = 0xff" by simp
  ultimately have "bit (0xff :: 8 word) k" by metis
  then show ?thesis by (simp add: get_bit_eq)
qed

lemma get_bit_map_init_map: "b < 1024 \<Longrightarrow> get_bit_map init_map b = 1"
  by (simp add: get_bit_map_def init_map_def get_bit_ff div_less_iff_less_mult)

lemma length_init_map: "length init_map = 128"
  by (simp add: init_map_def)

lemma length_fold_clr: "length (fold (\<lambda>i m. clr_bit_map m i) is m) = length m"
  by (induction "is" arbitrary: m) simp_all

lemma length_free_bit_map_init: "length (free_bit_map init_file_system) = 128"
  by (simp add: free_bit_map_init length_fold_clr length_init_map del: upt_rec_numeral)

lemma get_bit_map_init:
  "b < 1024 \<Longrightarrow>
   get_bit_map (free_bit_map init_file_system) b = (if b < 14 \<or> 1016 \<le> b then 0 else 1)"
  unfolding free_bit_map_init
  apply (subst get_bit_map_fold_clr)
  apply (simp add: length_fold_clr length_init_map del: upt_rec_numeral)
   apply (simp del: upt_rec_numeral)
  apply (subst get_bit_map_fold_clr)
  apply (simp add: length_fold_clr length_init_map del: upt_rec_numeral)
   apply (simp del: upt_rec_numeral)
  apply (auto simp: get_bit_map_init_map simp del: upt_rec_numeral)
  done


subsection \<open>Strings\<close>

lemma strncmp_take_right: "strncmp a (take n b) n = strncmp a b n"
  by (induction a b n rule: strncmp.induct) simp_all

lemma strncmp_take_left: "strncmp (take n a) b n = strncmp a b n"
  by (induction a b n rule: strncmp.induct) simp_all

lemma strncmp_agree_right: "take n b = take n b' \<Longrightarrow> strncmp a b n = strncmp a b' n"
  by (metis strncmp_take_right)

lemma strncmp_agree_left: "take n a = take n a' \<Longrightarrow> strncmp a b n = strncmp a' b n"
  by (metis strncmp_take_left)

lemma strncmp_swap: "strncmp a b n = - strncmp b a n"
  by (induction a b n rule: strncmp.induct) simp_all

lemma strncmp_swap_0: "strncmp a b n = 0 \<longleftrightarrow> strncmp b a n = 0"
  using strncmp_swap [of a b n] by simp

lemma strncmp_numeral [simp]:
  "strncmp [] [] (numeral k) = 0"
  "strncmp [] (y # ys) (numeral k) = - int (of_char y :: nat)"
  "strncmp (x # xs) [] (numeral k) = int (of_char x :: nat)"
  "strncmp (x # xs) (y # ys) (numeral k) =
     (if x = y then strncmp xs ys (pred_numeral k) else int (of_char x :: nat) - int (of_char y :: nat))"
  by (simp_all add: numeral_eq_Suc)

lemma strncmp_nil_0 [simp]: "strncmp [] [] n = 0"
  by (cases n) simp_all

subsection \<open>Flushing and formatting\<close>

lemma dump_fields [simp]:
  "file_system (dump_file_system_to_disk st) = file_system st"
  "open_file_table (dump_file_system_to_disk st) = open_file_table st"
  "gnfni (dump_file_system_to_disk st) = gnfni st"
  "dir0 (dump_file_system_to_disk st) = dir0 st"
  by (simp_all add: dump_file_system_to_disk_def Let_def dir0_def)

lemma directory_fold_clr_both: "directory (fold clr_both is fs) = directory fs"
  by (induction "is" arbitrary: fs) (simp_all add: clr_both_def)

lemma directory_fold_set_node:
  "directory (fold (\<lambda>i fs. set_node fs a i (f fs i)) is fs) = directory fs"
  by (induction "is" arbitrary: fs) (simp_all add: set_node_def)

lemma directory_init: "directory init_file_system = replicate MAX_DIRS_INCL_SHAD init_dir"
  unfolding init_file_system_def Let_def
  by (simp add: directory_fold_clr_both directory_fold_set_node del: upt_rec_numeral)

lemma mkssfs_fresh_fields:
  "file_system mkssfs_fresh = init_file_system"
  "open_file_table mkssfs_fresh = init_open_file_table"
  "gnfni mkssfs_fresh = 0"
  by (simp_all add: mkssfs_fresh_def)

lemma dir0_mkssfs_fresh: "dir0 mkssfs_fresh = init_dir"
  by (simp add: dir0_def mkssfs_fresh_fields directory_init)

lemma i_node_file_clr_both [simp]: "i_node_file (clr_both i fs) = i_node_file fs"
  by (simp add: clr_both_def)

lemma i_node_file_fold_clr_both: "i_node_file (fold clr_both is fs) = i_node_file fs"
  by (induction "is" arbitrary: fs) simp_all

lemma upt_0_5: "[0 ..< 5] = [0, 1, 2, 3, 4 :: nat]"
  by code_simp

lemma i_node_file_init:
  "i_node_file init_file_system
   = (replicate 13 (replicate 16 init_node))
       [0 := (replicate 16 init_node)[0 := dir_node 0, 1 := dir_node 1, 2 := dir_node 2,
                                       3 := dir_node 3, 4 := dir_node 4]]"
  unfolding init_file_system_def Let_def
  by (simp add: i_node_file_fold_clr_both set_node_def get_node_def init_node_file_def
      init_node_block_def dir_node_def init_node_def upt_0_5 list_update_swap)

lemma node_of_init:
  "k < 208 \<Longrightarrow> node_of init_file_system k = (if k < 5 then dir_node k else init_node)"
proof -
  assume k: "k < 208"
  consider "k = 0" | "k = 1" | "k = 2" | "k = 3" | "k = 4" | "5 \<le> k" "k < 16" | "16 \<le> k" by linarith
  then show ?thesis
  proof cases
    case 6
    then show ?thesis
      by (simp add: node_of_def get_node_def node_number_to_block_def node_number_to_node_in_block_def
          i_node_file_init)
  next
    case 7
    then have "k div 16 \<noteq> 0" "k div 16 < 13" "k mod 16 < 16" using k by auto
    with 7 show ?thesis
      by (simp add: node_of_def get_node_def node_number_to_block_def node_number_to_node_in_block_def
          i_node_file_init)
  qed (simp_all add: node_of_def get_node_def node_number_to_block_def node_number_to_node_in_block_def
          i_node_file_init)
qed

lemma get_free_i_node_init: "get_free_i_node init_file_system = Some (0, 5)"
proof -
  have "first_index (\<lambda>k. pointer (node_of init_file_system k) ! 0 = 0) 0 (BLOCKS_I_NODE_FILE * MAX_NODE_IN_BLOCK) = Some 5"
  proof (rule first_index_SomeI)
    fix j :: nat assume "j < 5"
    then consider "j = 0" | "j = 1" | "j = 2" | "j = 3" | "j = 4" by linarith
    then show "pointer (node_of init_file_system j) ! 0 \<noteq> 0"
      by cases (simp_all add: node_of_init dir_node_def)
  qed (simp_all add: node_of_init init_node_def)
  then show ?thesis
    by (simp add: get_free_i_node_def node_number_to_block_def node_number_to_node_in_block_def)
qed

lemma directory_set_node [simp]: "directory (set_node fs a b n) = directory fs"
  by (simp add: set_node_def)

lemma fd_upd_fields [simp]:
  "file_system (fd_upd st i f) = file_system st"
  "disk (fd_upd st i f) = disk st"
  "gnfni (fd_upd st i f) = gnfni st"
  "dir0 (fd_upd st i f) = dir0 st"
  "open_file_table (fd_upd st i f) = (open_file_table st)[i := f (open_file_table st ! i)]"
  by (simp_all add: fd_upd_def dir0_def)

lemma oft_mkssfs_fresh: "i < MAX_FD \<Longrightarrow> open_file_table mkssfs_fresh ! i = init_fd"
  by (simp add: mkssfs_fresh_fields init_open_file_table_def)

lemma free_fd_mkssfs_fresh: "free_fd mkssfs_fresh = Some 0"
  unfolding free_fd_def
  by (rule first_index_SomeI) (simp_all add: oft_mkssfs_fresh init_fd_def init_dir_entry_def)

lemma get_free_block_init:
  "get_free_block init_file_system
     = (init_file_system\<lparr>free_bit_map := clr_bit_map (free_bit_map init_file_system) 14\<rparr>, 14)"
proof -
  have "first_index (\<lambda>i. get_bit_map (free_bit_map init_file_system) i \<noteq> 0)
          FIRST_DATA_BLOCK (LAST_DATA_BLOCK + 1) = Some 14"
    by (simp add: first_index_Some get_bit_map_init)
  then show ?thesis by (simp add: get_free_block_def)
qed

lemma add_file_to_dir_fresh:
  "\<exists>st1. add_file_to_dir mkssfs_fresh nm (-1) (-1) = (st1, 0, 0, 5)"
proof -
  have "first_index (\<lambda>i. name (directory (file_system mkssfs_fresh) ! 0 ! i) = []) 0 MAX_FILES = Some 0"
    by (rule first_index_SomeI)
      (simp_all add: mkssfs_fresh_fields directory_init init_dir_def init_dir_entry_def)
  then show ?thesis
    by (simp add: add_file_to_dir_def mkssfs_fresh_fields get_free_i_node_init get_free_block_init Let_def)
qed

lemma directory_set_both [simp]: "directory (set_both b fs) = directory fs"
  by (simp add: set_both_def)

lemma directory_free_scan [simp]: "directory (free_scan ps fs) = directory fs"
  by (induction ps arbitrary: fs) simp_all

lemma directory_node_upd [simp]: "directory (node_upd fs inn n) = directory fs"
  by (simp add: node_upd_def)

lemma directory_rm_file_from_disk:
  "rm_file_from_disk s e st = Some fs1 \<Longrightarrow> directory fs1 = directory (file_system st)"
  by (auto simp: rm_file_from_disk_def Let_def split: if_splits option.splits disk_block.splits)

lemma of_char_nz: "y \<noteq> CHR 0x00 \<Longrightarrow> (of_char y :: nat) \<noteq> 0"
  by (cases y) auto

lemma length_i_node_file_init:
  "length (i_node_file init_file_system) = 13" "length (i_node_file init_file_system ! 0) = 16"
  by (simp_all add: i_node_file_init)

subsection \<open>Indirect blocks on the disk\<close>

lemma ptr_bytes_roundtrip:
  "ucast (ucast p :: 8 word) OR push_bit 8 (ucast (ucast (drop_bit 8 p) :: 8 word))
     OR push_bit 16 (ucast (ucast (drop_bit 16 p) :: 8 word))
     OR push_bit 24 (ucast (ucast (drop_bit 24 p) :: 8 word)) = (p :: 32 word)"
proof (rule bit_word_eqI)
  fix n assume n: "n < LENGTH(32)"
  consider "n < 8" | "8 \<le> n" "n < 16" | "16 \<le> n" "n < 24" | "24 \<le> n" "n < 32"
    using n by fastforce
  then show "bit (ucast (ucast p :: 8 word) OR push_bit 8 (ucast (ucast (drop_bit 8 p) :: 8 word))
     OR push_bit 16 (ucast (ucast (drop_bit 16 p) :: 8 word))
     OR push_bit 24 (ucast (ucast (drop_bit 24 p) :: 8 word)) :: 32 word) n = bit p n"
    by cases (auto simp: bit_simps)
qed

lemma length_bytes_of_ptr [simp]: "length (bytes_of_ptr p) = 4"
  by (simp add: bytes_of_ptr_def)

lemma length_ind_to_bytes [simp]: "length (ind_to_bytes ps) = 4 * length ps"
  by (induction ps) (simp_all add: ind_to_bytes_def)

lemma ind_to_bytes_nth:
  "i < length ps \<Longrightarrow> k < 4 \<Longrightarrow> ind_to_bytes ps ! (4 * i + k) = bytes_of_ptr (ps ! i) ! k"
proof (induction ps arbitrary: i)
  case Nil
  then show ?case by simp
next
  case (Cons p ps)
  show ?case
  proof (cases i)
    case 0
    with Cons.prems show ?thesis by (simp add: ind_to_bytes_def nth_append)
  next
    case (Suc j)
    with Cons.prems have "ind_to_bytes ps ! (4 * j + k) = bytes_of_ptr (ps ! j) ! k"
      using Cons.IH [of j] by simp
    moreover have "ind_to_bytes (p # ps) ! (4 * Suc j + k) = ind_to_bytes ps ! (4 * j + k)"
      by (simp add: ind_to_bytes_def nth_append)
    ultimately show ?thesis using Suc by simp
  qed
qed

lemma ptr_of_bytes_ind_to_bytes:
  "i < length ps \<Longrightarrow> ptr_of_bytes (ind_to_bytes ps) i = ps ! i"
  using ind_to_bytes_nth [of i ps 0] ind_to_bytes_nth [of i ps 1]
    ind_to_bytes_nth [of i ps 2] ind_to_bytes_nth [of i ps 3]
  by (simp add: ptr_of_bytes_def bytes_of_ptr_def ptr_bytes_roundtrip)

lemma bytes_to_ind_roundtrip:
  "length ps = POINTERS_IND_BLOCK \<Longrightarrow> bytes_to_ind (ind_to_bytes ps) = ps"
  by (rule nth_equalityI) (simp_all add: bytes_to_ind_def ptr_of_bytes_ind_to_bytes)

lemma small_ptr_nonzero: "0 < n \<Longrightarrow> n < 1024 \<Longrightarrow> (of_nat n :: 32 word) \<noteq> 0"
proof
  assume n: "0 < n" "n < 1024" and z: "(of_nat n :: 32 word) = 0"
  have "unat (of_nat n :: 32 word) = n mod 2 ^ 32" by (simp add: unat_of_nat)
  with z have "n mod 2 ^ 32 = 0" by simp
  with n show False by simp
qed

lemma node_of_free_bit_map_update [simp]: "node_of (fs\<lparr>free_bit_map := m\<rparr>) k = node_of fs k"
  by (simp add: node_of_def get_node_def)

subsection \<open>The i-node file\<close>

lemma inodes_okD:
  "inodes_ok fs \<Longrightarrow> length (i_node_file fs) = 13"
  "inodes_ok fs \<Longrightarrow> b < 13 \<Longrightarrow> length (i_node_file fs ! b) = 16"
  by (simp_all add: inodes_ok_def list_all_length)

lemma div_mod_16_eq: "(k::nat) div 16 = c div 16 \<Longrightarrow> k mod 16 = c mod 16 \<Longrightarrow> k = c"
  by (metis div_mult_mod_eq)

lemma node_of_node_upd:
  assumes "inodes_ok fs" "c < 208" "k < 208"
  shows "node_of (node_upd fs c n) k = (if k = c then n else node_of fs k)"
proof -
  have c: "c div 16 < 13" "c mod 16 < 16" and k: "k div 16 < 13" using assms by auto
  show ?thesis
  proof (cases "k = c")
    case True
    then show ?thesis using c inodes_okD [OF assms(1)]
      by (simp add: node_of_def node_upd_def get_node_def set_node_def node_number_to_block_def
          node_number_to_node_in_block_def)
  next
    case False
    then have "k div 16 \<noteq> c div 16 \<or> k mod 16 \<noteq> c mod 16" using div_mod_16_eq by blast
    then show ?thesis using False c k inodes_okD [OF assms(1)]
      by (auto simp add: node_of_def node_upd_def get_node_def set_node_def node_number_to_block_def
          node_number_to_node_in_block_def nth_list_update)
  qed
qed

lemma length_nested_update:
  "k < length xs \<Longrightarrow> length ((xs[i := (xs ! i)[j := n]]) ! k) = length (xs ! k)"
  by (cases "k = i") simp_all

lemma inodes_ok_set_node [simp]: "inodes_ok (set_node fs b j n) = inodes_ok fs"
  by (simp add: inodes_ok_def set_node_def list_all_length length_nested_update)

lemma inodes_ok_node_upd [simp]: "inodes_ok (node_upd fs c n) = inodes_ok fs"
  by (simp add: node_upd_def)

lemma set_node_node_upd: "b < 13 \<Longrightarrow> j < 16 \<Longrightarrow> set_node fs b j n = node_upd fs (b * 16 + j) n"
  by (simp add: node_upd_def node_number_to_block_def node_number_to_node_in_block_def)

lemma get_node_node_of: "b < 13 \<Longrightarrow> j < 16 \<Longrightarrow> get_node fs b j = node_of fs (b * 16 + j)"
  by (simp add: node_of_def node_number_to_block_def node_number_to_node_in_block_def)

lemma inodes_ok_updates [simp]:
  "inodes_ok (fs\<lparr>free_bit_map := m\<rparr>) = inodes_ok fs"
  "inodes_ok (fs\<lparr>write_mask := m\<rparr>) = inodes_ok fs"
  "inodes_ok (fs\<lparr>directory := d\<rparr>) = inodes_ok fs"
  by (simp_all add: inodes_ok_def)

lemma node_of_updates [simp]:
  "node_of (fs\<lparr>write_mask := m\<rparr>) k = node_of fs k"
  "node_of (fs\<lparr>directory := d\<rparr>) k = node_of fs k"
  by (simp_all add: node_of_def get_node_def)

lemma inodes_ok_init: "inodes_ok init_file_system"
  by (simp add: inodes_ok_def i_node_file_init list_all_length nth_list_update)

lemma free_bit_map_node_upd [simp]: "free_bit_map (node_upd fs c n) = free_bit_map fs"
  by (simp add: node_upd_def set_node_def)

subsection \<open>Directory entries, allocation and copying\<close>

lemma free_entries_empty:
  "\<forall>i \<in> set is. name (directory (file_system st) ! s ! i) = [] \<Longrightarrow> free_entries s st is = Some st"
  by (induction "is") simp_all

lemma restore_entries_empty:
  "\<forall>i \<in> set is. name (directory (file_system st) ! s ! i) = [] \<Longrightarrow> restore_entries s st is = Some (st, False)"
  by (induction "is") simp_all

lemma init_dir_nth: "i < MAX_FILES \<Longrightarrow> init_dir ! i = init_dir_entry"
  by (simp add: init_dir_def)

lemma length_init_dir [simp]: "length init_dir = 36"
  by (simp add: init_dir_def)

lemma get_free_block_frame:
  "get_free_block fs = (fs1, blk) \<Longrightarrow> \<exists>m. fs1 = fs\<lparr>free_bit_map := m\<rparr>"
  by (cases "first_index (\<lambda>i. get_bit_map (free_bit_map fs) i \<noteq> 0) FIRST_DATA_BLOCK (LAST_DATA_BLOCK + 1)")
     (auto simp: get_free_block_def intro: exI [of _ "free_bit_map fs"])

lemma get_free_i_node_range:
  "get_free_i_node fs = Some (ib, jb) \<Longrightarrow> ib < 13 \<and> jb < 16 \<and> ib * 16 + jb < 208
     \<and> pointer (node_of fs (ib * 16 + jb)) ! 0 = 0"
  by (auto simp: get_free_i_node_def first_index_Some node_number_to_block_def
      node_number_to_node_in_block_def split: option.splits)

lemma entry_overwrite:
  "(x :: s_dir_entry)\<lparr>name := n, i_node_number := i\<rparr> = \<lparr>name = n, i_node_number = i\<rparr>"
  by (cases x) simp

text \<open>The effect of a successful \<open>add_file_to_dir\<close>.\<close>
lemma add_file_to_dir_effect:
  assumes ei: "first_index (\<lambda>i. name (directory (file_system st) ! 0 ! i) = []) 0 MAX_FILES = Some ei"
    and ij: "get_free_i_node (file_system st) = Some (ib, jb)"
    and gfb: "get_free_block (file_system st) = (fs1, blk)" and blk: "blk \<noteq> -1"
    and ok: "inodes_ok (file_system st)"
  shows "\<exists>st'. add_file_to_dir st nm a b = (st', int ei, int ib, int jb)
    \<and> directory (file_system st')
        = (directory (file_system st))[0 := (directory (file_system st) ! 0)[ei :=
             \<lparr>name = take MAX_NAME_LENGTH nm,
              i_node_number = word_of_int (int jb + int ib * int MAX_NODE_IN_BLOCK)\<rparr>]]
    \<and> (\<forall>k. k < 208 \<longrightarrow> node_of (file_system st') k =
          (if k = ib * 16 + jb
           then (node_of (file_system st) k)
                  \<lparr>size_n := 0, pointer := (pointer (node_of (file_system st) k))[0 := word_of_int blk]\<rparr>
           else node_of (file_system st) k))
    \<and> free_bit_map (file_system st') = free_bit_map fs1
    \<and> inodes_ok (file_system st')
    \<and> (\<forall>b. FIRST_DATA_BLOCK \<le> b \<and> b \<le> LAST_DATA_BLOCK \<longrightarrow> disk st' b = disk st b)
    \<and> open_file_table st' = open_file_table st"
proof -
  from get_free_block_frame [OF gfb] obtain m where fs1: "fs1 = (file_system st)\<lparr>free_bit_map := m\<rparr>"
    by blast
  from get_free_i_node_range [OF ij] have r: "ib < 13" "jb < 16" "ib * 16 + jb < 208" by simp_all
  let ?c = "ib * 16 + jb"
  let ?fs = "file_system st"
  define e where "e = \<lparr>name = take MAX_NAME_LENGTH nm,
              i_node_number = (word_of_int (int jb + int ib * int MAX_NODE_IN_BLOCK) :: 32 word)\<rparr>"
  define fs2 where "fs2 = node_upd fs1 ?c ((node_of fs1 ?c)\<lparr>size_n := 0\<rparr>)"
  define fs3 where "fs3 = fs2\<lparr>directory := (directory fs2)[0 := (directory fs2 ! 0)[ei := e]]\<rparr>"
  define fs4 where "fs4 = node_upd fs3 ?c
                      ((node_of fs3 ?c)\<lparr>pointer := (pointer (node_of fs3 ?c))[0 := word_of_int blk]\<rparr>)"
  define st' where "st' = st\<lparr>file_system := fs4,
      disk := write_meta (write_meta (disk st) (NUMBER_OF_BLOCKS - 2 - 1) 1) (1 + ib) 1\<rparr>"
  have run: "add_file_to_dir st nm a b = (st', int ei, int ib, int jb)"
    using ei ij gfb blk r
    by (simp add: add_file_to_dir_def Let_def st'_def fs4_def fs3_def fs2_def e_def strncpy_c_def
        entry_overwrite set_node_node_upd get_node_node_of)
  have ok1: "inodes_ok fs1" using ok fs1 by simp
  have n2: "node_of fs2 k = (if k = ?c then (node_of ?fs k)\<lparr>size_n := 0\<rparr> else node_of ?fs k)" if "k < 208" for k
    using that r ok1 by (simp add: fs2_def node_of_node_upd fs1)
  have n3: "node_of fs3 k = node_of fs2 k" for k by (simp add: fs3_def)
  have ok3: "inodes_ok fs3" using ok1 by (simp add: fs3_def fs2_def)
  have n4: "node_of fs4 k = (if k = ?c
           then (node_of ?fs k)\<lparr>size_n := 0, pointer := (pointer (node_of ?fs k))[0 := word_of_int blk]\<rparr>
           else node_of ?fs k)" if "k < 208" for k
    using that r ok3 by (simp add: fs4_def node_of_node_upd n3 n2)
  have d4: "directory fs4 = (directory ?fs)[0 := (directory ?fs ! 0)[ei := e]]"
    by (simp add: fs4_def fs3_def fs2_def fs1)
  have f4: "free_bit_map fs4 = free_bit_map fs1"
    by (simp add: fs4_def fs3_def fs2_def node_upd_def set_node_def)
  have ok4: "inodes_ok fs4" using ok3 by (simp add: fs4_def)
  have dk: "disk st' b = disk st b" if "FIRST_DATA_BLOCK \<le> b \<and> b \<le> LAST_DATA_BLOCK" for b
    using that r by (simp add: st'_def write_meta_def)
  show ?thesis
    using run n4 d4 f4 ok4 dk by (intro exI [of _ st']) (simp add: st'_def e_def)
qed

lemma get_free_block_other:
  "free_bit_map fs' = free_bit_map fs \<Longrightarrow> get_free_block fs = (fs1, blk) \<Longrightarrow>
   get_free_block fs' = (fs'\<lparr>free_bit_map := free_bit_map fs1\<rparr>, blk)"
  by (cases "first_index (\<lambda>i. get_bit_map (free_bit_map fs) i \<noteq> 0) FIRST_DATA_BLOCK (LAST_DATA_BLOCK + 1)")
     (auto simp: get_free_block_def)

text \<open>\<open>copy_file\<close> on a source file of two blocks: the size is copied, the first block is
  copied to the first block of the copy, a block is taken from the free bit map for
  the second block and never entered into the i-node of the copy, and the second
  block is copied to whatever block the second pointer of the copy names.\<close>
lemma copy_file_two_blocks:
  assumes ok: "inodes_ok (file_system st)" and oc: "orig < 208" "cpy < 208" "orig \<noteq> cpy"
    and po: "pointer (node_of (file_system st) orig) = p0 # p1 # 0 # prest" and p1: "p1 \<noteq> 0"
    and pc: "pointer (node_of (file_system st) cpy) = q0 # q1 # q2 # qrest"
    and r0: "read_data_block (disk st) (sint p0) = Some d0"
    and r1: "read_data_block (write_blocks (disk st) (sint q0) (Bytes d0)) (sint p1) = Some d1"
    and gfb: "get_free_block (file_system st) = (fs1, blk)" "0 \<le> blk"
  shows "\<exists>st'. copy_file st orig cpy = Some (st', 0)
    \<and> (\<forall>k. k < 208 \<longrightarrow> node_of (file_system st') k =
          (if k = cpy then (node_of (file_system st) cpy)\<lparr>size_n := size_n (node_of (file_system st) orig)\<rparr>
           else node_of (file_system st) k))
    \<and> directory (file_system st') = directory (file_system st)
    \<and> free_bit_map (file_system st') = free_bit_map fs1
    \<and> disk st' = write_blocks (write_blocks (disk st) (sint q0) (Bytes d0)) (sint q1) (Bytes d1)"
proof -
  let ?fs = "file_system st"
  define fsa where "fsa = node_upd ?fs cpy ((node_of ?fs cpy)\<lparr>size_n := size_n (node_of ?fs orig)\<rparr>)"
  have na: "node_of fsa k = (if k = cpy then (node_of ?fs cpy)\<lparr>size_n := size_n (node_of ?fs orig)\<rparr>
           else node_of ?fs k)" if "k < 208" for k
    using that ok oc by (simp add: fsa_def node_of_node_upd)
  have no: "pointer (node_of fsa orig) = p0 # p1 # 0 # prest" using na [of orig] oc po by simp
  have nc: "pointer (node_of fsa cpy) = q0 # q1 # q2 # qrest" using na [of cpy] oc pc by simp
  have io: "ind_pointer (node_of fsa orig) = ind_pointer (node_of ?fs orig)" using na [of orig] oc by simp
  define d1' where "d1' = write_blocks (disk st) (sint q0) (Bytes d0)"
  define st2 where "st2 = st\<lparr>file_system := fsa, disk := d1'\<rparr>"
  have cb0: "copy_block (st\<lparr>file_system := fsa\<rparr>) (sint p0) (sint q0) = Some st2"
    using r0 by (simp add: copy_block_def st2_def d1'_def)
  have g: "get_free_block fsa = (fsa\<lparr>free_bit_map := free_bit_map fs1\<rparr>, blk)"
    by (rule get_free_block_other [OF _ gfb(1)]) (simp add: fsa_def)
  define st3 where "st3 = st2\<lparr>file_system := fsa\<lparr>free_bit_map := free_bit_map fs1\<rparr>,
                              disk := write_blocks d1' (sint q1) (Bytes d1)\<rparr>"
  have cbs: "copy_blocks st2 (zip (drop 1 (p0 # p1 # 0 # prest)) (drop 1 (q0 # q1 # q2 # qrest))) = Some (st3, Some 0)"
    using p1 g gfb(2) r1
    by (simp add: st2_def st3_def copy_block_def d1'_def)
  have run: "copy_file st orig cpy = Some (st3, 0)"
    using cb0 cbs no nc
    by (simp add: copy_file_def Let_def fsa_def [symmetric])
  show ?thesis
    using run na by (intro exI [of _ st3]) (simp add: st3_def st2_def d1'_def fsa_def)
qed


lemma disk_dump_data:
  "FIRST_DATA_BLOCK \<le> b \<Longrightarrow> b \<le> LAST_DATA_BLOCK \<Longrightarrow> disk (dump_file_system_to_disk st) b = disk st b"
proof -
  have u: "[0 ..< MAX_DIRS_INCL_SHAD] = [0, 1, 2, 3, 4]" by code_simp
  show "FIRST_DATA_BLOCK \<le> b \<Longrightarrow> b \<le> LAST_DATA_BLOCK \<Longrightarrow> disk (dump_file_system_to_disk st) b = disk st b"
    unfolding dump_file_system_to_disk_def Let_def u by (simp add: write_meta_def)
qed

lemma replicate_14_update: "(replicate 14 (0::32 word))[0 := x] = x # 0 # 0 # replicate 11 0"
  by (simp add: numeral_eq_Suc)

section \<open>Facts about the example states\<close>

lemma dir0_st_stale_fd: "dir0 st_stale_fd = init_dir"
  using dir0_mkssfs_fresh by (simp add: st_stale_fd_def dir0_def)

lemma oft_st_stale_fd:
  "open_file_table st_stale_fd ! 0 = \<lparr>entry = \<lparr>name = ''a'', i_node_number = 5\<rparr>,
                                read_pointer = \<lparr>block = 14, c_ptr = 0\<rparr>,
                                write_pointer = \<lparr>block = 14, c_ptr = 0\<rparr>\<rparr>"
  "0 < i \<Longrightarrow> i < MAX_FD \<Longrightarrow> open_file_table st_stale_fd ! i = init_fd"
  by (simp_all add: st_stale_fd_def init_open_file_table_def)

lemma free_fd_st_stale_fd: "free_fd st_stale_fd = Some 1"
  unfolding free_fd_def
  by (rule first_index_SomeI) (auto simp: oft_st_stale_fd init_fd_def init_dir_entry_def)

lemma oft_st_file_a:
  "open_file_table st_file_a ! 0 = \<lparr>entry = \<lparr>name = ''a'', i_node_number = 5\<rparr>,
                                   read_pointer = \<lparr>block = 14, c_ptr = 0\<rparr>,
                                   write_pointer = \<lparr>block = 14, c_ptr = 5\<rparr>\<rparr>"
  "0 < i \<Longrightarrow> i < MAX_FD \<Longrightarrow> open_file_table st_file_a ! i = init_fd"
  by (simp_all add: st_file_a_def init_open_file_table_def)

lemma dir0_st_file_a:
  "dir0 st_file_a ! 0 = \<lparr>name = ''a'', i_node_number = 5\<rparr>"
  "0 < i \<Longrightarrow> i < MAX_FILES \<Longrightarrow> dir0 st_file_a ! i = init_dir_entry"
  by (simp_all add: st_file_a_def dir0_def init_dir_def)

lemma node_of_st_file_a:
  "node_of (file_system st_file_a) 5 = \<lparr>size_n = 5, pointer = (replicate 14 0)[0 := 14], ind_pointer = 0\<rparr>"
  by (simp add: st_file_a_def node_of_def get_node_def set_node_def node_number_to_block_def
      node_number_to_node_in_block_def length_i_node_file_init)

lemma shape_st_file_a:
  "0 < length (directory (file_system st_file_a))" "length (dir0 st_file_a) = MAX_FILES"
  "length (open_file_table st_file_a) = MAX_FD"
  by (simp_all add: st_file_a_def dir0_def init_dir_def init_open_file_table_def)

lemma free_bit_map_st_full:
  "b < 1024 \<Longrightarrow> get_bit_map (free_bit_map (file_system st_full)) b = (if b < 285 \<or> 1016 \<le> b then 0 else 1)"
  by (simp add: st_full_def set_node_def get_bit_map_fold_clr length_free_bit_map_init get_bit_map_init
      del: upt_rec_numeral)

lemma length_free_bit_map_st_full: "length (free_bit_map (file_system st_full)) = 128"
  by (simp add: st_full_def set_node_def length_fold_clr length_free_bit_map_init del: upt_rec_numeral)

lemma get_free_block_st_full:
  "get_free_block (file_system st_full)
   = ((file_system st_full)\<lparr>free_bit_map := clr_bit_map (free_bit_map (file_system st_full)) 285\<rparr>, 285)"
proof -
  have "first_index (\<lambda>i. get_bit_map (free_bit_map (file_system st_full)) i \<noteq> 0)
          FIRST_DATA_BLOCK (LAST_DATA_BLOCK + 1) = Some 285"
    by (rule first_index_SomeI) (simp_all add: free_bit_map_st_full)
  then show ?thesis by (simp add: get_free_block_def)
qed

lemma node_of_st_full:
  "node_of (file_system st_full) 5 = \<lparr>size_n = 276480, pointer = map of_nat [14 ..< 28], ind_pointer = 29\<rparr>"
  by (simp add: st_full_def node_of_def get_node_def set_node_def node_number_to_block_def
      node_number_to_node_in_block_def length_i_node_file_init del: upt_rec_numeral)

lemma read_ind_st_full:
  "read_ind_node_block (disk st_full) 29 = Some (map (\<lambda>i. of_nat (if i = 0 then 28 else 29 + i)) [0 ..< 256])"
  by (simp add: read_ind_node_block_def read_data_block_def read_blocks_def st_full_def
      bytes_to_ind_roundtrip del: upt_rec_numeral)

lemma direct_full_st_full:
  "first_index (\<lambda>i. pointer (node_of (file_system st_full) 5) ! i = 0) 0 NUMBER_OF_POINTERS = None"
proof -
  have "(map of_nat [14 ..< 28] :: 32 word list) ! j \<noteq> 0" if "j < 14" for j
  proof -
    have "(map of_nat [14 ..< 28] :: 32 word list) ! j = of_nat (14 + j)"
      using that by (simp del: upt_rec_numeral of_nat_add)
    moreover have "(of_nat (14 + j) :: 32 word) \<noteq> 0"
      using that by (intro small_ptr_nonzero) simp_all
    ultimately show ?thesis by simp
  qed
  then show ?thesis by (simp add: first_index_None node_of_st_full del: upt_rec_numeral)
qed

lemma indirect_full_st_full:
  "first_index (\<lambda>i. map (\<lambda>i. of_nat (if i = 0 then 28 else 29 + i) :: 32 word) [0 ..< 256] ! i = 0)
     0 POINTERS_IND_BLOCK = None"
proof -
  have "map (\<lambda>i. of_nat (if i = 0 then 28 else 29 + i) :: 32 word) [0 ..< 256] ! j \<noteq> 0" if "j < 256" for j
  proof -
    have "map (\<lambda>i. of_nat (if i = 0 then 28 else 29 + i) :: 32 word) [0 ..< 256] ! j
          = of_nat (if j = 0 then 28 else 29 + j)"
      using that by (simp del: upt_rec_numeral of_nat_add)
    moreover have "(of_nat (if j = 0 then 28 else 29 + j) :: 32 word) \<noteq> 0"
      using that by (intro small_ptr_nonzero) simp_all
    ultimately show ?thesis by simp
  qed
  then show ?thesis by (simp add: first_index_None del: upt_rec_numeral)
qed

lemma oft_st_full:
  "open_file_table st_full ! 0 = \<lparr>entry = \<lparr>name = ''a'', i_node_number = 5\<rparr>,
                                   read_pointer = \<lparr>block = 14, c_ptr = 0\<rparr>,
                                   write_pointer = \<lparr>block = 284, c_ptr = 1024\<rparr>\<rparr>"
  by (simp add: st_full_def init_open_file_table_def)

lemma directory_st_two:
  "directory (file_system st_two) = (replicate 5 init_dir)[0 := init_dir[0 := \<lparr>name = ''a'', i_node_number = 5\<rparr>]]"
  by (simp add: st_two_def)

lemma free_shadow_st_two: "free_shadow_directory st_two 4 = Some (dump_file_system_to_disk st_two)"
proof -
  have "free_entries 4 st_two [0 ..< MAX_FILES] = Some st_two"
    by (rule free_entries_empty) (simp add: directory_st_two init_dir_nth init_dir_entry_def del: upt_rec_numeral)
  then show ?thesis by (simp add: free_shadow_directory_def)
qed

lemma rotate_st_two:
  "rotate_dirs ((replicate 5 init_dir)[0 := d]) = (replicate 5 init_dir)[0 := d, 1 := d]"
proof -
  let ?ds = "(replicate 5 init_dir)[0 := d]"
  have r: "rev [1 ..< MAX_DIRS_INCL_SHAD] = [4, 3, 2, 1]" by code_simp
  have "rotate_dirs ?ds = ?ds[4 := init_dir, 3 := init_dir, 2 := init_dir, 1 := d]"
    unfolding rotate_dirs_def r by simp
  also have "\<dots> = (replicate 5 init_dir)[0 := d, 1 := d]"
  proof (rule nth_equalityI)
    fix i assume "i < length (?ds[4 := init_dir, 3 := init_dir, 2 := init_dir, 1 := d])"
    then have "i < 5" by simp
    then consider "i = 0" | "i = 1" | "i = 2" | "i = 3" | "i = 4" by linarith
    then show "?ds[4 := init_dir, 3 := init_dir, 2 := init_dir, 1 := d] ! i
               = (replicate 5 init_dir)[0 := d, 1 := d] ! i"
      by cases simp_all
  qed simp
  finally show ?thesis .
qed

lemma inodes_ok_st_two: "inodes_ok (file_system st_two)"
  by (simp add: st_two_def inodes_ok_init)

lemma node_of_st_two:
  "k < 208 \<Longrightarrow> node_of (file_system st_two) k =
     (if k = 5 then \<lparr>size_n = 1034, pointer = [14, 15, 0, 0, 0, 0, 0, 0, 0, 0, 0, 0, 0, 0], ind_pointer = 0\<rparr>
      else if k < 5 then dir_node k else init_node)"
  using node_of_node_upd [of "init_file_system\<lparr>free_bit_map :=
                     fold (\<lambda>i m. clr_bit_map m i) [14 ..< 16] (free_bit_map init_file_system)\<rparr>" 5 k]
  by (simp add: st_two_def set_node_node_upd [of 0 5, simplified] inodes_ok_init node_of_init
      del: upt_rec_numeral)

lemma free_bit_map_st_two:
  "b < 1024 \<Longrightarrow> get_bit_map (free_bit_map (file_system st_two)) b = (if b < 16 \<or> 1016 \<le> b then 0 else 1)"
  by (simp add: st_two_def set_node_def get_bit_map_fold_clr length_free_bit_map_init get_bit_map_init
      del: upt_rec_numeral)

lemma length_free_bit_map_st_two: "length (free_bit_map (file_system st_two)) = 128"
  by (simp add: st_two_def set_node_def length_fold_clr length_free_bit_map_init del: upt_rec_numeral)

lemma disk_st_two:
  "disk st_two 14 = Bytes (replicate 1024 7)"
  "disk st_two 15 = Bytes (replicate 10 8 @ replicate 1014 0)"
  by (simp_all add: st_two_def)

subsection \<open>The blocks of a well-formed file\<close>

lemma scan_last_takeWhile:
  "scan_last ps l =
     (if takeWhile (\<lambda>p. p \<noteq> 0) ps = [] then l else sint (last (takeWhile (\<lambda>p. p \<noteq> 0) ps)),
      length (takeWhile (\<lambda>p. p \<noteq> 0) ps) \<noteq> length ps)"
  by (induction ps arbitrary: l) auto

lemma scan_num_takeWhile:
  "scan_num ps n = (n + int (length (takeWhile (\<lambda>p. p \<noteq> 0) ps)),
                    length (takeWhile (\<lambda>p. p \<noteq> 0) ps) \<noteq> length ps)"
  by (induction ps arbitrary: n) auto

lemma get_last_file_block_chain:
  assumes "length (takeWhile (\<lambda>p. p \<noteq> 0) (pointer (node_of (file_system st) inn)))
             = length (pointer (node_of (file_system st) inn))
           \<and> ind_pointer (node_of (file_system st) inn) \<noteq> 0
           \<longrightarrow> read_ind_node_block (disk st) (sint (ind_pointer (node_of (file_system st) inn))) \<noteq> None"
  shows "get_last_file_block st inn
         = Some (if file_chain st inn = [] then -1 else sint (last (file_chain st inn)))"
  using assms
  by (auto simp: get_last_file_block_def file_chain_def chain_of_def Let_def scan_last_takeWhile
      ind_block_of_def split: option.splits)

lemma get_num_file_blocks_chain:
  assumes "length (takeWhile (\<lambda>p. p \<noteq> 0) (pointer (node_of (file_system st) inn)))
             = length (pointer (node_of (file_system st) inn))
           \<and> ind_pointer (node_of (file_system st) inn) \<noteq> 0
           \<longrightarrow> read_ind_node_block (disk st) (sint (ind_pointer (node_of (file_system st) inn))) \<noteq> None"
  shows "get_num_file_blocks st inn = Some (int (length (file_chain st inn)))"
  using assms
  by (auto simp: get_num_file_blocks_def file_chain_def chain_of_def Let_def scan_num_takeWhile
      ind_block_of_def split: option.splits)

lemma takeWhile_full_iff: "length (takeWhile P xs) = length xs \<longleftrightarrow> list_all P xs"
  by (induction xs) auto

lemma takeWhile_next:
  "k < length (takeWhile P xs) \<Longrightarrow> Suc k < length xs \<Longrightarrow>
   P (xs ! Suc k) \<longleftrightarrow> Suc k < length (takeWhile P xs)"
proof
  assume "Suc k < length (takeWhile P xs)"
  then show "P (xs ! Suc k)"
    using takeWhile_nth [of "Suc k" P xs] nth_mem [of "Suc k" "takeWhile P xs"] set_takeWhileD [of _ P xs]
    by metis
next
  assume a: "k < length (takeWhile P xs)" "Suc k < length xs" "P (xs ! Suc k)"
  show "Suc k < length (takeWhile P xs)"
  proof (rule ccontr)
    assume "\<not> Suc k < length (takeWhile P xs)"
    then have "length (takeWhile P xs) = Suc k" using a by simp
    then show False using nth_length_takeWhile [of P xs] a by simp
  qed
qed

lemma takeWhile_first:
  "xs \<noteq> [] \<Longrightarrow> P (xs ! 0) \<longleftrightarrow> takeWhile P xs \<noteq> []"
  by (cases xs) auto

lemma length_bytes_to_ind [simp]: "length (bytes_to_ind bs) = 256"
  by (simp add: bytes_to_ind_def)

lemma read_ind_length: "read_ind_node_block d b = Some ib \<Longrightarrow> length ib = 256"
  by (auto simp: read_ind_node_block_def)

lemma word_of_int_sint_eq [simp]: "(word_of_int (sint (p::32 word)) :: 32 word) = q \<longleftrightarrow> p = q"
  by simp

lemma get_next_file_block_chain:
  assumes ok: "file_ok st inn" and k: "k < length (file_chain st inn)"
  shows "get_next_file_block st inn (sint (file_chain st inn ! k))
         = Some (if Suc k < length (file_chain st inn) then sint (file_chain st inn ! Suc k) else -1)"
proof -
  define node where "node = node_of (file_system st) inn"
  define ps where "ps = pointer node"
  define d where "d = takeWhile (\<lambda>p. p \<noteq> 0) ps"
  define chain where "chain = file_chain st inn"
  have len: "length ps = 14" and dist: "distinct chain"
    and rd: "list_all (\<lambda>p. p \<noteq> 0) ps \<and> ind_pointer node \<noteq> 0 \<longrightarrow>
         read_ind_node_block (disk st) (sint (ind_pointer node)) \<noteq> None"
    using ok by (simp_all add: file_ok_def Let_def node_def ps_def chain_def)
  have chain: "chain = (if length d = length ps \<and> ind_pointer node \<noteq> 0
                        then d @ takeWhile (\<lambda>p. p \<noteq> 0) (ind_block_of st node) else d)"
    by (simp add: chain_def file_chain_def chain_of_def Let_def node_def ps_def d_def)
  have dle: "length d \<le> 14" using len length_takeWhile_le [of "\<lambda>p. p \<noteq> 0" ps] by (simp add: d_def)
  have dnth: "\<And>i. i < length d \<Longrightarrow> d ! i = ps ! i" by (simp add: d_def takeWhile_nth)
  have dnz: "ps ! i \<noteq> 0" if "i < length d" for i
  proof -
    have "d ! i \<in> set (takeWhile (\<lambda>p. p \<noteq> 0) ps)" using that by (simp add: d_def)
    then have "d ! i \<noteq> 0" by (rule set_takeWhileD [THEN conjunct2])
    then show ?thesis using dnth [OF that] by simp
  qed
  have dchain: "\<And>i. i < length d \<Longrightarrow> chain ! i = ps ! i \<and> i < length chain"
    by (simp add: chain dnth nth_append)
  have kc: "k < length chain" using k by (simp add: chain_def)
  have gn: "get_next_file_block st inn blk =
      (case first_index (\<lambda>i. ps ! i = word_of_int blk) 0 NUMBER_OF_POINTERS of
        Some i \<Rightarrow>
          if i + 1 < NUMBER_OF_POINTERS then Some (ptr_or_fail (ps ! (i + 1)))
          else if ind_pointer node = 0 then Some (-1)
          else (case read_ind_node_block (disk st) (sint (ind_pointer node)) of
                  None \<Rightarrow> None
                | Some ind_node_block \<Rightarrow> Some (ptr_or_fail (ind_node_block ! 0)))
      | None \<Rightarrow>
          (case read_ind_node_block (disk st) (sint (ind_pointer node)) of
             None \<Rightarrow> None
           | Some ind_node_block \<Rightarrow>
               (case first_index (\<lambda>i. ind_node_block ! i = word_of_int blk) 0 POINTERS_IND_BLOCK of
                  Some i \<Rightarrow>
                    if i + 1 < POINTERS_IND_BLOCK then Some (ptr_or_fail (ind_node_block ! (i + 1)))
                    else Some (-1)
                | None \<Rightarrow> None)))" for blk
    unfolding get_next_file_block_def Let_def node_def ps_def
    by (rule refl)
  show ?thesis
  proof (cases "k < length d")
    case True
    have fi: "first_index (\<lambda>i. ps ! i = word_of_int (sint (chain ! k))) 0 14 = Some k"
    proof (rule first_index_SomeI)
      show "k < 14" using True dle by simp
      show "ps ! k = word_of_int (sint (chain ! k))" using dchain [OF True] by simp
      fix j assume "j < k"
      then have "chain ! j \<noteq> chain ! k" using dist kc by (simp add: nth_eq_iff_index_eq)
      moreover have "chain ! j = ps ! j" using dchain [of j] True \<open>j < k\<close> by simp
      ultimately show "ps ! j \<noteq> word_of_int (sint (chain ! k))" by simp
    qed simp
    show ?thesis
    proof (cases "k + 1 < 14")
      case k13: True
      have nx: "ps ! Suc k \<noteq> 0 \<longleftrightarrow> Suc k < length d"
        using takeWhile_next [of k "\<lambda>p. p \<noteq> 0" ps] True k13 len by (simp add: d_def)
      show ?thesis
      proof (cases "Suc k < length d")
        case s: True
        then show ?thesis using fi k13 nx dchain [OF s]
          by (simp add: gn chain_def [symmetric] ptr_or_fail_def)
      next
        case s: False
        then have "length d = Suc k" using True by simp
        then have "chain = d" using k13 len by (simp add: chain)
        then show ?thesis using fi k13 nx s
          by (simp add: gn chain_def [symmetric] ptr_or_fail_def)
      qed
    next
      case False
      then have k13: "k = 13" and full: "length d = length ps" using True dle len by simp_all
      show ?thesis
      proof (cases "ind_pointer node = 0")
        case True
        then have "chain = d" by (simp add: chain)
        then show ?thesis using fi k13 True full len
          by (simp add: gn chain_def [symmetric])
      next
        case nz: False
        have "list_all (\<lambda>p. p \<noteq> 0) ps" using full by (simp add: d_def takeWhile_full_iff)
        then obtain ib where ib: "read_ind_node_block (disk st) (sint (ind_pointer node)) = Some ib"
          using rd nz by auto
        have ibo: "ind_block_of st node = ib" using ib by (simp add: ind_block_of_def)
        have ibl: "ib \<noteq> []" using read_ind_length [OF ib] by auto
        have c: "chain = d @ takeWhile (\<lambda>p. p \<noteq> 0) ib" using nz full by (simp add: chain ibo)
        have f: "ib ! 0 \<noteq> 0 \<longleftrightarrow> takeWhile (\<lambda>p. p \<noteq> 0) ib \<noteq> []"
          using takeWhile_first [OF ibl, of "\<lambda>p. p \<noteq> 0"] .
        have "length d = 14" using full len by simp
        then show ?thesis using fi k13 nz ib f
          by (auto simp: gn chain_def [symmetric] c ptr_or_fail_def nth_append takeWhile_nth)
      qed
    qed
  next
    case False
    then have full: "length d = length ps" and nz: "ind_pointer node \<noteq> 0"
      using kc by (auto simp: chain split: if_splits)
    have d14: "length d = 14" using full len by simp
    have "list_all (\<lambda>p. p \<noteq> 0) ps" using full by (simp add: d_def takeWhile_full_iff)
    then obtain ib where ib: "read_ind_node_block (disk st) (sint (ind_pointer node)) = Some ib"
      using rd nz by auto
    have ibo: "ind_block_of st node = ib" using ib by (simp add: ind_block_of_def)
    define e where "e = takeWhile (\<lambda>p. p \<noteq> 0) ib"
    have c: "chain = d @ e" using nz full by (simp add: chain ibo e_def)
    define j where "j = k - 14"
    have j: "j < length e" "k = 14 + j" using False kc d14 by (simp_all add: c j_def)
    have ck: "chain ! k = ib ! j" using j d14 by (simp add: c nth_append e_def takeWhile_nth)
    have el: "length e \<le> 256" using length_takeWhile_le [of "\<lambda>p. p \<noteq> 0" ib] read_ind_length [OF ib]
      by (simp add: e_def)
    have f1: "first_index (\<lambda>i. ps ! i = word_of_int (sint (chain ! k))) 0 14 = None"
    proof -
      have "ps ! i \<noteq> chain ! k" if "i < 14" for i
      proof -
        have "chain ! i \<noteq> chain ! k" using dist kc that j by (simp add: nth_eq_iff_index_eq)
        moreover have "chain ! i = ps ! i" using dchain [of i] that d14 by simp
        ultimately show ?thesis by simp
      qed
      then show ?thesis by (simp add: first_index_None)
    qed
    have f2: "first_index (\<lambda>i. ib ! i = word_of_int (sint (chain ! k))) 0 256 = Some j"
    proof (rule first_index_SomeI)
      show "j < 256" using j el by simp
      show "ib ! j = word_of_int (sint (chain ! k))" using ck by simp
      fix i assume "i < j"
      then have "chain ! (14 + i) \<noteq> chain ! k" using dist kc j by (simp add: nth_eq_iff_index_eq)
      moreover have "chain ! (14 + i) = ib ! i" using \<open>i < j\<close> j d14
        by (simp add: c nth_append e_def takeWhile_nth)
      ultimately show "ib ! i \<noteq> word_of_int (sint (chain ! k))" by simp
    qed simp
    show ?thesis
    proof (cases "j + 1 < 256")
      case True
      have nx: "ib ! Suc j \<noteq> 0 \<longleftrightarrow> Suc j < length e"
        using takeWhile_next [of j "\<lambda>p. p \<noteq> 0" ib] True j read_ind_length [OF ib] by (simp add: e_def)
      have "Suc j < length e \<Longrightarrow> chain ! Suc k = ib ! Suc j"
        using j d14 by (simp add: c nth_append e_def takeWhile_nth)
      then show ?thesis using f1 f2 ib True nx j d14
        by (auto simp: gn chain_def [symmetric] ptr_or_fail_def c)
    next
      case False
      then have "Suc j = length e" "length chain = Suc k" using j el d14 by (simp_all add: c)
      then show ?thesis using f1 f2 ib False
        by (simp add: gn chain_def [symmetric])
    qed
  qed
qed

lemma smod_nonneg: "0 \<le> (a::int) \<Longrightarrow> a smod 1024 = a mod 1024"
  by (cases "a = 0") (simp_all add: smod_int_alt_def sgn_if)

lemma file_ok_ind_readable:
  assumes "file_ok st inn"
  shows "length (takeWhile (\<lambda>p. p \<noteq> 0) (pointer (node_of (file_system st) inn)))
             = length (pointer (node_of (file_system st) inn))
           \<and> ind_pointer (node_of (file_system st) inn) \<noteq> 0
           \<longrightarrow> read_ind_node_block (disk st) (sint (ind_pointer (node_of (file_system st) inn))) \<noteq> None"
proof -
  have "list_all (\<lambda>p. p \<noteq> 0) (pointer (node_of (file_system st) inn))
          \<and> ind_pointer (node_of (file_system st) inn) \<noteq> 0
        \<longrightarrow> read_ind_node_block (disk st) (sint (ind_pointer (node_of (file_system st) inn))) \<noteq> None"
    using assms unfolding file_ok_def Let_def by blast
  then show ?thesis
    unfolding takeWhile_full_iff [of "\<lambda>p. p \<noteq> 0" "pointer (node_of (file_system st) inn)"] .
qed

lemma get_last_file_block_ok:
  "file_ok st inn \<Longrightarrow> get_last_file_block st inn = Some (sint (last (file_chain st inn)))"
  using get_last_file_block_chain [OF file_ok_ind_readable, of st inn]
  by (simp add: file_ok_def Let_def)

lemma get_end_char_ok:
  assumes "file_ok st inn"
  shows "\<exists>lc. get_end_char st inn = Some lc \<and> 0 \<le> lc \<and> lc \<le> 1024"
proof -
  have sz: "0 \<le> size_n (node_of (file_system st) inn)" using assms by (simp add: file_ok_def Let_def)
  have nb: "get_num_file_blocks st inn = Some (int (length (file_chain st inn)))"
    using get_num_file_blocks_chain [OF file_ok_ind_readable [OF assms]] .
  have "0 \<le> size_n (node_of (file_system st) inn) mod 1024"
       "size_n (node_of (file_system st) inn) mod 1024 < 1024" by simp_all
  then show ?thesis using sz nb
    by (auto simp: get_end_char_def get_file_size_def Let_def smod_nonneg)
qed

lemma chain_block_range:
  assumes "file_ok st inn" "k < length (file_chain st inn)"
  shows "\<exists>db. read_data_block (disk st) (sint (file_chain st inn ! k)) = Some db"
    and "0 \<le> sint (file_chain st inn ! k)"
proof -
  have "read_data_block (disk st) (sint (file_chain st inn ! k)) \<noteq> None"
    using assms by (simp add: file_ok_def Let_def list_all_length)
  then show "\<exists>db. read_data_block (disk st) (sint (file_chain st inn ! k)) = Some db" by auto
  then show "0 \<le> sint (file_chain st inn ! k)"
    by (auto simp: read_data_block_def read_blocks_def split: if_splits)
qed

lemma sint_eq_iff32: "sint (a::32 word) = sint b \<longleftrightarrow> a = b"
  by (auto dest: signed_word_eqI)

lemma chain_last_iff:
  assumes "file_ok st inn" "k < length (file_chain st inn)"
  shows "sint (file_chain st inn ! k) = sint (last (file_chain st inn))
         \<longleftrightarrow> Suc k = length (file_chain st inn)"
proof -
  have d: "distinct (file_chain st inn)" and ne: "file_chain st inn \<noteq> []"
    using assms by (simp_all add: file_ok_def Let_def)
  have "last (file_chain st inn) = file_chain st inn ! (length (file_chain st inn) - 1)"
    using ne by (simp add: last_conv_nth)
  then have "file_chain st inn ! k = last (file_chain st inn) \<longleftrightarrow> k = length (file_chain st inn) - 1"
    using d assms(2) by (simp add: nth_eq_iff_index_eq)
  then show ?thesis using assms(2) ne by (auto simp: sint_eq_iff32)
qed

lemma fread_copy_count:
  "fread_copy len cb lb lc db out cc bp = (out', cc', bp') \<Longrightarrow>
   cc' = cc + max 0 (min ((if cb = lb then min lc 1024 else 1024) - cc) (len - bp)) \<and>
   bp' = bp + max 0 (min ((if cb = lb then min lc 1024 else 1024) - cc) (len - bp)) \<and>
   int (length out') = int (length out) + max 0 (min ((if cb = lb then min lc 1024 else 1024) - cc) (len - bp))"
proof (induction len cb lb lc db out cc bp rule: fread_copy.induct)
  case (1 len cb lb lc db out cc bp)
  show ?case
  proof (cases "cc < int NUMBER_OF_BYTES_BLOCK \<and> bp < len \<and> \<not> (cb = lb \<and> cc \<ge> lc)")
    case True
    have "fread_copy len cb lb lc db (out @ [db ! nat cc]) (cc + 1) (bp + 1) = (out', cc', bp')"
      using "1.prems" True by (subst (asm) fread_copy.simps) simp
    from "1.IH" [OF True this] True show ?thesis by (auto simp: max_def min_def split: if_splits)
  next
    case False
    then have "(out', cc', bp') = (out, cc, bp)"
      using "1.prems" by (subst (asm) fread_copy.simps) auto
    then show ?thesis using False by (auto simp: max_def min_def)
  qed
qed

lemma fread_fill_chain:
  fixes m :: nat and eof :: int
  assumes ok: "file_ok st inn" and lc: "0 \<le> lc" "lc \<le> 1024"
    and m: "m = length (file_chain st inn)"
    and eof: "eof = (int m - 1) * 1024 + lc"
    and lb: "lb = sint (last (file_chain st inn))"
  shows "k < m \<Longrightarrow> cb = sint (file_chain st inn ! k) \<Longrightarrow> 0 \<le> cc \<Longrightarrow> cc \<le> 1024 \<Longrightarrow>
         int k * 1024 + cc \<le> eof \<Longrightarrow> bp < len \<Longrightarrow>
         \<exists>k' cc' out'.
           fread_fill inn len lb lc st cb cc out bp
             = Some (sint (file_chain st inn ! k'), cc', out',
                     bp + min (len - bp) (eof - (int k * 1024 + cc)))
           \<and> k' < m \<and> 0 \<le> cc' \<and> cc' \<le> 1024
           \<and> int k' * 1024 + cc' = int k * 1024 + cc + min (len - bp) (eof - (int k * 1024 + cc))
           \<and> int (length out') = int (length out) + min (len - bp) (eof - (int k * 1024 + cc))"
proof (induction "nat (len - bp)" arbitrary: k cb cc out bp rule: less_induct)
  case less
  let ?ch = "file_chain st inn"
  let ?pos = "int k * 1024 + cc"
  note k = \<open>k < m\<close> and cb = \<open>cb = sint (?ch ! k)\<close> and cc = \<open>0 \<le> cc\<close> \<open>cc \<le> 1024\<close>
    and pos = \<open>?pos \<le> eof\<close> and bp = \<open>bp < len\<close>
  have gn: "get_next_file_block st inn cb = Some (if Suc k < m then sint (?ch ! Suc k) else -1)"
    using get_next_file_block_chain [OF ok, of k] k cb m by simp
  show ?case
  proof (cases "cc \<ge> 1024 \<and> Suc k = m")
    case True
    then have c: "cc = 1024" using cc by simp
    have "fread_fill inn len lb lc st cb cc out bp = Some (cb, cc, out, bp)"
      using True by (subst fread_fill.simps) (simp add: gn c)
    moreover have "eof - ?pos = 0" using True c pos eof lc by simp
    ultimately show ?thesis using k cb cc bp
      by (intro exI [of _ k] exI [of _ cc] exI [of _ out]) simp
  next
    case False
    define k1 where "k1 = (if cc \<ge> 1024 then Suc k else k)"
    define cc1 where "cc1 = (if cc \<ge> 1024 then 0 else cc)"
    define cb1 where "cb1 = sint (?ch ! k1)"
    have k1: "k1 < m" using False k by (auto simp: k1_def)
    have pos1: "int k1 * 1024 + cc1 = ?pos" using cc by (auto simp: k1_def cc1_def)
    have cc1: "0 \<le> cc1" "cc1 < 1024" using cc by (auto simp: cc1_def)
    have nn: "0 \<le> cb1" using chain_block_range(2) [OF ok, of k1] k1 m by (simp add: cb1_def)
    have adv: "(if cc \<ge> int NUMBER_OF_BYTES_BLOCK then
              (case get_next_file_block st inn cb of
                 None \<Rightarrow> None
               | Some tb \<Rightarrow> Some (tb < 0, tb, 0))
            else Some (False, cb, cc)) = Some (False, cb1, cc1)"
      using False k nn gn by (auto simp: k1_def cc1_def cb1_def cb)
    obtain db where db: "read_data_block (disk st) cb1 = Some db"
      using chain_block_range(1) [OF ok, of k1] k1 m by (auto simp: cb1_def)
    obtain out2 cc2 bp2 where cp: "fread_copy len cb1 lb lc db out cc1 bp = (out2, cc2, bp2)"
      by (metis prod_cases3)
    have lst: "cb1 = lb \<longleftrightarrow> Suc k1 = m"
      using chain_last_iff [OF ok, of k1] k1 m by (simp add: cb1_def lb)
    define lim where "lim = (if Suc k1 = m then lc else 1024)"
    have limeq: "(if cb1 = lb then min lc 1024 else 1024) = lim" using lc by (simp add: lst lim_def)
    have cl: "cc1 \<le> lim" using cc1 pos pos1 eof by (auto simp: lim_def)
    have le: "int k1 * 1024 + lim \<le> eof" using k1 lc eof by (auto simp: lim_def)
    define t where "t = min (lim - cc1) (len - bp)"
    have t0: "0 \<le> t" using cl bp by (simp add: t_def)
    have cnt: "cc2 = cc1 + t" "bp2 = bp + t" "int (length out2) = int (length out) + t"
      using fread_copy_count [OF cp] t0 unfolding limeq t_def by simp_all
    have unf: "fread_fill inn len lb lc st cb cc out bp =
          (if bp2 < len \<and> \<not> (cb1 = lb \<and> cc2 \<ge> lc)
           then fread_fill inn len lb lc st cb1 cc2 out2 bp2 else Some (cb1, cc2, out2, bp2))"
      by (subst fread_fill.simps, subst adv) (simp add: db cp)
    show ?thesis
    proof (cases "bp2 < len \<and> \<not> (cb1 = lb \<and> cc2 \<ge> lc)")
      case True
      have "t < len - bp" using True cnt(2) by simp
      then have tl: "t = lim - cc1" by (simp add: t_def min_def split: if_splits)
      have tpos: "0 < t" using True cnt cc1 tl lst by (auto simp: lim_def split: if_splits)
      have meas: "nat (len - bp2) < nat (len - bp)" using tpos cnt bp by simp
      have pos2: "int k1 * 1024 + cc2 \<le> eof" using le cnt tl by simp
      have c2: "0 \<le> cc2" "cc2 \<le> 1024" using cnt t0 cc1 tl lc by (auto simp: lim_def split: if_splits)
      from less.hyps [OF meas k1 cb1_def c2 pos2, of out2] True
      obtain k' cc' out' where r:
        "fread_fill inn len lb lc st cb1 cc2 out2 bp2
             = Some (sint (?ch ! k'), cc', out', bp2 + min (len - bp2) (eof - (int k1 * 1024 + cc2)))"
        "k' < m" "0 \<le> cc'" "cc' \<le> 1024"
        "int k' * 1024 + cc' = int k1 * 1024 + cc2 + min (len - bp2) (eof - (int k1 * 1024 + cc2))"
        "int (length out') = int (length out2) + min (len - bp2) (eof - (int k1 * 1024 + cc2))"
        by blast
      have ar: "t + min (len - bp2) (eof - (int k1 * 1024 + cc2)) = min (len - bp) (eof - ?pos)"
        using cnt pos1 by (simp add: min_def)
      have "fread_fill inn len lb lc st cb cc out bp = fread_fill inn len lb lc st cb1 cc2 out2 bp2"
        unfolding unf using True by simp
      then have "fread_fill inn len lb lc st cb cc out bp
             = Some (sint (?ch ! k'), cc', out', bp + min (len - bp) (eof - ?pos))"
        using r(1) cnt(2) ar by simp
      moreover have "int k' * 1024 + cc' = ?pos + min (len - bp) (eof - ?pos)"
        using r(5) cnt(1) pos1 ar by simp
      moreover have "int (length out') = int (length out) + min (len - bp) (eof - ?pos)"
        using r(6) cnt(3) ar by simp
      ultimately show ?thesis using r(2-4) by blast
    next
      case False
      have ar: "t = min (len - bp) (eof - ?pos)"
      proof (cases "bp2 < len")
        case True
        then have "Suc k1 = m" "cc2 \<ge> lc" using False lst by auto
        then have "t = lim - cc1" "lim = lc" "cc2 = lc" using cnt cl True by (auto simp: t_def lim_def)
        then show ?thesis using pos1 eof \<open>Suc k1 = m\<close> cnt True by (auto simp: min_def)
      next
        case False
        then have "t = len - bp" using cnt by (auto simp: t_def)
        moreover have "t \<le> eof - ?pos" using le pos1 by (simp add: t_def)
        ultimately show ?thesis by simp
      qed
      have "fread_fill inn len lb lc st cb cc out bp = Some (cb1, cc2, out2, bp2)"
        by (simp only: unf False if_False)
      then have "fread_fill inn len lb lc st cb cc out bp
             = Some (sint (?ch ! k1), cc2, out2, bp + min (len - bp) (eof - ?pos))"
        using cnt(2) ar by (simp add: cb1_def)
      moreover have "int k1 * 1024 + cc2 = ?pos + min (len - bp) (eof - ?pos)"
        using cnt(1) pos1 ar by simp
      moreover have "int (length out2) = int (length out) + min (len - bp) (eof - ?pos)"
        using cnt(3) ar by simp
      moreover have "0 \<le> cc2" "cc2 \<le> 1024" using cnt t0 cc1 cl lc by (auto simp: t_def lim_def split: if_splits)
      ultimately show ?thesis using k1 by blast
    qed
  qed
qed

lemma file_pointer_eta: "\<lparr>block = block r, c_ptr = c_ptr r\<rparr> = (r::s_file_pointer)"
  by (cases r) simp

lemma fd_upd_same_read_pointer:
  "fd_upd st (nat fileID)
     (\<lambda>f. f\<lparr>read_pointer := \<lparr>block = block (read_pointer (open_file_table st ! nat fileID)),
                              c_ptr = c_ptr (read_pointer (open_file_table st ! nat fileID))\<rparr>\<rparr>) = st"
  by (simp add: fd_upd_def file_pointer_eta)

lemma fread_fill_nothing:
  fixes m :: nat
  assumes ok: "file_ok st inn"
    and m: "m = length (file_chain st inn)"
    and k: "k < m" and cb: "cb = sint (file_chain st inn ! k)"
    and cc: "0 \<le> cc" "cc \<le> 1024" and bp: "len \<le> bp"
  shows "\<exists>k' cc'.
           fread_fill inn len lb lc st cb cc out bp = Some (sint (file_chain st inn ! k'), cc', out, bp)
           \<and> k' < m \<and> 0 \<le> cc' \<and> cc' \<le> 1024 \<and> int k' * 1024 + cc' = int k * 1024 + cc"
proof -
  let ?ch = "file_chain st inn"
  have gn: "get_next_file_block st inn cb = Some (if Suc k < m then sint (?ch ! Suc k) else -1)"
    using get_next_file_block_chain [OF ok, of k] k cb m by simp
  show ?thesis
  proof (cases "cc \<ge> 1024 \<and> Suc k = m")
    case True
    then have c: "cc = 1024" using cc by simp
    have "fread_fill inn len lb lc st cb cc out bp = Some (cb, cc, out, bp)"
      using True by (subst fread_fill.simps) (simp add: gn c)
    then show ?thesis using k cb cc
      by (intro exI [of _ k] exI [of _ cc]) simp
  next
    case False
    define k1 where "k1 = (if cc \<ge> 1024 then Suc k else k)"
    define cc1 where "cc1 = (if cc \<ge> 1024 then 0 else cc)"
    define cb1 where "cb1 = sint (?ch ! k1)"
    have k1: "k1 < m" using False k by (auto simp: k1_def)
    have pos1: "int k1 * 1024 + cc1 = int k * 1024 + cc" using cc by (auto simp: k1_def cc1_def)
    have cc1: "0 \<le> cc1" "cc1 < 1024" using cc by (auto simp: cc1_def)
    have nn: "0 \<le> cb1" using chain_block_range(2) [OF ok, of k1] k1 m by (simp add: cb1_def)
    have adv: "(if cc \<ge> int NUMBER_OF_BYTES_BLOCK then
              (case get_next_file_block st inn cb of
                 None \<Rightarrow> None
               | Some tb \<Rightarrow> Some (tb < 0, tb, 0))
            else Some (False, cb, cc)) = Some (False, cb1, cc1)"
      using False k nn gn by (auto simp: k1_def cc1_def cb1_def cb)
    obtain db where db: "read_data_block (disk st) cb1 = Some db"
      using chain_block_range(1) [OF ok, of k1] k1 m by (auto simp: cb1_def)
    have cp: "fread_copy len cb1 lb lc db out cc1 bp = (out, cc1, bp)"
      using bp by (subst fread_copy.simps) simp
    have "fread_fill inn len lb lc st cb cc out bp = Some (cb1, cc1, out, bp)"
      using bp by (subst fread_fill.simps, subst adv) (simp add: db cp)
    then show ?thesis using k1 cc1 pos1
      by (intro exI [of _ k1] exI [of _ cc1]) (simp add: cb1_def)
  qed
qed

subsection \<open>The example file \<open>a\<close>\<close>

lemma fd_inn_st_file_a: "fd_inn st_file_a 0 = 5"
  by (simp add: fd_inn_def oft_st_file_a)

lemma file_chain_st_file_a: "file_chain st_file_a 5 = [14]"
  by (simp add: file_chain_def chain_of_def node_of_st_file_a replicate_14_update Let_def)

lemma inodes_ok_st_file_a: "inodes_ok (file_system st_file_a)"
  by (simp add: st_file_a_def inodes_ok_init)

lemma read_block_st_file_a:
  "read_data_block (disk st_file_a) 14 = Some ([104, 101, 108, 108, 111] @ replicate 1019 0)"
  by (simp add: st_file_a_def read_data_block_def read_blocks_def)

lemma file_ok_st_file_a: "file_ok st_file_a 5"
  unfolding file_ok_def Let_def file_chain_st_file_a node_of_st_file_a
  by (simp add: inodes_ok_st_file_a read_block_st_file_a replicate_14_update)

lemma get_end_char_st_file_a: "get_end_char st_file_a 5 = Some 5"
  by (simp add: get_end_char_def get_file_size_def node_of_st_file_a Let_def smod_nonneg)

lemma eof_pos_st_file_a: "eof_pos st_file_a 5 = 5"
  by (simp add: eof_pos_def file_chain_st_file_a get_end_char_st_file_a)

lemma node_of_st_stale_fd: "node_of (file_system st_stale_fd) 5 = init_node"
  by (simp add: st_stale_fd_def mkssfs_fresh_fields node_of_init)

lemma disk_st_stale_fd: "disk st_stale_fd 14 = Bytes (replicate 1024 0)"
  by (simp add: st_stale_fd_def mkssfs_fresh_def disk_dump_data fresh_disk_def)

lemma fread_copy_zeros:
  "fread_copy 10 14 (-1) (-1) (replicate 1024 0) [] 0 0 = (replicate 10 0, 10, 10)"
  by (simp add: fread_copy.simps numeral_eq_Suc)

subsection \<open>Writing to a well-formed file\<close>












lemma file_chain_fd_upd [simp]: "file_chain (fd_upd st i g) inn = file_chain st inn"
  by (simp add: file_chain_def ind_block_of_def)

lemma file_ok_fd_upd [simp]: "file_ok (fd_upd st i g) inn = file_ok st inn"
  by (simp add: file_ok_def)

lemma get_num_file_blocks_fd_upd [simp]:
  "get_num_file_blocks (fd_upd st i g) inn = get_num_file_blocks st inn"
  unfolding get_num_file_blocks_def fd_upd_fields by (rule refl)

lemma get_end_char_fd_upd [simp]: "get_end_char (fd_upd st i g) inn = get_end_char st inn"
  unfolding get_end_char_def get_file_size_def get_num_file_blocks_fd_upd fd_upd_fields by (rule refl)

lemma eof_pos_fd_upd [simp]: "eof_pos (fd_upd st i g) inn = eof_pos st inn"
  by (simp add: eof_pos_def)


lemma fwseek_st_file_a: "ssfs_fwseek st_file_a 0 2 = Some (st_file_a_seek, 0)"
proof -
  have lb: "get_last_file_block st_file_a 5 = Some 14"
    using get_last_file_block_ok [OF file_ok_st_file_a] by (simp add: file_chain_st_file_a)
  have sb: "seek_block st_file_a 0 2 = Some 14"
    by (simp add: seek_block_def Let_def fd_inn_st_file_a node_of_st_file_a ptr_or_fail_def)
  have sc: "seek_char st_file_a 0 2 = Some 2"
    by (simp add: seek_char_def Let_def sb fd_inn_st_file_a lb get_end_char_st_file_a)
  show ?thesis by (simp add: ssfs_fwseek_def sb sc st_file_a_seek_def)
qed


section \<open>The block allocator (claim C2)\<close>

lemma get_free_block_cases:
  "(get_free_block fs = (fs, -1) \<and>
      (\<forall>j. FIRST_DATA_BLOCK \<le> j \<and> j \<le> LAST_DATA_BLOCK \<longrightarrow> get_bit_map (free_bit_map fs) j = 0))
   \<or> (\<exists>k. FIRST_DATA_BLOCK \<le> k \<and> k \<le> LAST_DATA_BLOCK \<and> get_bit_map (free_bit_map fs) k = 1 \<and>
         (\<forall>j. FIRST_DATA_BLOCK \<le> j \<and> j < k \<longrightarrow> get_bit_map (free_bit_map fs) j = 0) \<and>
         get_free_block fs = (fs\<lparr>free_bit_map := clr_bit_map (free_bit_map fs) k\<rparr>, int k))"
proof (cases "first_index (\<lambda>i. get_bit_map (free_bit_map fs) i \<noteq> 0) FIRST_DATA_BLOCK (LAST_DATA_BLOCK + 1)")
  case None
  then have "get_free_block fs = (fs, -1)" by (simp add: get_free_block_def)
  moreover from None
  have "\<forall>j. FIRST_DATA_BLOCK \<le> j \<and> j \<le> LAST_DATA_BLOCK \<longrightarrow> get_bit_map (free_bit_map fs) j = 0"
    unfolding first_index_None by (simp add: less_Suc_eq_le)
  ultimately show ?thesis by blast
next
  case (Some k)
  then have run: "get_free_block fs = (fs\<lparr>free_bit_map := clr_bit_map (free_bit_map fs) k\<rparr>, int k)"
    by (simp add: get_free_block_def)
  from Some have k: "FIRST_DATA_BLOCK \<le> k" "k \<le> LAST_DATA_BLOCK" "get_bit_map (free_bit_map fs) k \<noteq> 0"
    and before: "\<forall>j. FIRST_DATA_BLOCK \<le> j \<and> j < k \<longrightarrow> get_bit_map (free_bit_map fs) j = 0"
    unfolding first_index_Some by (simp_all add: less_Suc_eq_le)
  from k(3) get_bit_map_01 [of "free_bit_map fs" k] have "get_bit_map (free_bit_map fs) k = 1" by auto
  with k before run show ?thesis by blast
qed

text \<open>
  Claim C2, as stated, with \<open>LAST_DATA = NB - 2 - MAX_DIRS\<close> (block 1017): it fails.  On a
  free bit map whose only set bit is bit 1017, a bit of the claimed range is set and
  the allocator still returns -1: the scan of the source stops at
  \<open>LAST_DATA_BLOCK = NUMBER_OF_BLOCKS - 1 - 2 - MAX_DIRS_INCL_SHAD\<close> (block 1016).
\<close>
theorem get_free_block_last_data_counterexample: "FIRST_DATA_BLOCK \<le> NUMBER_OF_BLOCKS - 2 - MAX_DIRS_INCL_SHAD
   \<and> get_bit_map (free_bit_map fs_only_1017) (NUMBER_OF_BLOCKS - 2 - MAX_DIRS_INCL_SHAD) = 1
   \<and> snd (get_free_block fs_only_1017) = -1"
proof -
  have zero: "get_bit_map ((replicate 128 0)[127 := 2]) j = 0" if "j < 1017" for j
  proof (cases "j div 8 = 127")
    case True
    with that have "j = 1016" by auto
    then show ?thesis by (simp add: get_bit_map_def get_bit_eq)
  next
    case False
    moreover have "j div 8 < 128" using that by (auto simp: div_less_iff_less_mult)
    ultimately show ?thesis by (simp add: get_bit_map_def get_bit_eq)
  qed
  have one: "get_bit_map ((replicate 128 0)[127 := 2]) 1017 = 1"
    by (simp add: get_bit_map_def get_bit_eq)
  have "first_index (\<lambda>i. get_bit_map (free_bit_map fs_only_1017) i \<noteq> 0)
          FIRST_DATA_BLOCK (LAST_DATA_BLOCK + 1) = None"
    by (simp add: first_index_None fs_only_1017_def zero)
  then have "snd (get_free_block fs_only_1017) = -1"
    by (simp add: get_free_block_def)
  with one show ?thesis by (simp add: fs_only_1017_def)
qed


text \<open>
  Claim C2, amended: the block allocator scans exactly the blocks
  \<open>FIRST_DATA_BLOCK = 1 + BLOCKS_I_NODE_FILE\<close> (14) through
  \<open>LAST_DATA_BLOCK = NUMBER_OF_BLOCKS - 1 - 2 - MAX_DIRS_INCL_SHAD\<close> (1016) inclusive.  It
  returns -1, leaving the file system as it was, if and only if no bit of the free bit
  map is set in that range; otherwise it returns the first block of the range whose
  bit is 1, the only change being that this bit is cleared, so it never returns a block
  outside the range.
\<close>
theorem get_free_block_scans_data_region:
  assumes "length (free_bit_map fs) = NUMBER_OF_BLOCKS div 8"
    and "get_free_block fs = (fs', r)"
  shows "FIRST_DATA_BLOCK = 14 \<and> LAST_DATA_BLOCK = 1016
    \<and> (r = -1 \<longleftrightarrow> (\<forall>j. FIRST_DATA_BLOCK \<le> j \<and> j \<le> LAST_DATA_BLOCK
                          \<longrightarrow> get_bit_map (free_bit_map fs) j = 0))
    \<and> (r = -1 \<longrightarrow> fs' = fs)
    \<and> (r \<noteq> -1 \<longrightarrow>
         (\<exists>k. r = int k \<and> FIRST_DATA_BLOCK \<le> k \<and> k \<le> LAST_DATA_BLOCK
            \<and> get_bit_map (free_bit_map fs) k = 1
            \<and> (\<forall>j. FIRST_DATA_BLOCK \<le> j \<and> j < k \<longrightarrow> get_bit_map (free_bit_map fs) j = 0)
            \<and> fs' = fs\<lparr>free_bit_map := clr_bit_map (free_bit_map fs) k\<rparr>
            \<and> get_bit_map (free_bit_map fs') k = 0))"
proof -
  from get_free_block_cases [of fs] show ?thesis
  proof (elim disjE conjE exE)
    assume "get_free_block fs = (fs, - 1)"
      and "\<forall>j. FIRST_DATA_BLOCK \<le> j \<and> j \<le> LAST_DATA_BLOCK \<longrightarrow> get_bit_map (free_bit_map fs) j = 0"
    with assms(2) show ?thesis by simp
  next
    fix k
    assume k: "FIRST_DATA_BLOCK \<le> k" "k \<le> LAST_DATA_BLOCK" "get_bit_map (free_bit_map fs) k = 1"
      and before: "\<forall>j. FIRST_DATA_BLOCK \<le> j \<and> j < k \<longrightarrow> get_bit_map (free_bit_map fs) j = 0"
      and res: "get_free_block fs = (fs\<lparr>free_bit_map := clr_bit_map (free_bit_map fs) k\<rparr>, int k)"
    from res assms(2) have r: "r = int k"
      and fs': "fs' = fs\<lparr>free_bit_map := clr_bit_map (free_bit_map fs) k\<rparr>" by simp_all
    have "k div 8 < length (free_bit_map fs)" using k(2) assms(1) by (simp add: div_less_iff_less_mult)
    then have cleared: "get_bit_map (free_bit_map fs') k = 0"
      by (simp add: fs' get_bit_map_clr_bit_map)
    have neg: "r \<noteq> -1" using r by simp
    have notall: "\<not> (\<forall>j. FIRST_DATA_BLOCK \<le> j \<and> j \<le> LAST_DATA_BLOCK
                          \<longrightarrow> get_bit_map (free_bit_map fs) j = 0)"
      using k by force
    from r fs' cleared neg notall k before show ?thesis by auto
  qed
qed

theorem get_free_block_scans_data_region_witness:
  "length (free_bit_map init_file_system) = NUMBER_OF_BLOCKS div 8
   \<and> get_free_block init_file_system
       = (init_file_system\<lparr>free_bit_map := clr_bit_map (free_bit_map init_file_system) 14\<rparr>, 14)
   \<and> get_bit_map (free_bit_map init_file_system) 14 = 1
   \<and> get_bit_map (free_bit_map (fst (get_free_block init_file_system))) 14 = 0"
proof -
  have len: "length (free_bit_map init_file_system) = NUMBER_OF_BLOCKS div 8"
    by (simp add: length_free_bit_map_init)
  have "first_index (\<lambda>i. get_bit_map (free_bit_map init_file_system) i \<noteq> 0)
          FIRST_DATA_BLOCK (LAST_DATA_BLOCK + 1) = Some 14"
    by (simp add: first_index_Some get_bit_map_init)
  then have run: "get_free_block init_file_system
       = (init_file_system\<lparr>free_bit_map := clr_bit_map (free_bit_map init_file_system) 14\<rparr>, 14)"
    by (simp add: get_free_block_def)
  from get_free_block_scans_data_region [OF len run] len run show ?thesis
    by (auto simp: get_bit_map_init)
qed

section \<open>Opening a name that is already open (claim C4)\<close>

lemma free_fd_None: "free_fd st = None \<longleftrightarrow> (\<forall>i. i < MAX_FD \<longrightarrow> name (entry (open_file_table st ! i)) \<noteq> [])"
  by (simp add: free_fd_def first_index_None)

text \<open>
  Claim C4, as stated: it fails.  In a state whose descriptor 0 holds the name \<open>a\<close> and
  whose live directory has no such entry, \<open>ssfs_fopen("a")\<close> does not fail: \<open>fopen_new\<close>
  finds the open descriptor and returns its index 0.
\<close>
theorem fopen_of_open_name_counterexample:
  "name (entry (open_file_table st_stale_fd ! 0)) = ''a''
   \<and> ssfs_fopen st_stale_fd (Some ''a'') = Some (st_stale_fd, 0)"
proof -
  have none: "first_index (\<lambda>i. strncmp (name (dir0 st_stale_fd ! i)) ''a'' MAX_NAME_LENGTH = 0) 0 MAX_FILES = None"
    by (simp add: first_index_None dir0_st_stale_fd init_dir_def init_dir_entry_def)
  have "first_index (\<lambda>i. strncmp (name (entry (open_file_table st_stale_fd ! i))) ''a'' MAX_NAME_LENGTH = 0) 0 MAX_FD = Some 0"
    by (rule first_index_SomeI) (simp_all add: oft_st_stale_fd)
  then have "fopen_new st_stale_fd ''a'' = Some (st_stale_fd, 0)"
    by (simp add: fopen_new_def)
  with none free_fd_st_stale_fd show ?thesis
    by (simp add: ssfs_fopen_def check_fd_full_def oft_st_stale_fd)
qed

text \<open>
  Claim C4, amended: for every non-empty name that a descriptor of the open-file table
  already holds, \<open>ssfs_fopen\<close> of that name leaves the state unchanged and
  \<^item> returns -1 when the open-file table is full;
  \<^item> returns -1 when the name is present in the live directory;
  \<^item> when the table is not full and the name is absent from the live directory,
    returns the index of the first descriptor that holds the name, opening nothing.
\<close>
theorem fopen_of_open_name:
  assumes k: "k < MAX_FD"
    and open_k: "strncmp (name (entry (open_file_table st ! k))) nm MAX_NAME_LENGTH = 0"
    and nm: "nm \<noteq> []"
  shows "(free_fd st = None \<longrightarrow> ssfs_fopen st (Some nm) = Some (st, -1))
    \<and> ((\<exists>i. i < MAX_FILES \<and> strncmp (name (dir0 st ! i)) nm MAX_NAME_LENGTH = 0)
          \<longrightarrow> ssfs_fopen st (Some nm) = Some (st, -1))
    \<and> (free_fd st \<noteq> None \<and> (\<forall>i. i < MAX_FILES \<longrightarrow> strncmp (name (dir0 st ! i)) nm MAX_NAME_LENGTH \<noteq> 0)
          \<longrightarrow> (\<exists>j. ssfs_fopen st (Some nm) = Some (st, int j) \<and> j \<le> k
                  \<and> strncmp (name (entry (open_file_table st ! j))) nm MAX_NAME_LENGTH = 0
                  \<and> (\<forall>j'. j' < j \<longrightarrow> strncmp (name (entry (open_file_table st ! j'))) nm MAX_NAME_LENGTH \<noteq> 0)))"
proof (intro conjI impI)
  assume "free_fd st = None"
  then show "ssfs_fopen st (Some nm) = Some (st, -1)"
    by (simp add: ssfs_fopen_def check_fd_full_def)
next
  assume ex: "\<exists>i. i < MAX_FILES \<and> strncmp (name (dir0 st ! i)) nm MAX_NAME_LENGTH = 0"
  show "ssfs_fopen st (Some nm) = Some (st, -1)"
  proof (cases "free_fd st")
    case None
    then show ?thesis by (simp add: ssfs_fopen_def check_fd_full_def)
  next
    case (Some f)
    from ex obtain i where i: "i < MAX_FILES" "strncmp (name (dir0 st ! i)) nm MAX_NAME_LENGTH = 0"
      by blast
    from first_index_exists [of 0 i MAX_FILES "\<lambda>i. strncmp (name (dir0 st ! i)) nm MAX_NAME_LENGTH = 0"] i
    obtain e where e: "first_index (\<lambda>i. strncmp (name (dir0 st ! i)) nm MAX_NAME_LENGTH = 0) 0 MAX_FILES = Some e"
      by auto
    have "strncmp nm (name (entry (open_file_table st ! k))) MAX_NAME_LENGTH = 0"
      using open_k strncmp_swap_0 by blast
    with first_index_exists [of 0 k MAX_FD "\<lambda>i. strncmp nm (name (entry (open_file_table st ! i))) MAX_NAME_LENGTH = 0"] k
    obtain j where "first_index (\<lambda>i. strncmp nm (name (entry (open_file_table st ! i))) MAX_NAME_LENGTH = 0) 0 MAX_FD = Some j"
      by auto
    then have "fopen_existing st nm e = Some (st, -1)"
      by (simp add: fopen_existing_def)
    with e Some nm show ?thesis
      by (simp add: ssfs_fopen_def check_fd_full_def)
  qed
next
  assume a: "free_fd st \<noteq> None \<and> (\<forall>i. i < MAX_FILES \<longrightarrow> strncmp (name (dir0 st ! i)) nm MAX_NAME_LENGTH \<noteq> 0)"
  then have none: "first_index (\<lambda>i. strncmp (name (dir0 st ! i)) nm MAX_NAME_LENGTH = 0) 0 MAX_FILES = None"
    by (simp add: first_index_None)
  from first_index_exists [of 0 k MAX_FD "\<lambda>i. strncmp (name (entry (open_file_table st ! i))) nm MAX_NAME_LENGTH = 0"] k open_k
  obtain j where j: "first_index (\<lambda>i. strncmp (name (entry (open_file_table st ! i))) nm MAX_NAME_LENGTH = 0) 0 MAX_FD = Some j"
    "j \<le> k" "strncmp (name (entry (open_file_table st ! j))) nm MAX_NAME_LENGTH = 0"
    "\<forall>j'. 0 \<le> j' \<and> j' < j \<longrightarrow> strncmp (name (entry (open_file_table st ! j'))) nm MAX_NAME_LENGTH \<noteq> 0"
    by auto
  from j(1) have "fopen_new st nm = Some (st, int j)" by (simp add: fopen_new_def)
  with none a nm have "ssfs_fopen st (Some nm) = Some (st, int j)"
    by (auto simp add: ssfs_fopen_def check_fd_full_def)
  with j show "\<exists>j. ssfs_fopen st (Some nm) = Some (st, int j) \<and> j \<le> k
                  \<and> strncmp (name (entry (open_file_table st ! j))) nm MAX_NAME_LENGTH = 0
                  \<and> (\<forall>j'. j' < j \<longrightarrow> strncmp (name (entry (open_file_table st ! j'))) nm MAX_NAME_LENGTH \<noteq> 0)"
    by auto
qed

theorem fopen_of_open_name_witness:
  "ssfs_fopen st_file_a (Some ''a'') = Some (st_file_a, -1)
   \<and> (\<exists>j. ssfs_fopen st_stale_fd (Some ''a'') = Some (st_stale_fd, int j) \<and> j \<le> 0)"
proof -
  have k: "(0::nat) < MAX_FD" by simp
  have m1: "strncmp (name (entry (open_file_table st_file_a ! 0))) ''a'' MAX_NAME_LENGTH = 0"
    by (simp add: oft_st_file_a)
  have m2: "strncmp (name (entry (open_file_table st_stale_fd ! 0))) ''a'' MAX_NAME_LENGTH = 0"
    by (simp add: oft_st_stale_fd)
  have nm: "''a'' \<noteq> []" by simp
  have present: "\<exists>i. i < MAX_FILES \<and> strncmp (name (dir0 st_file_a ! i)) ''a'' MAX_NAME_LENGTH = 0"
    by (rule exI [of _ 0]) (simp add: dir0_st_file_a)
  have absent: "\<forall>i. i < MAX_FILES \<longrightarrow> strncmp (name (dir0 st_stale_fd ! i)) ''a'' MAX_NAME_LENGTH \<noteq> 0"
    by (simp add: dir0_st_stale_fd init_dir_def init_dir_entry_def)
  have free: "free_fd st_stale_fd \<noteq> None" by (simp add: free_fd_st_stale_fd)
  from fopen_of_open_name [OF k m1 nm] present
  have a: "ssfs_fopen st_file_a (Some ''a'') = Some (st_file_a, -1)" by blast
  from fopen_of_open_name [OF k m2 nm] absent free
  have b: "\<exists>j. ssfs_fopen st_stale_fd (Some ''a'') = Some (st_stale_fd, int j) \<and> j \<le> 0" by blast
  from a b show ?thesis by blast
qed

section \<open>A failing remove (claim C10)\<close>

lemma file_system_rm_fd [simp]: "file_system (rm_fd st f) = file_system st"
  and disk_rm_fd [simp]: "disk (rm_fd st f) = disk st"
  and gnfni_rm_fd [simp]: "gnfni (rm_fd st f) = gnfni st"
  and dir0_rm_fd [simp]: "dir0 (rm_fd st f) = dir0 st"
  by (simp_all add: rm_fd_def dir0_def)

lemma rm_file_from_dir_absent:
  "(\<forall>i. i < MAX_FILES \<longrightarrow> strncmp (name (dir0 st ! i)) f MAX_NAME_LENGTH \<noteq> 0)
   \<Longrightarrow> rm_file_from_dir st f = Some (st, -1)"
proof -
  assume "\<forall>i. i < MAX_FILES \<longrightarrow> strncmp (name (dir0 st ! i)) f MAX_NAME_LENGTH \<noteq> 0"
  then have "first_index (\<lambda>i. strncmp (name (dir0 st ! i)) f MAX_NAME_LENGTH = 0) 0 MAX_FILES = None"
    by (simp add: first_index_None)
  then show ?thesis by (simp add: rm_file_from_dir_def)
qed

text \<open>
  A name \<open>f\<close> that no entry of the live directory matches, unused entries included:
  \<open>ssfs_remove f\<close> returns -1 and leaves the file system, the disk and the enumeration
  index as they were, but every descriptor of the open-file table whose name
  matches \<open>f\<close> has been reset by then, the other descriptors being unchanged.
\<close>
theorem remove_absent_clears_descriptors:
  assumes "\<forall>i. i < MAX_FILES \<longrightarrow> strncmp (name (dir0 st ! i)) f MAX_NAME_LENGTH \<noteq> 0"
  shows "\<exists>st'. ssfs_remove st f = Some (st', -1)
           \<and> file_system st' = file_system st \<and> disk st' = disk st \<and> gnfni st' = gnfni st
           \<and> length (open_file_table st') = length (open_file_table st)
           \<and> (\<forall>i. i < length (open_file_table st) \<longrightarrow>
                 open_file_table st' ! i =
                   (if strncmp (name (entry (open_file_table st ! i))) f MAX_NAME_LENGTH = 0
                    then init_fd else open_file_table st ! i))"
proof -
  have "\<forall>i. i < MAX_FILES \<longrightarrow> strncmp (name (dir0 (rm_fd st f) ! i)) f MAX_NAME_LENGTH \<noteq> 0"
    using assms by simp
  then have "ssfs_remove st f = Some (rm_fd st f, -1)"
    unfolding ssfs_remove_def by (rule rm_file_from_dir_absent)
  moreover have "length (open_file_table (rm_fd st f)) = length (open_file_table st)"
    by (simp add: rm_fd_def)
  moreover have "\<forall>i. i < length (open_file_table st) \<longrightarrow>
                 open_file_table (rm_fd st f) ! i =
                   (if strncmp (name (entry (open_file_table st ! i))) f MAX_NAME_LENGTH = 0
                    then init_fd else open_file_table st ! i)"
    by (simp add: rm_fd_def)
  ultimately show ?thesis by simp
qed

theorem remove_absent_clears_descriptors_witness:
  "name (entry (open_file_table st_stale_fd ! 0)) = ''a''
   \<and> (\<exists>st'. ssfs_remove st_stale_fd ''a'' = Some (st', -1)
           \<and> file_system st' = file_system st_stale_fd \<and> disk st' = disk st_stale_fd
           \<and> open_file_table st' ! 0 = init_fd)"
proof -
  have absent: "\<forall>i. i < MAX_FILES \<longrightarrow> strncmp (name (dir0 st_stale_fd ! i)) ''a'' MAX_NAME_LENGTH \<noteq> 0"
    by (simp add: dir0_st_stale_fd init_dir_def init_dir_entry_def)
  have oft: "open_file_table st_stale_fd ! 0 = \<lparr>entry = \<lparr>name = ''a'', i_node_number = 5\<rparr>,
                                read_pointer = \<lparr>block = 14, c_ptr = 0\<rparr>,
                                write_pointer = \<lparr>block = 14, c_ptr = 0\<rparr>\<rparr>"
    and len: "0 < length (open_file_table st_stale_fd)"
    by (simp_all add: st_stale_fd_def init_open_file_table_def)
  have m: "strncmp ''a'' ''a'' MAX_NAME_LENGTH = 0" by simp
  from remove_absent_clears_descriptors [OF absent] oft len m show ?thesis
    by auto
qed

text \<open>
  Claim C10 is not met by the code for the empty name.  \<open>ssfs_remove\<close> has no test for
  an empty name, as \<open>ssfs_fopen\<close> has, and \<open>strncmp\<close> finds the empty name equal to the
  name of an unused directory entry.  On the freshly formatted file system, whose
  directory holds no file, \<open>ssfs_remove("")\<close> returns 0 instead of -1 and removes the
  file of the unused entry 0, that is i-node 0: the i-node of the live directory is
  re-initialised and its block 1021 is marked free in the free bit map.
\<close>
theorem remove_empty_name_frees_directory:
  "\<exists>st'. ssfs_remove mkssfs_fresh [] = Some (st', 0)
      \<and> dir0 mkssfs_fresh = replicate MAX_FILES init_dir_entry
      \<and> node_of (file_system mkssfs_fresh) 0 = dir_node 0
      \<and> get_bit_map (free_bit_map (file_system mkssfs_fresh)) 1021 = 0
      \<and> node_of (file_system st') 0 = init_node
      \<and> get_bit_map (free_bit_map (file_system st')) 1021 = 1"
proof -
  let ?st = "rm_fd mkssfs_fresh []"
  let ?fs = "init_file_system"
  let ?fs1 = "node_upd (set_both 1021 ?fs) 0 init_node"
  have fs: "file_system ?st = ?fs" by (simp add: mkssfs_fresh_fields)
  have d0: "dir0 mkssfs_fresh ! 0 = init_dir_entry" "directory ?fs ! 0 ! 0 = init_dir_entry"
    using init_dir_nth [of 0] by (simp_all add: dir0_mkssfs_fresh directory_init)
  have fi: "first_index (\<lambda>i. strncmp (name (dir0 ?st ! i)) [] MAX_NAME_LENGTH = 0) 0 MAX_FILES = Some 0"
    by (rule first_index_SomeI) (simp_all add: d0 init_dir_entry_def)
  have n0: "node_of ?fs 0 = dir_node 0" by (simp add: node_of_init)
  have sc: "free_scan (pointer (dir_node 0)) ?fs = set_both 1021 ?fs"
    by (simp add: dir_node_def replicate_14_update)
  have disk: "rm_file_from_disk 0 0 ?st = Some ?fs1"
    by (simp add: rm_file_from_disk_def Let_def mkssfs_fresh_fields d0 init_dir_entry_def n0 sc)
       (simp add: dir_node_def)
  have rm: "ssfs_remove mkssfs_fresh [] =
              Some (dump_file_system_to_disk (?st\<lparr>file_system := clear_entry ?fs1 0 0\<rparr>), 0)"
    using fi disk by (simp add: ssfs_remove_def rm_file_from_dir_def)
  have ok: "inodes_ok (set_both 1021 ?fs)" by (simp add: set_both_def inodes_ok_init)
  have a: "node_of (clear_entry ?fs1 0 0) 0 = init_node"
    using node_of_node_upd [OF ok, of 0 0 init_node] by (simp add: clear_entry_def)
  have b: "get_bit_map (free_bit_map (clear_entry ?fs1 0 0)) 1021 = 1"
    by (simp add: clear_entry_def set_both_def get_bit_map_set_bit_map length_free_bit_map_init)
  have c: "get_bit_map (free_bit_map (file_system mkssfs_fresh)) 1021 = 0"
    by (simp add: mkssfs_fresh_fields get_bit_map_init)
  have d: "dir0 mkssfs_fresh = replicate MAX_FILES init_dir_entry"
    by (simp add: dir0_mkssfs_fresh init_dir_def)
  show ?thesis using rm a b c d n0 by (simp add: mkssfs_fresh_fields)
qed

section \<open>A removed file is gone (claim C8)\<close>

text \<open>What one run of the enumeration loop produces: nothing, or the name of an entry
  in use.\<close>
lemma gnfn_loop_result:
  "g < MAX_FILES \<Longrightarrow>
   \<exists>out g'. gnfn_loop d g = Some (out, g') \<and> g' \<le> MAX_FILES
      \<and> (\<forall>n. out = Some n \<longrightarrow> (\<exists>k. g \<le> k \<and> k < MAX_FILES \<and> n = name (d ! k) \<and> n \<noteq> []))"
proof (induction d g rule: gnfn_loop.induct)
  case (1 dir g)
  show ?case
  proof (cases "name (dir ! g) \<noteq> []")
    case True
    with "1.prems" show ?thesis by (subst gnfn_loop.simps) auto
  next
    case False
    show ?thesis
    proof (cases "g + 1 = MAX_FILES")
      case True
      with False "1.prems" show ?thesis by (subst gnfn_loop.simps) auto
    next
      case ne: False
      with "1.prems" have lt: "g + 1 < MAX_FILES" by simp
      have ng: "\<not> MAX_FILES \<le> g" using "1.prems" by simp
      from "1.IH" [OF ng _ ne lt] False
      obtain out g' where r: "gnfn_loop dir (g + 1) = Some (out, g')" "g' \<le> MAX_FILES"
        "\<forall>n. out = Some n \<longrightarrow> (\<exists>k. g + 1 \<le> k \<and> k < MAX_FILES \<and> n = name (dir ! k) \<and> n \<noteq> [])"
        by auto
      have "gnfn_loop dir g = gnfn_loop dir (g + 1)"
        using False ne ng by (subst gnfn_loop.simps) simp
      moreover have "\<forall>n. out = Some n \<longrightarrow> (\<exists>k. g \<le> k \<and> k < MAX_FILES \<and> n = name (dir ! k) \<and> n \<noteq> [])"
      proof (intro allI impI)
        fix n assume "out = Some n"
        with r(3) obtain k where "g + 1 \<le> k" "k < MAX_FILES" "n = name (dir ! k)" "n \<noteq> []" by blast
        then show "\<exists>k. g \<le> k \<and> k < MAX_FILES \<and> n = name (dir ! k) \<and> n \<noteq> []"
          by (intro exI [of _ k]) simp
      qed
      ultimately show ?thesis using r(1,2) by simp
    qed
  qed
qed

text \<open>
  Claim C8: let \<open>f\<close> be a non-empty name that the entry \<open>i\<close> of the live directory
  holds, and no other entry (the names of a directory are unique).  When
  \<open>ssfs_remove f\<close> returns, it returns 0; afterwards \<open>ssfs_get_file_size f\<close> is -1, and
  whatever the enumeration index is, a call of \<open>ssfs_get_next_file_name\<close> returns 0
  and copies out either nothing or a name that does not match \<open>f\<close>.  The call changes
  nothing but the index, so this holds for every call of an enumeration.
\<close>
theorem removed_file_is_gone:
  assumes shape: "0 < length (directory (file_system st))" "length (dir0 st) = MAX_FILES"
    and i: "i < MAX_FILES" "strncmp (name (dir0 st ! i)) f MAX_NAME_LENGTH = 0"
    and f: "f \<noteq> []" "hd f \<noteq> CHR 0x00"
    and uniq: "\<forall>j. j < MAX_FILES \<and> strncmp (name (dir0 st ! j)) f MAX_NAME_LENGTH = 0 \<longrightarrow> j = i"
    and rem: "ssfs_remove st f = Some (st', r)"
  shows "r = 0 \<and> ssfs_get_file_size st' f = -1
    \<and> (\<forall>g. g \<le> MAX_FILES \<longrightarrow>
          (\<exists>st'' out. ssfs_get_next_file_name (st'\<lparr>gnfni := g\<rparr>) = Some (st'', out, 0)
              \<and> (\<forall>n. out = Some n \<longrightarrow> strncmp n f MAX_NAME_LENGTH \<noteq> 0)))"
proof -
  let ?st0 = "rm_fd st f"
  have before: "\<And>j. j < i \<Longrightarrow> strncmp (name (dir0 ?st0 ! j)) f MAX_NAME_LENGTH \<noteq> 0"
  proof
    fix j assume "j < i" and "strncmp (name (dir0 ?st0 ! j)) f MAX_NAME_LENGTH = 0"
    with i(1) uniq have "j = i" by simp
    with \<open>j < i\<close> show False by simp
  qed
  have first: "first_index (\<lambda>j. strncmp (name (dir0 ?st0 ! j)) f MAX_NAME_LENGTH = 0) 0 MAX_FILES = Some i"
    using i before by (intro first_index_SomeI) simp_all
  have rem': "rm_file_from_dir ?st0 f = Some (st', r)" using rem by (simp only: ssfs_remove_def)
  have unf: "rm_file_from_dir ?st0 f =
      (case rm_file_from_disk 0 i ?st0 of None \<Rightarrow> None
       | Some fs1 \<Rightarrow> Some (dump_file_system_to_disk (?st0\<lparr>file_system := clear_entry fs1 0 i\<rparr>), 0))"
    by (simp only: rm_file_from_dir_def first option.case)
  from rem' unf obtain fs1 where fs1: "rm_file_from_disk 0 i ?st0 = Some fs1"
    and st': "st' = dump_file_system_to_disk (?st0\<lparr>file_system := clear_entry fs1 0 i\<rparr>)"
    and r: "r = 0"
    by (cases "rm_file_from_disk 0 i ?st0") simp_all
  have "directory fs1 = directory (file_system st)"
    using directory_rm_file_from_disk [OF fs1] by simp
  then have dir': "dir0 st' = (dir0 st)[i := init_dir_entry]"
    using shape by (simp add: st' dir0_def clear_entry_def)
  obtain y ys where fy: "f = y # ys" "y \<noteq> CHR 0x00" using f by (cases f) simp_all
  from fy(2) have "(of_char y :: nat) \<noteq> 0" by (rule of_char_nz)
  then have empty_ne: "strncmp [] f MAX_NAME_LENGTH \<noteq> 0" using fy by simp
  have nomatch: "strncmp (name (dir0 st' ! j)) f MAX_NAME_LENGTH \<noteq> 0" if "j < MAX_FILES" for j
  proof (cases "j = i")
    case True
    with shape that empty_ne show ?thesis by (simp add: dir' init_dir_entry_def)
  next
    case False
    with uniq that have "strncmp (name (dir0 st ! j)) f MAX_NAME_LENGTH \<noteq> 0" by blast
    with False show ?thesis by (simp add: dir')
  qed
  then have "first_index (\<lambda>j. strncmp (name (dir0 st' ! j)) f MAX_NAME_LENGTH = 0) 0 MAX_FILES = None"
    by (simp add: first_index_None)
  then have size: "ssfs_get_file_size st' f = -1" by (simp add: ssfs_get_file_size_def)
  have enum: "\<exists>st'' out. ssfs_get_next_file_name (st'\<lparr>gnfni := g\<rparr>) = Some (st'', out, 0)
              \<and> (\<forall>n. out = Some n \<longrightarrow> strncmp n f MAX_NAME_LENGTH \<noteq> 0)" if g: "g \<le> MAX_FILES" for g
  proof (cases "g = MAX_FILES")
    case True
    then show ?thesis by (simp add: ssfs_get_next_file_name_def)
  next
    case False
    with g have "g < MAX_FILES" by simp
    from gnfn_loop_result [OF this, of "dir0 st'"]
    obtain out g' where l: "gnfn_loop (dir0 st') g = Some (out, g')"
      "\<forall>n. out = Some n \<longrightarrow> (\<exists>k. g \<le> k \<and> k < MAX_FILES \<and> n = name (dir0 st' ! k) \<and> n \<noteq> [])"
      by blast
    have "dir0 (st'\<lparr>gnfni := g\<rparr>) = dir0 st'" by (simp add: dir0_def)
    with l(1) False have "ssfs_get_next_file_name (st'\<lparr>gnfni := g\<rparr>) = Some (st'\<lparr>gnfni := g'\<rparr>, out, 0)"
      by (simp add: ssfs_get_next_file_name_def)
    moreover have "\<forall>n. out = Some n \<longrightarrow> strncmp n f MAX_NAME_LENGTH \<noteq> 0"
      using l(2) nomatch by blast
    ultimately show ?thesis by blast
  qed
  from r size enum show ?thesis by blast
qed

lemma remove_st_file_a: "\<exists>st'. ssfs_remove st_file_a ''a'' = Some (st', 0)"
proof -
  let ?st0 = "rm_fd st_file_a ''a''"
  have first: "first_index (\<lambda>j. strncmp (name (dir0 ?st0 ! j)) ''a'' MAX_NAME_LENGTH = 0) 0 MAX_FILES = Some 0"
    by (rule first_index_SomeI) (simp_all add: dir0_st_file_a)
  have e: "directory (file_system st_file_a) ! 0 ! 0 = \<lparr>name = ''a'', i_node_number = 5\<rparr>"
    using dir0_st_file_a(1) by (simp add: dir0_def)
  have "\<exists>fs1. rm_file_from_disk 0 0 ?st0 = Some fs1"
    by (simp add: rm_file_from_disk_def Let_def e node_of_st_file_a)
  then obtain fs1 where "rm_file_from_disk 0 0 ?st0 = Some fs1" by blast
  then have "rm_file_from_dir ?st0 ''a''
      = Some (dump_file_system_to_disk (?st0\<lparr>file_system := clear_entry fs1 0 0\<rparr>), 0)"
    by (simp only: rm_file_from_dir_def first option.case)
  then show ?thesis by (simp add: ssfs_remove_def)
qed

theorem removed_file_is_gone_witness:
  "ssfs_get_file_size st_file_a ''a'' = 5
   \<and> (\<exists>st'. ssfs_remove st_file_a ''a'' = Some (st', 0)
         \<and> ssfs_get_file_size st' ''a'' = -1
         \<and> (\<exists>st'' out. ssfs_get_next_file_name (st'\<lparr>gnfni := 0\<rparr>) = Some (st'', out, 0)
               \<and> out \<noteq> Some ''a''))"
proof -
  have i: "(0::nat) < MAX_FILES" "strncmp (name (dir0 st_file_a ! 0)) ''a'' MAX_NAME_LENGTH = 0"
    by (simp_all add: dir0_st_file_a)
  have f: "''a'' \<noteq> []" "hd ''a'' \<noteq> CHR 0x00" by simp_all
  have uniq: "\<forall>j. j < MAX_FILES \<and> strncmp (name (dir0 st_file_a ! j)) ''a'' MAX_NAME_LENGTH = 0 \<longrightarrow> j = 0"
  proof (intro allI impI)
    fix j assume j: "j < MAX_FILES \<and> strncmp (name (dir0 st_file_a ! j)) ''a'' MAX_NAME_LENGTH = 0"
    show "j = 0"
    proof (rule ccontr)
      assume "j \<noteq> 0"
      with j have "dir0 st_file_a ! j = init_dir_entry" by (simp add: dir0_st_file_a)
      with j show False by (simp add: init_dir_entry_def)
    qed
  qed
  obtain st' where rem: "ssfs_remove st_file_a ''a'' = Some (st', 0)"
    using remove_st_file_a by blast
  have first: "first_index (\<lambda>j. strncmp (name (dir0 st_file_a ! j)) ''a'' MAX_NAME_LENGTH = 0) 0 MAX_FILES = Some 0"
    by (rule first_index_SomeI) (simp_all add: dir0_st_file_a)
  have size: "ssfs_get_file_size st_file_a ''a'' = 5"
    unfolding ssfs_get_file_size_def using first by (simp add: dir0_st_file_a node_of_st_file_a)
  from removed_file_is_gone [OF shape_st_file_a(1,2) i f uniq rem]
  have gone: "ssfs_get_file_size st' ''a'' = -1"
    and enum: "\<exists>st'' out. ssfs_get_next_file_name (st'\<lparr>gnfni := 0\<rparr>) = Some (st'', out, 0)
              \<and> (\<forall>n. out = Some n \<longrightarrow> strncmp n ''a'' MAX_NAME_LENGTH \<noteq> 0)"
    by simp_all
  from enum obtain st'' out where e: "ssfs_get_next_file_name (st'\<lparr>gnfni := 0\<rparr>) = Some (st'', out, 0)"
    "\<forall>n. out = Some n \<longrightarrow> strncmp n ''a'' MAX_NAME_LENGTH \<noteq> 0" by blast
  have "out \<noteq> Some ''a''"
  proof
    assume "out = Some ''a''"
    with e(2) have "strncmp ''a'' ''a'' MAX_NAME_LENGTH \<noteq> 0" by blast
    then show False by simp
  qed
  with size rem gone e(1) show ?thesis by blast
qed

section \<open>Names are compared and stored by their first 20 characters (claim C9)\<close>

lemma agree_strncpy: "take MAX_NAME_LENGTH f = take MAX_NAME_LENGTH g \<Longrightarrow>
  strncpy_c f MAX_NAME_LENGTH = strncpy_c g MAX_NAME_LENGTH"
  by (simp add: strncpy_c_def)

lemma agree_empty: "take MAX_NAME_LENGTH f = take MAX_NAME_LENGTH g \<Longrightarrow> (length f = 0) = (length g = 0)"
  by (cases f; cases g) auto

lemma agree_add_file_to_dir:
  assumes "take MAX_NAME_LENGTH f = take MAX_NAME_LENGTH g"
  shows "add_file_to_dir st f a b = add_file_to_dir st g a b"
  unfolding add_file_to_dir_def by (simp only: agree_strncpy [OF assms])

lemma agree_fopen_new:
  assumes "take MAX_NAME_LENGTH f = take MAX_NAME_LENGTH g"
  shows "fopen_new st f = fopen_new st g"
  unfolding fopen_new_def
  by (simp only: agree_strncpy [OF assms] agree_add_file_to_dir [OF assms] strncmp_agree_right [OF assms])

lemma agree_fopen_existing:
  assumes "take MAX_NAME_LENGTH f = take MAX_NAME_LENGTH g"
  shows "fopen_existing st f e = fopen_existing st g e"
  unfolding fopen_existing_def create_open_file_entry_def set_fopen_name_def
  by (simp only: agree_strncpy [OF assms] strncmp_agree_left [OF assms])

lemma agree_fopen:
  assumes "take MAX_NAME_LENGTH f = take MAX_NAME_LENGTH g"
  shows "ssfs_fopen st (Some f) = ssfs_fopen st (Some g)"
  unfolding ssfs_fopen_def option.case
  by (simp only: agree_empty [OF assms] agree_fopen_new [OF assms] agree_fopen_existing [OF assms]
      strncmp_agree_right [OF assms] cong: option.case_cong if_cong)

lemma agree_remove:
  assumes "take MAX_NAME_LENGTH f = take MAX_NAME_LENGTH g"
  shows "ssfs_remove st f = ssfs_remove st g"
  unfolding ssfs_remove_def rm_file_from_dir_def rm_fd_def
  by (simp only: strncmp_agree_right [OF assms])

lemma agree_get_file_size:
  assumes "take MAX_NAME_LENGTH f = take MAX_NAME_LENGTH g"
  shows "ssfs_get_file_size st f = ssfs_get_file_size st g"
  unfolding ssfs_get_file_size_def
  by (simp only: strncmp_agree_right [OF assms])

text \<open>A successful \<open>add_file_to_dir\<close> fills the first empty entry of the live directory
  with the first \<open>MAX_NAME_LENGTH\<close> characters of the name.\<close>
lemma add_file_to_dir_success:
  assumes "add_file_to_dir st nm a b = (st1, e, ib, jb)" and "0 \<le> e"
    and "0 < length (directory (file_system st))" and "length (dir0 st) = MAX_FILES"
  shows "\<exists>ei. e = int ei \<and> ei < MAX_FILES \<and> name (dir0 st ! ei) = []
           \<and> name (dir0 st1 ! ei) = take MAX_NAME_LENGTH nm
           \<and> open_file_table st1 = open_file_table st"
proof (cases "first_index (\<lambda>i. name (directory (file_system st) ! 0 ! i) = []) 0 MAX_FILES")
  case None
  with assms(1,2) show ?thesis by (simp add: add_file_to_dir_def)
next
  case (Some ei)
  then have ei: "ei < MAX_FILES" "name (dir0 st ! ei) = []"
    by (simp_all add: first_index_Some dir0_def)
  show ?thesis
  proof (cases "get_free_i_node (file_system st)")
    case None
    with Some assms(1,2) show ?thesis by (simp add: add_file_to_dir_def)
  next
    case (Some ij)
    obtain ib' jb' where ij: "ij = (ib', jb')" by (cases ij)
    obtain fs1 blk where gfb: "get_free_block (file_system st) = (fs1, blk)"
      by (cases "get_free_block (file_system st)")
    have dir1: "directory fs1 = directory (file_system st)"
      using gfb by (auto simp: get_free_block_def split: option.splits)
    show ?thesis
    proof (cases "blk = -1")
      case True
      with \<open>first_index _ 0 MAX_FILES = Some ei\<close> Some ij gfb assms(1,2) show ?thesis
        by (simp add: add_file_to_dir_def)
    next
      case False
      with \<open>first_index _ 0 MAX_FILES = Some ei\<close> Some ij gfb assms(1)
      have e: "e = int ei"
        and d: "directory (file_system st1)
                = (directory fs1)[0 := (directory fs1 ! 0)[ei :=
                     (directory fs1 ! 0 ! ei)\<lparr>name := strncpy_c nm MAX_NAME_LENGTH,
                        i_node_number := word_of_int (int jb' + int ib' * int MAX_NODE_IN_BLOCK)\<rparr>]]"
        and o: "open_file_table st1 = open_file_table st"
        by (auto simp add: add_file_to_dir_def Let_def)
      have "name (dir0 st1 ! ei) = take MAX_NAME_LENGTH nm"
        using d dir1 assms(3,4) ei(1) by (simp add: dir0_def strncpy_c_def)
      with e ei o show ?thesis by blast
    qed
  qed
qed


text \<open>
  Claim C9: every comparison and every storing of a file name uses its first
  \<open>MAX_NAME_LENGTH\<close> (20) characters only.  For two names that agree on their first 20
  characters, \<open>ssfs_fopen\<close>, \<open>ssfs_remove\<close> and \<open>ssfs_get_file_size\<close> give the same result
  and the same state.  When \<open>ssfs_fopen\<close> creates a file (the name matching no entry of
  the live directory and no descriptor), the directory entry that it fills and the
  descriptor that it returns hold the name truncated to its first 20 characters.
\<close>
theorem names_use_first_20_characters:
  assumes "take MAX_NAME_LENGTH f = take MAX_NAME_LENGTH g"
  shows "ssfs_fopen st (Some f) = ssfs_fopen st (Some g)
    \<and> ssfs_remove st f = ssfs_remove st g
    \<and> ssfs_get_file_size st f = ssfs_get_file_size st g
    \<and> (\<forall>st' fd.
          0 < length (directory (file_system st)) \<and> length (dir0 st) = MAX_FILES
          \<and> length (open_file_table st) = MAX_FD
          \<and> (\<forall>i. i < MAX_FILES \<longrightarrow> strncmp (name (dir0 st ! i)) f MAX_NAME_LENGTH \<noteq> 0)
          \<and> (\<forall>i. i < MAX_FD \<longrightarrow> strncmp (name (entry (open_file_table st ! i))) f MAX_NAME_LENGTH \<noteq> 0)
          \<and> ssfs_fopen st (Some f) = Some (st', fd) \<and> 0 \<le> fd
          \<longrightarrow> (\<exists>e. e < MAX_FILES \<and> name (dir0 st ! e) = []
                    \<and> name (dir0 st' ! e) = take MAX_NAME_LENGTH f)
              \<and> name (entry (open_file_table st' ! nat fd)) = take MAX_NAME_LENGTH f)"
proof (intro conjI allI impI)
  show "ssfs_fopen st (Some f) = ssfs_fopen st (Some g)" by (rule agree_fopen [OF assms])
  show "ssfs_remove st f = ssfs_remove st g" by (rule agree_remove [OF assms])
  show "ssfs_get_file_size st f = ssfs_get_file_size st g" by (rule agree_get_file_size [OF assms])
next
  fix st' fd
  assume a: "0 < length (directory (file_system st)) \<and> length (dir0 st) = MAX_FILES
          \<and> length (open_file_table st) = MAX_FD
          \<and> (\<forall>i. i < MAX_FILES \<longrightarrow> strncmp (name (dir0 st ! i)) f MAX_NAME_LENGTH \<noteq> 0)
          \<and> (\<forall>i. i < MAX_FD \<longrightarrow> strncmp (name (entry (open_file_table st ! i))) f MAX_NAME_LENGTH \<noteq> 0)
          \<and> ssfs_fopen st (Some f) = Some (st', fd) \<and> 0 \<le> fd"
  then have nodir: "first_index (\<lambda>i. strncmp (name (dir0 st ! i)) f MAX_NAME_LENGTH = 0) 0 MAX_FILES = None"
    and nofd: "first_index (\<lambda>i. strncmp (name (entry (open_file_table st ! i))) f MAX_NAME_LENGTH = 0) 0 MAX_FD = None"
    by (simp_all add: first_index_None)
  from a nodir have new: "fopen_new st f = Some (st', fd)"
    by (auto simp: ssfs_fopen_def split: if_splits)
  then obtain i where i: "free_fd st = Some i"
    using nofd by (auto simp: fopen_new_def split: option.splits)
  then have ilt: "i < MAX_FD" by (simp add: free_fd_def first_index_Some)
  obtain st1 e ib jb where add: "add_file_to_dir st f (-1) (-1) = (st1, e, ib, jb)"
    by (cases "add_file_to_dir st f (-1) (-1)") auto
  from new nofd i add a have e0: "0 \<le> e"
    by (auto simp: fopen_new_def split: if_splits)
  with new nofd i add have fd: "fd = int i"
    and st': "st' = fd_upd st1 i
                (\<lambda>f'. \<lparr>entry = \<lparr>name = strncpy_c f MAX_NAME_LENGTH,
                                i_node_number = i_node_number (dir0 st1 ! nat e)\<rparr>,
                       read_pointer = \<lparr>block = pointer (get_node (file_system st1) (nat ib) (nat jb)) ! 0, c_ptr = 0\<rparr>,
                       write_pointer = \<lparr>block = pointer (get_node (file_system st1) (nat ib) (nat jb)) ! 0, c_ptr = 0\<rparr>\<rparr>)"
    by (auto simp: fopen_new_def Let_def split: if_splits)
  from add_file_to_dir_success [OF add e0] a
  obtain ei where ei: "ei < MAX_FILES" "name (dir0 st ! ei) = []"
    "name (dir0 st1 ! ei) = take MAX_NAME_LENGTH f" "open_file_table st1 = open_file_table st"
    by auto
  show "\<exists>e. e < MAX_FILES \<and> name (dir0 st ! e) = [] \<and> name (dir0 st' ! e) = take MAX_NAME_LENGTH f"
    using ei st' by auto
  show "name (entry (open_file_table st' ! nat fd)) = take MAX_NAME_LENGTH f"
    using st' fd ilt ei(4) a by (simp add: strncpy_c_def)
qed

lemma fopen_fresh_long_name: "\<exists>st'. ssfs_fopen mkssfs_fresh (Some long_name_1) = Some (st', 0)"
proof -
  have nodir: "first_index (\<lambda>i. strncmp (name (dir0 mkssfs_fresh ! i)) long_name_1 MAX_NAME_LENGTH = 0) 0 MAX_FILES = None"
    by (simp add: first_index_None dir0_mkssfs_fresh init_dir_def init_dir_entry_def long_name_1_def)
  have nofd: "first_index (\<lambda>i. strncmp (name (entry (open_file_table mkssfs_fresh ! i))) long_name_1 MAX_NAME_LENGTH = 0) 0 MAX_FD = None"
    by (simp add: first_index_None oft_mkssfs_fresh init_fd_def init_dir_entry_def long_name_1_def)
  obtain st1 where add: "add_file_to_dir mkssfs_fresh long_name_1 (-1) (-1) = (st1, 0, 0, 5)"
    using add_file_to_dir_fresh by blast
  have "\<exists>st'. fopen_new mkssfs_fresh long_name_1 = Some (st', 0)"
    using nofd add by (simp add: fopen_new_def free_fd_mkssfs_fresh Let_def)
  moreover have "long_name_1 \<noteq> []" by (simp add: long_name_1_def)
  ultimately show ?thesis
    using nodir by (simp add: ssfs_fopen_def check_fd_full_def free_fd_mkssfs_fresh)
qed

theorem names_use_first_20_characters_witness:
  "take MAX_NAME_LENGTH long_name_1 = ''abcdefghijklmnopqrst''
   \<and> take MAX_NAME_LENGTH long_name_2 = ''abcdefghijklmnopqrst''
   \<and> ssfs_remove st_file_a long_name_1 = ssfs_remove st_file_a long_name_2
   \<and> ssfs_get_file_size st_file_a long_name_1 = ssfs_get_file_size st_file_a long_name_2
   \<and> (\<exists>st' e. ssfs_fopen mkssfs_fresh (Some long_name_1) = Some (st', 0)
         \<and> ssfs_fopen mkssfs_fresh (Some long_name_2) = Some (st', 0)
         \<and> e < MAX_FILES \<and> name (dir0 st' ! e) = ''abcdefghijklmnopqrst''
         \<and> name (entry (open_file_table st' ! 0)) = ''abcdefghijklmnopqrst'')"
proof -
  have t1: "take MAX_NAME_LENGTH long_name_1 = ''abcdefghijklmnopqrst''"
    and t2: "take MAX_NAME_LENGTH long_name_2 = ''abcdefghijklmnopqrst''"
    by (simp_all add: long_name_1_def long_name_2_def)
  then have agree: "take MAX_NAME_LENGTH long_name_1 = take MAX_NAME_LENGTH long_name_2" by simp
  obtain st' where op: "ssfs_fopen mkssfs_fresh (Some long_name_1) = Some (st', 0)"
    using fopen_fresh_long_name by blast
  have shape: "0 < length (directory (file_system mkssfs_fresh))" "length (dir0 mkssfs_fresh) = MAX_FILES"
    "length (open_file_table mkssfs_fresh) = MAX_FD"
    by (simp_all add: mkssfs_fresh_fields directory_init dir0_mkssfs_fresh init_dir_def init_open_file_table_def)
  have nodir: "\<forall>i. i < MAX_FILES \<longrightarrow> strncmp (name (dir0 mkssfs_fresh ! i)) long_name_1 MAX_NAME_LENGTH \<noteq> 0"
    by (simp add: dir0_mkssfs_fresh init_dir_def init_dir_entry_def long_name_1_def)
  have nofd: "\<forall>i. i < MAX_FD \<longrightarrow> strncmp (name (entry (open_file_table mkssfs_fresh ! i))) long_name_1 MAX_NAME_LENGTH \<noteq> 0"
    by (simp add: oft_mkssfs_fresh init_fd_def init_dir_entry_def long_name_1_def)
  note inst = names_use_first_20_characters [OF agree]
  from inst [of st_file_a] have r: "ssfs_remove st_file_a long_name_1 = ssfs_remove st_file_a long_name_2"
    and s: "ssfs_get_file_size st_file_a long_name_1 = ssfs_get_file_size st_file_a long_name_2"
    by blast+
  from inst [of mkssfs_fresh] have o2: "ssfs_fopen mkssfs_fresh (Some long_name_1) = ssfs_fopen mkssfs_fresh (Some long_name_2)"
    by blast
  from inst [of mkssfs_fresh] shape nodir nofd op
  have "(\<exists>e. e < MAX_FILES \<and> name (dir0 mkssfs_fresh ! e) = []
                    \<and> name (dir0 st' ! e) = take MAX_NAME_LENGTH long_name_1)
              \<and> name (entry (open_file_table st' ! nat 0)) = take MAX_NAME_LENGTH long_name_1"
    by (elim conjE allE [of _ st']) blast
  with t1 t2 r s op o2 show ?thesis by auto
qed

section \<open>Appending a block to a full file (claim C3)\<close>

text \<open>
  Claim C3 is not met by the code.  On the largest file, whose direct pointers and
  indirect block are full, \<open>add_block\<close> takes the free block 285 from the free bit map,
  finds no pointer slot and returns -1, but the bit of block 285 stays cleared: the
  block is not released, unlike on the path where the indirect block cannot be
  allocated.
\<close>
theorem add_block_full_leaks_block:
  "\<exists>st'. add_block st_full 5 = Some (st', -1)
      \<and> get_bit_map (free_bit_map (file_system st_full)) 285 = 1
      \<and> get_bit_map (free_bit_map (file_system st')) 285 = 0"
proof -
  let ?fs1 = "(file_system st_full)\<lparr>free_bit_map := clr_bit_map (free_bit_map (file_system st_full)) 285\<rparr>"
  have "add_block st_full 5 = Some (st_full\<lparr>file_system := ?fs1\<rparr>, -1)"
    using direct_full_st_full indirect_full_st_full
    by (simp add: add_block_def get_free_block_st_full Let_def node_of_st_full read_ind_st_full
        del: upt_rec_numeral)
  moreover have "get_bit_map (free_bit_map ?fs1) 285 = 0"
    by (simp add: get_bit_map_clr_bit_map length_free_bit_map_st_full)
  moreover have "get_bit_map (free_bit_map (file_system st_full)) 285 = 1"
    by (simp add: free_bit_map_st_full)
  ultimately show ?thesis by simp
qed

section \<open>Seeking (claim C6)\<close>

text \<open>
  Claim C6 is not met by the code for an offset at or beyond
  \<open>(NUMBER_OF_POINTERS + POINTERS_IND_BLOCK) * NUMBER_OF_BYTES_BLOCK = 276480\<close> in a file
  that has an indirect block.  No block of the file contains such an offset, and the
  seek should return -1; \<open>seek_block\<close> instead indexes the 256 pointers of the indirect
  block with \<open>block_in_ind_block = 256\<close> or more, without a bound check, and the seek has
  no defined result.
\<close>
theorem seek_beyond_indirect_block:
  "name (entry (open_file_table st_full ! 0)) = ''a''
   \<and> ssfs_frseek st_full 0 276480 = None \<and> ssfs_fwseek st_full 0 276480 = None"
proof -
  have "seek_block st_full 0 276480 = None"
    by (simp add: seek_block_def fd_inn_def oft_st_full node_of_st_full read_ind_st_full Let_def
        del: upt_rec_numeral)
  then show ?thesis
    by (simp add: ssfs_frseek_def ssfs_fwseek_def oft_st_full)
qed

section \<open>Commit and restore (claim C1)\<close>

text \<open>
  Claim C1 is not met by the code.  \<open>copy_file\<close> takes a free block for every block of
  the source after the first, but never stores it into the i-node of the copy, and
  copies the data to the block that the (zero) pointer of the copy names.  Committing
  the two-block file \<open>a\<close> (i-node 5, blocks 14 and 15, 1034 bytes) leaves a live file \<open>a\<close>
  (i-node 6) that has the size 1034 and the single block 16: its second block is
  lost, and so are the bytes beyond the first block.  \<open>ssfs_restore\<close> builds the live
  directory from a snapshot by the same \<open>copy_file\<close>.
\<close>
theorem commit_clone_loses_second_block:
  "node_of (file_system st_two) 5
     = \<lparr>size_n = 1034, pointer = [14, 15, 0, 0, 0, 0, 0, 0, 0, 0, 0, 0, 0, 0], ind_pointer = 0\<rparr>
   \<and> dir0 st_two ! 0 = \<lparr>name = ''a'', i_node_number = 5\<rparr>
   \<and> (\<exists>st'. ssfs_commit st_two = Some (st', 0)
         \<and> dir0 st' ! 0 = \<lparr>name = ''a'', i_node_number = 6\<rparr>
         \<and> node_of (file_system st') 6
             = \<lparr>size_n = 1034, pointer = [16, 0, 0, 0, 0, 0, 0, 0, 0, 0, 0, 0, 0, 0], ind_pointer = 0\<rparr>)"
proof -
  let ?fs0 = "file_system st_two"
  let ?d0 = "init_dir[0 := \<lparr>name = ''a'', i_node_number = 5\<rparr>]"
  define st3 where "st3 = zero_dir0 ((dump_file_system_to_disk st_two)
      \<lparr>file_system := ?fs0\<lparr>directory := rotate_dirs (directory ?fs0)\<rparr>\<rparr>)"
  have commit: "ssfs_commit st_two =
      (case restore_shadow_directory st3 1 of None \<Rightarrow> None
       | Some (st4, r) \<Rightarrow> Some (dump_file_system_to_disk st4, 0))"
    by (simp add: ssfs_commit_def free_shadow_st_two st3_def Let_def)
  have fs3: "file_system st3 = ?fs0\<lparr>directory := (replicate 5 init_dir)[0 := ?d0, 1 := ?d0, 0 := init_dir]\<rparr>"
    by (simp add: st3_def zero_dir0_def directory_st_two rotate_st_two)
  have dir3: "directory (file_system st3) ! 0 = init_dir" "directory (file_system st3) ! 1 = ?d0"
    "length (directory (file_system st3)) = 5"
    by (simp_all add: fs3)
  have node3: "node_of (file_system st3) k = node_of ?fs0 k" for k by (simp add: fs3)
  have ok3: "inodes_ok (file_system st3)" by (simp add: fs3 inodes_ok_st_two)
  have fbm3: "free_bit_map (file_system st3) = free_bit_map ?fs0" by (simp add: fs3)
  have disk3: "disk st3 b = disk st_two b" if "FIRST_DATA_BLOCK \<le> b" "b \<le> LAST_DATA_BLOCK" for b
    using disk_dump_data [OF that] by (simp add: st3_def zero_dir0_def)
  \<comment> \<open>the entry is added\<close>
  have ei: "first_index (\<lambda>i. name (directory (file_system st3) ! 0 ! i) = []) 0 MAX_FILES = Some 0"
    by (rule first_index_SomeI) (simp_all add: dir3 init_dir_nth init_dir_entry_def)
  have "first_index (\<lambda>k. pointer (node_of (file_system st3) k) ! 0 = 0) 0 (BLOCKS_I_NODE_FILE * MAX_NODE_IN_BLOCK) = Some 6"
  proof (rule first_index_SomeI)
    fix j :: nat assume "j < 6"
    then consider "j = 0" | "j = 1" | "j = 2" | "j = 3" | "j = 4" | "j = 5" by linarith
    then show "pointer (node_of (file_system st3) j) ! 0 \<noteq> 0"
      by cases (simp_all add: node3 node_of_st_two dir_node_def)
  qed (simp_all add: node3 node_of_st_two init_node_def)
  then have ij: "get_free_i_node (file_system st3) = Some (0, 6)"
    by (simp add: get_free_i_node_def node_number_to_block_def node_number_to_node_in_block_def)
  have "first_index (\<lambda>i. get_bit_map (free_bit_map (file_system st3)) i \<noteq> 0)
          FIRST_DATA_BLOCK (LAST_DATA_BLOCK + 1) = Some 16"
    by (rule first_index_SomeI) (simp_all add: fbm3 free_bit_map_st_two)
  then have gfb: "get_free_block (file_system st3)
      = ((file_system st3)\<lparr>free_bit_map := clr_bit_map (free_bit_map ?fs0) 16\<rparr>, 16)"
    by (simp add: get_free_block_def fbm3)
  from add_file_to_dir_effect [OF ei ij gfb _ ok3, of "''a''" 0 0]
  obtain st4 where add: "add_file_to_dir st3 ''a'' 0 0 = (st4, 0, 0, 6)"
    and dir4: "directory (file_system st4) = (directory (file_system st3))[0 := (directory (file_system st3) ! 0)[0 :=
             \<lparr>name = ''a'', i_node_number = 6\<rparr>]]"
    and node4: "\<And>k. k < 208 \<Longrightarrow> node_of (file_system st4) k =
          (if k = 6 then (node_of (file_system st3) k)
                  \<lparr>size_n := 0, pointer := (pointer (node_of (file_system st3) k))[0 := 16]\<rparr>
           else node_of (file_system st3) k)"
    and fbm4: "free_bit_map (file_system st4) = clr_bit_map (free_bit_map ?fs0) 16"
    and ok4: "inodes_ok (file_system st4)"
    and disk4: "\<And>b. FIRST_DATA_BLOCK \<le> b \<and> b \<le> LAST_DATA_BLOCK \<Longrightarrow> disk st4 b = disk st3 b"
    by auto
  \<comment> \<open>the file is copied\<close>
  have po: "pointer (node_of (file_system st4) 5) = 14 # 15 # 0 # [0, 0, 0, 0, 0, 0, 0, 0, 0, 0, 0]"
    by (simp add: node4 node3 node_of_st_two)
  have pc: "pointer (node_of (file_system st4) 6) = 16 # 0 # 0 # replicate 11 0"
    by (simp add: node4 node3 node_of_st_two init_node_def replicate_14_update)
  have r0: "read_data_block (disk st4) (sint (14 :: 32 word)) = Some (replicate 1024 7)"
    by (simp add: read_data_block_def read_blocks_def disk4 disk3 disk_st_two)
  have r1: "read_data_block (write_blocks (disk st4) (sint (16 :: 32 word)) (Bytes (replicate 1024 7))) (sint (15 :: 32 word))
            = Some (replicate 10 8 @ replicate 1014 0)"
    by (simp add: read_data_block_def read_blocks_def write_blocks_def disk4 disk3 disk_st_two)
  have bits4: "get_bit_map (free_bit_map (file_system st4)) b = (if b < 17 \<or> 1016 \<le> b then 0 else 1)"
    if "b < 1024" for b
    using that by (auto simp add: fbm4 get_bit_map_clr_bit_map length_free_bit_map_st_two free_bit_map_st_two)
  have "first_index (\<lambda>i. get_bit_map (free_bit_map (file_system st4)) i \<noteq> 0)
          FIRST_DATA_BLOCK (LAST_DATA_BLOCK + 1) = Some 17"
    by (rule first_index_SomeI) (simp_all add: bits4)
  then have gfb4: "get_free_block (file_system st4)
      = ((file_system st4)\<lparr>free_bit_map := clr_bit_map (free_bit_map (file_system st4)) 17\<rparr>, 17)"
    by (simp add: get_free_block_def)
  from copy_file_two_blocks [OF ok4 _ _ _ po _ pc r0 r1 gfb4]
  obtain st5 where copy: "copy_file st4 5 6 = Some (st5, 0)"
    and node5: "\<And>k. k < 208 \<Longrightarrow> node_of (file_system st5) k =
          (if k = 6 then (node_of (file_system st4) 6)\<lparr>size_n := size_n (node_of (file_system st4) 5)\<rparr>
           else node_of (file_system st4) k)"
    and dir5: "directory (file_system st5) = directory (file_system st4)"
    by auto
  \<comment> \<open>the other entries of the snapshot are empty\<close>
  have d51: "directory (file_system st5) ! 1 = ?d0"
    using dir3 by (simp add: dir5 dir4)
  have "name (directory (file_system st5) ! 1 ! i) = []" if "i \<in> set [1 ..< MAX_FILES]" for i
  proof -
    from that have "0 < i" "i < MAX_FILES" by (simp_all del: upt_rec_numeral)
    then show ?thesis unfolding d51 by (simp add: init_dir_nth init_dir_entry_def)
  qed
  then have rest: "restore_entries 1 st5 [1 ..< MAX_FILES] = Some (st5, False)"
    by (intro restore_entries_empty) blast
  have upt: "[0 ..< MAX_FILES] = 0 # [1 ..< MAX_FILES]" by (simp add: upt_conv_Cons del: upt_rec_numeral)
  have ent: "directory (file_system st3) ! 1 ! 0 = \<lparr>name = ''a'', i_node_number = 5\<rparr>"
    using dir3 by simp
  have ent4: "directory (file_system st4) ! 1 ! 0 = \<lparr>name = ''a'', i_node_number = 5\<rparr>"
    "directory (file_system st4) ! 0 ! 0 = \<lparr>name = ''a'', i_node_number = 6\<rparr>"
    using dir3 by (simp_all add: dir4)
  have "restore_entries 1 st3 [0 ..< MAX_FILES] = Some (st5, False)"
    unfolding upt using add copy rest ent ent4 by (simp add: Let_def del: upt_rec_numeral)
  then have "restore_shadow_directory st3 1 = Some (dump_file_system_to_disk st5, None)"
    by (simp add: restore_shadow_directory_def del: upt_rec_numeral)
  with commit have run: "ssfs_commit st_two
      = Some (dump_file_system_to_disk (dump_file_system_to_disk st5), 0)"
    by simp
  have n6: "node_of (file_system st5) 6
             = \<lparr>size_n = 1034, pointer = [16, 0, 0, 0, 0, 0, 0, 0, 0, 0, 0, 0, 0, 0], ind_pointer = 0\<rparr>"
    by (simp add: node5 node4 node3 node_of_st_two init_node_def replicate_14_update numeral_eq_Suc)
  have d6: "dir0 st5 ! 0 = \<lparr>name = ''a'', i_node_number = 6\<rparr>"
    by (simp add: dir0_def dir5 ent4)
  have before: "node_of ?fs0 5
     = \<lparr>size_n = 1034, pointer = [14, 15, 0, 0, 0, 0, 0, 0, 0, 0, 0, 0, 0, 0], ind_pointer = 0\<rparr>"
    "dir0 st_two ! 0 = \<lparr>name = ''a'', i_node_number = 5\<rparr>"
    by (simp_all add: node_of_st_two dir0_def directory_st_two)
  from run n6 d6 before show ?thesis by simp
qed

section \<open>Reading up to the end of the file (claim C7)\<close>

text \<open>
  Claim C7, as stated: it fails.  Descriptor 0 of \<open>st_stale_fd\<close> is open on the name \<open>a\<close>,
  whose file is gone from the live directory: its i-node 5 is unused, with the size -1,
  no block, and the end-of-file position (-1, -1).  \<open>ssfs_fread\<close> of 10 bytes does not stop
  at an end of file: it stores the first 10 bytes of block 14, where the read cursor
  was left, and returns 10.  And on the file \<open>a\<close> of 5 bytes, \<open>ssfs_fread\<close> of the length -1
  reads nothing and returns 0, which is not at most -1.
\<close>
theorem fread_stale_descriptor_counterexample:
  "name (entry (open_file_table st_stale_fd ! 0)) = ''a''
   \<and> get_file_size st_stale_fd (fd_inn st_stale_fd 0) = -1
   \<and> get_last_file_block st_stale_fd (fd_inn st_stale_fd 0) = Some (-1)
   \<and> get_end_char st_stale_fd (fd_inn st_stale_fd 0) = Some (-1)
   \<and> ssfs_fread st_stale_fd 0 True 10
       = Some (st_stale_fd\<lparr>open_file_table :=
                 init_open_file_table[0 := \<lparr>entry = \<lparr>name = ''a'', i_node_number = 5\<rparr>,
                                            read_pointer = \<lparr>block = 14, c_ptr = 10\<rparr>,
                                            write_pointer = \<lparr>block = 14, c_ptr = 0\<rparr>\<rparr>]\<rparr>,
               replicate 10 0, 10)
   \<and> ssfs_fread st_file_a 0 True (-1) = Some (st_file_a, [], 0)"
proof -
  have inn: "fd_inn st_stale_fd 0 = 5" by (simp add: fd_inn_def oft_st_stale_fd)
  have sz: "get_file_size st_stale_fd 5 = -1"
    by (simp add: get_file_size_def node_of_st_stale_fd init_node_def)
  have lb: "get_last_file_block st_stale_fd 5 = Some (-1)"
    by (simp add: get_last_file_block_def node_of_st_stale_fd init_node_def scan_last_takeWhile
        Let_def)
  have lc: "get_end_char st_stale_fd 5 = Some (-1)"
    by (simp add: get_end_char_def sz smod_int_alt_def)
  have rd: "read_data_block (disk st_stale_fd) 14 = Some (replicate 1024 0)"
    by (simp add: read_data_block_def read_blocks_def disk_st_stale_fd)
  have fill: "fread_fill 5 10 (-1) (-1) st_stale_fd 14 0 [] 0 = Some (14, 10, replicate 10 0, 10)"
    by (subst fread_fill.simps) (simp add: rd fread_copy_zeros)
  have a: "ssfs_fread st_stale_fd 0 True 10
       = Some (st_stale_fd\<lparr>open_file_table :=
                 init_open_file_table[0 := \<lparr>entry = \<lparr>name = ''a'', i_node_number = 5\<rparr>,
                                            read_pointer = \<lparr>block = 14, c_ptr = 10\<rparr>,
                                            write_pointer = \<lparr>block = 14, c_ptr = 0\<rparr>\<rparr>]\<rparr>,
               replicate 10 0, 10)"
    by (simp add: ssfs_fread_def Let_def oft_st_stale_fd inn lb lc fill fd_upd_def)
       (simp add: st_stale_fd_def mkssfs_fresh_fields)
  have rd2: "read_data_block (disk st_file_a) 14 \<noteq> None" by (simp add: read_block_st_file_a)
  have cp: "fread_copy (-1) 14 14 5 db [] 0 0 = ([], 0, 0)" for db
    by (subst fread_copy.simps) simp
  have fill2: "fread_fill 5 (-1) 14 5 st_file_a 14 0 [] 0 = Some (14, 0, [], 0)"
    by (subst fread_fill.simps) (simp add: read_block_st_file_a cp)
  have lb2: "get_last_file_block st_file_a 5 = Some 14"
    using get_last_file_block_ok [OF file_ok_st_file_a] by (simp add: file_chain_st_file_a)
  have b: "ssfs_fread st_file_a 0 True (-1) = Some (st_file_a, [], 0)"
    using fd_upd_same_read_pointer [of st_file_a 0]
    by (simp add: ssfs_fread_def Let_def oft_st_file_a fd_inn_st_file_a lb2 get_end_char_st_file_a fill2)
  show ?thesis using oft_st_stale_fd a b by (simp add: inn sz lb lc)
qed

text \<open>
  Claim C7, amended: \<open>ssfs_fread\<close> on a descriptor whose entry has an empty name returns -1
  and changes nothing.  On an open descriptor it returns 0 for a null buffer; for a
  well-formed file and a read cursor at byte \<open>c_ptr\<close> of the \<open>k\<close>-th block of the file,
  not behind the end-of-file position \<open>(last_block, end_byte)\<close>, it returns the number
  of bytes stored into the buffer, which is the smaller of \<open>n\<close> and the number of bytes
  between the cursor and the end of the file, and 0 for a negative \<open>n\<close>; only the read
  cursor changes, and it has advanced by the bytes read, so that it stops at the
  end-of-file position when \<open>n\<close> reaches beyond it.
\<close>
theorem fread_returns_bytes_read:
  assumes f: "f = open_file_table st ! nat fileID"
    and ch: "chain = file_chain st (fd_inn st fileID)"
    and cc: "cc = sint (c_ptr (read_pointer f))"
  shows
    "(name (entry f) = [] \<longrightarrow> ssfs_fread st fileID buf_given n = Some (st, [], -1))
     \<and> (name (entry f) \<noteq> [] \<longrightarrow> ssfs_fread st fileID False n = Some (st, [], 0))
     \<and> (name (entry f) \<noteq> [] \<and> file_ok st (fd_inn st fileID)
          \<and> k < length chain \<and> block (read_pointer f) = chain ! k \<and> 0 \<le> cc \<and> cc \<le> 1024
          \<and> int k * 1024 + cc \<le> eof_pos st (fd_inn st fileID)
        \<longrightarrow> (\<exists>out k' cc'.
              ssfs_fread st fileID True n
                = Some (fd_upd st (nat fileID)
                          (\<lambda>f. f\<lparr>read_pointer := \<lparr>block = chain ! k', c_ptr = word_of_int cc'\<rparr>\<rparr>),
                        out, int (length out))
              \<and> int (length out) = max 0 (min n (eof_pos st (fd_inn st fileID) - (int k * 1024 + cc)))
              \<and> k' < length chain \<and> 0 \<le> cc' \<and> cc' \<le> 1024
              \<and> int k' * 1024 + cc' = int k * 1024 + cc + int (length out)))"
proof (intro conjI impI)
  assume "name (entry f) = []"
  then show "ssfs_fread st fileID buf_given n = Some (st, [], -1)"
    by (simp add: ssfs_fread_def Let_def f)
next
  assume "name (entry f) \<noteq> []"
  then show "ssfs_fread st fileID False n = Some (st, [], 0)"
    by (simp add: ssfs_fread_def Let_def f)
next
  let ?inn = "fd_inn st fileID"
  let ?pos = "int k * 1024 + cc"
  assume a: "name (entry f) \<noteq> [] \<and> file_ok st ?inn
          \<and> k < length chain \<and> block (read_pointer f) = chain ! k \<and> 0 \<le> cc \<and> cc \<le> 1024
          \<and> ?pos \<le> eof_pos st ?inn"
  then have nm: "name (entry f) \<noteq> []" and ok: "file_ok st ?inn"
    and k: "k < length chain" and blk: "block (read_pointer f) = chain ! k"
    and c: "0 \<le> cc" "cc \<le> 1024" and pos: "?pos \<le> eof_pos st ?inn" by simp_all
  obtain lc where lc: "get_end_char st ?inn = Some lc" "0 \<le> lc" "lc \<le> 1024"
    using get_end_char_ok [OF ok] by blast
  have eof: "eof_pos st ?inn = (int (length chain) - 1) * 1024 + lc"
    by (simp add: eof_pos_def lc ch)
  have lb: "get_last_file_block st ?inn = Some (sint (last (file_chain st ?inn)))"
    using get_last_file_block_ok [OF ok] .
  consider "n = 0" | "0 < n" | "n < 0" by linarith
  then show "\<exists>out k' cc'.
              ssfs_fread st fileID True n
                = Some (fd_upd st (nat fileID)
                          (\<lambda>f. f\<lparr>read_pointer := \<lparr>block = chain ! k', c_ptr = word_of_int cc'\<rparr>\<rparr>),
                        out, int (length out))
              \<and> int (length out) = max 0 (min n (eof_pos st ?inn - ?pos))
              \<and> k' < length chain \<and> 0 \<le> cc' \<and> cc' \<le> 1024
              \<and> int k' * 1024 + cc' = ?pos + int (length out)"
  proof cases
    case 1
    have "ssfs_fread st fileID True n = Some (st, [], 0)"
      using nm 1 by (simp add: ssfs_fread_def Let_def f)
    moreover have "fd_upd st (nat fileID)
        (\<lambda>f. f\<lparr>read_pointer := \<lparr>block = chain ! k, c_ptr = word_of_int cc\<rparr>\<rparr>) = st"
      using fd_upd_same_read_pointer [of st fileID] blk by (simp add: f cc)
    moreover have "max 0 (min n (eof_pos st ?inn - ?pos)) = 0" using 1 pos by simp
    ultimately show ?thesis using k c
      by (intro exI [of _ "[]"] exI [of _ k] exI [of _ cc]) simp
  next
    case 2
    from fread_fill_chain [OF ok lc(2,3) refl eof [unfolded ch] refl,
        of k "sint (chain ! k)" cc 0 n "[]"] k c pos 2
    obtain k' cc' out' where r:
      "fread_fill ?inn n (sint (last (file_chain st ?inn))) lc st (sint (chain ! k)) cc [] 0
         = Some (sint (file_chain st ?inn ! k'), cc', out', min n (eof_pos st ?inn - ?pos))"
      "k' < length chain" "0 \<le> cc'" "cc' \<le> 1024"
      "int k' * 1024 + cc' = ?pos + min n (eof_pos st ?inn - ?pos)"
      "int (length out') = min n (eof_pos st ?inn - ?pos)"
      by (auto simp: ch)
    have mx: "max 0 (min n (eof_pos st ?inn - ?pos)) = min n (eof_pos st ?inn - ?pos)"
      using 2 pos by simp
    have "ssfs_fread st fileID True n
            = Some (fd_upd st (nat fileID)
                      (\<lambda>f. f\<lparr>read_pointer := \<lparr>block = chain ! k', c_ptr = word_of_int cc'\<rparr>\<rparr>),
                    out', int (length out'))"
      using nm 2 c r(1) blk
      by (simp add: ssfs_fread_def Let_def f [symmetric] cc [symmetric] lb lc(1) r(6) ch)
    then show ?thesis using r mx by (intro exI [of _ out'] exI [of _ k'] exI [of _ cc']) simp
  next
    case 3
    from fread_fill_nothing [OF ok refl, of k "sint (chain ! k)" cc n 0
        "sint (last (file_chain st ?inn))" lc "[]"] k c 3
    obtain k' cc' where r:
      "fread_fill ?inn n (sint (last (file_chain st ?inn))) lc st (sint (chain ! k)) cc [] 0
         = Some (sint (file_chain st ?inn ! k'), cc', [], 0)"
      "k' < length chain" "0 \<le> cc'" "cc' \<le> 1024"
      "int k' * 1024 + cc' = ?pos"
      by (auto simp: ch)
    have mx: "max 0 (min n (eof_pos st ?inn - ?pos)) = 0" using 3 by simp
    have "ssfs_fread st fileID True n
            = Some (fd_upd st (nat fileID)
                      (\<lambda>f. f\<lparr>read_pointer := \<lparr>block = chain ! k', c_ptr = word_of_int cc'\<rparr>\<rparr>),
                    [], 0)"
      using nm 3 c r(1) blk
      by (simp add: ssfs_fread_def Let_def f [symmetric] cc [symmetric] lb lc(1) ch)
    then show ?thesis using r mx by (intro exI [of _ "[]"] exI [of _ k'] exI [of _ cc']) simp
  qed
qed

theorem fread_returns_bytes_read_witness:
  "ssfs_fread st_file_a 1 True 10 = Some (st_file_a, [], -1)
   \<and> (\<exists>out. ssfs_fread st_file_a 0 True 10
               = Some (fd_upd st_file_a 0 (\<lambda>f. f\<lparr>read_pointer := \<lparr>block = 14, c_ptr = 5\<rparr>\<rparr>), out, 5)
             \<and> length out = 5)"
proof -
  have closed: "name (entry (open_file_table st_file_a ! nat 1)) = []"
    using oft_st_file_a(2) [of 1] by (simp add: init_fd_def init_dir_entry_def)
  have a: "ssfs_fread st_file_a 1 True 10 = Some (st_file_a, [], -1)"
    using fread_returns_bytes_read [OF refl refl refl, where st = st_file_a and fileID = 1
        and buf_given = True and n = 10] closed
    by blast
  have "\<exists>out k' cc'.
          ssfs_fread st_file_a 0 True 10
            = Some (fd_upd st_file_a (nat 0)
                      (\<lambda>f. f\<lparr>read_pointer := \<lparr>block = [14] ! k', c_ptr = word_of_int cc'\<rparr>\<rparr>),
                    out, int (length out))
          \<and> int (length out) = min 10 (5 - (int 0 * 1024 + 0))
          \<and> k' < length [14::32 word] \<and> 0 \<le> cc' \<and> cc' \<le> 1024
          \<and> int k' * 1024 + cc' = int 0 * 1024 + 0 + int (length out)"
    using fread_returns_bytes_read [OF refl refl refl, where st = st_file_a and fileID = 0
        and n = 10 and k = 0]
    by (simp add: fd_inn_st_file_a file_chain_st_file_a file_ok_st_file_a eof_pos_st_file_a
        oft_st_file_a)
  then obtain out k' cc' where r:
    "ssfs_fread st_file_a 0 True 10
            = Some (fd_upd st_file_a (nat 0)
                      (\<lambda>f. f\<lparr>read_pointer := \<lparr>block = [14] ! k', c_ptr = word_of_int cc'\<rparr>\<rparr>),
                    out, int (length out))"
    "int (length out) = min 10 (5 - (int 0 * 1024 + 0))" "k' < length [14::32 word]"
    "int k' * 1024 + cc' = int 0 * 1024 + 0 + int (length out)"
    by blast
  then have "k' = 0" "cc' = 5" "length out = 5" by simp_all
  with r(1) a show ?thesis by simp
qed

section \<open>The size of a file under writes (claim C5)\<close>





end
